(* ===== verification/Prelude.thy ===== *)
theory Prelude
  imports Main
begin

text \<open>
  Shared foundations of the development.

  \<^item> \<open>prog\<close>: an asynchronous computation. An \<open>await\<close> in the Python code is the only point
    where another task can run, and every \<open>await\<close> of this program is one call to PostgreSQL,
    Redis or RabbitMQ. A program is therefore a tree of atomic actions on a shared state: it
    is either finished (with an error on the left or a value on the right) or an action that
    changes the state and yields the rest of the program. Trees are a datatype, so every
    program of the development terminates.
  \<^item> \<open>run\<close>: execution without interference, and \<open>wp\<close>: a weakest precondition under
    interference, with a rely \<open>R\<close> on the environment and a guarantee \<open>G\<close> on the program.
  \<^item> the named theorem collections that the component proofs pass to the simplifier.
\<close>

section \<open>Collections\<close>

named_theorems run_simps
  \<open>equations that execute programs without interference\<close>

named_theorems wp_rules
  \<open>backward rules for weakest preconditions\<close>

section \<open>Programs of atomic actions\<close>

datatype ('e, 'w, 'a) prog =
    Done "'e + 'a"
  | Act "'w \<Rightarrow> ('e, 'w, 'a) prog \<times> 'w"

lemma prog_induct [case_names Done Act, induct type: prog]:
  assumes "\<And>r. P (Done r)"
    and "\<And>f. (\<And>w. P (fst (f w))) \<Longrightarrow> P (Act f)"
  shows "P p"
proof (induction p rule: prog.induct)
  case (Act f)
  have "P (fst (f w))" for w
    using Act [of "f w" "fst (f w)"] by (metis fsts.intros rangeI surjective_pairing)
  then show ?case by (rule assms(2))
qed (rule assms(1))

abbreviation ret :: "'a \<Rightarrow> ('e, 'w, 'a) prog" where
  "ret a \<equiv> Done (Inr a)"

abbreviation throw :: "'e \<Rightarrow> ('e, 'w, 'a) prog" where
  "throw e \<equiv> Done (Inl e)"

text \<open>
  \<open>attempt p h\<close> runs \<open>p\<close> and hands its outcome, error or value, to \<open>h\<close>. It is the one
  primitive of control flow: sequencing, \<open>try\<close>/\<open>except\<close>, \<open>finally\<close> and
  \<open>async with\<close> are instances of it.
\<close>

primrec attempt :: "('e, 'w, 'a) prog \<Rightarrow> ('e + 'a \<Rightarrow> ('e, 'w, 'b) prog) \<Rightarrow> ('e, 'w, 'b) prog" where
  "attempt (Done r) h = h r"
| "attempt (Act f) h = Act (\<lambda>w. map_prod (\<lambda>p. attempt p h) id (f w))"

definition and_then :: "('e, 'w, 'a) prog \<Rightarrow> ('a \<Rightarrow> ('e, 'w, 'b) prog) \<Rightarrow> ('e, 'w, 'b) prog" where
  "and_then p k = attempt p (\<lambda>r. case r of Inl e \<Rightarrow> throw e | Inr a \<Rightarrow> k a)"

definition on_error :: "('e, 'w, 'a) prog \<Rightarrow> ('e \<Rightarrow> ('e, 'w, 'a) prog) \<Rightarrow> ('e, 'w, 'a) prog" where
  "on_error p h = attempt p (\<lambda>r. case r of Inl e \<Rightarrow> h e | Inr a \<Rightarrow> ret a)"

text \<open>\<open>finally p q\<close>: \<open>q\<close> runs whatever the outcome of \<open>p\<close>; an error of \<open>q\<close> replaces it.\<close>

definition finally_do :: "('e, 'w, 'a) prog \<Rightarrow> ('e, 'w, unit) prog \<Rightarrow> ('e, 'w, 'a) prog" where
  "finally_do p q = attempt p (\<lambda>r. and_then q (\<lambda>_. Done r))"

text \<open>One atomic action on the state.\<close>

definition atomic :: "('w \<Rightarrow> ('e + 'a) \<times> 'w) \<Rightarrow> ('e, 'w, 'a) prog" where
  "atomic f = Act (\<lambda>w. map_prod Done id (f w))"

text \<open>\<open>for row in rows: body(row)\<close>: stops at the first error.\<close>

primrec for_each :: "'b list \<Rightarrow> ('b \<Rightarrow> ('e, 'w, unit) prog) \<Rightarrow> ('e, 'w, unit) prog" where
  "for_each [] body = ret ()"
| "for_each (x # xs) body = and_then (body x) (\<lambda>_. for_each xs body)"

text \<open>The laws of a monad.\<close>

lemma attempt_attempt: "attempt (attempt p h) k = attempt p (\<lambda>r. attempt (h r) k)"
  by (induction p) (simp_all add: fun_eq_iff prod.map_comp comp_def map_prod_def split_beta)

lemma attempt_Done: "attempt p Done = p"
  by (induction p) (simp_all add: fun_eq_iff prod_eq_iff)

lemma and_then_ret: "and_then p ret = p"
proof -
  have "attempt p (\<lambda>r. case r of Inl e \<Rightarrow> throw e | Inr a \<Rightarrow> ret a) = attempt p Done"
    by (rule arg_cong [of _ _ "attempt p"]) (simp add: fun_eq_iff split: sum.split)
  then show ?thesis by (simp add: and_then_def attempt_Done)
qed

section \<open>Execution without interference\<close>

primrec run :: "('e, 'w, 'a) prog \<Rightarrow> 'w \<Rightarrow> ('e + 'a) \<times> 'w" where
  "run (Done r) = (\<lambda>w. (r, w))"
| "run (Act f) = (\<lambda>w. case map_prod run id (f w) of (g, w') \<Rightarrow> g w')"

declare run.simps [simp del]

lemma run_Done [run_simps, simp]: "run (Done r) w = (r, w)"
  by (simp add: run.simps)

lemma run_Act [run_simps]: "run (Act f) w = run (fst (f w)) (snd (f w))"
  by (simp add: run.simps split_beta)

lemma run_atomic [run_simps, simp]: "run (atomic f) w = f w"
  by (simp add: atomic_def run_Act)

lemma run_attempt: "run (attempt p h) w = (case run p w of (r, w') \<Rightarrow> run (h r) w')"
proof (induction p arbitrary: w)
  case (Done r)
  then show ?case by simp
next
  case (Act f)
  then show ?case by (simp add: run_Act)
qed

lemma run_and_then [run_simps]:
  "run (and_then p k) w =
     (case run p w of (Inl e, w') \<Rightarrow> (Inl e, w') | (Inr a, w') \<Rightarrow> run (k a) w')"
  by (simp add: and_then_def run_attempt split: prod.split sum.split)

lemma run_on_error [run_simps]:
  "run (on_error p h) w =
     (case run p w of (Inl e, w') \<Rightarrow> run (h e) w' | (Inr a, w') \<Rightarrow> (Inr a, w'))"
  by (simp add: on_error_def run_attempt split: prod.split sum.split)

lemma run_finally_do [run_simps]:
  "run (finally_do p q) w =
     (case run p w of (r, w') \<Rightarrow>
        (case run q w' of (Inl e, w'') \<Rightarrow> (Inl e, w'') | (Inr _, w'') \<Rightarrow> (r, w'')))"
  by (simp add: finally_do_def run_attempt run_and_then split: prod.split sum.split)

end
