(* ===== verification/Interference.thy ===== *)
theory Interference
  imports Prelude
begin

text \<open>
  Reasoning about programs whose atomic actions are interleaved with those of other tasks.
  \<open>wp R G p Q w\<close>: started at \<open>w\<close>, while the other tasks and the environment change the
  state by the rely \<open>R\<close> before every action and after the last one, every action of \<open>p\<close>
  is a step of the guarantee \<open>G\<close>, and its outcome satisfies \<open>Q\<close>. The locale
  \<open>interference\<close> derives the calculus from the laws of the relies and guarantees of a family
  of tasks; \<open>pool_step\<close> is the scheduler: any number of tasks, one atomic action of one task
  at a time.
\<close>

section \<open>Weakest preconditions under interference\<close>

primrec wp :: "('w \<Rightarrow> 'w \<Rightarrow> bool) \<Rightarrow> ('w \<Rightarrow> 'w \<Rightarrow> bool) \<Rightarrow> ('e, 'w, 'a) prog \<Rightarrow>
    ('e + 'a \<Rightarrow> 'w \<Rightarrow> bool) \<Rightarrow> 'w \<Rightarrow> bool" where
  "wp R G (Done r) = (\<lambda>Q w. \<forall>w'. R w w' \<longrightarrow> Q r w')"
| "wp R G (Act f) = (\<lambda>Q w. \<forall>w'. R w w' \<longrightarrow>
     G w' (snd (f w')) \<and> (case map_prod (wp R G) id (f w') of (g, w'') \<Rightarrow> g Q w''))"

declare wp.simps [simp del]

lemma wp_Done: "wp R G (Done r) Q w \<longleftrightarrow> (\<forall>w'. R w w' \<longrightarrow> Q r w')"
  by (simp add: wp.simps)

lemma wp_Act:
  "wp R G (Act f) Q w \<longleftrightarrow>
     (\<forall>w'. R w w' \<longrightarrow> G w' (snd (f w')) \<and> wp R G (fst (f w')) Q (snd (f w')))"
  by (simp add: wp.simps split_beta)

section \<open>The scheduler\<close>

text \<open>
  A configuration gives every task identity its program, if it has been started, and the
  shared state. \<open>Env\<close> says how the environment may change the state, \<open>New i p\<close> that task
  \<open>i\<close> may be started with program \<open>p\<close>, which it may when it has not been started or has
  finished.
\<close>

inductive pool_step ::
    "('w \<Rightarrow> 'w \<Rightarrow> bool) \<Rightarrow> ('i \<Rightarrow> ('e, 'w, 'a) prog \<Rightarrow> bool) \<Rightarrow>
     ('i \<rightharpoonup> ('e, 'w, 'a) prog) \<times> 'w \<Rightarrow> ('i \<rightharpoonup> ('e, 'w, 'a) prog) \<times> 'w \<Rightarrow> bool"
  for Env New where
  task: "ps i = Some (Act f) \<Longrightarrow> pool_step Env New (ps, w) (ps(i \<mapsto> fst (f w)), snd (f w))"
| environment: "Env w w' \<Longrightarrow> pool_step Env New (ps, w) (ps, w')"
| spawn: "New i p \<Longrightarrow> ps i = None \<or> (\<exists>r. ps i = Some (Done r)) \<Longrightarrow>
     pool_step Env New (ps, w) (ps(i \<mapsto> p), w)"

text \<open>Executing one task alone to its end is a sequence of scheduler steps.\<close>

lemma run_is_pool_execution:
  "ps i = Some p \<Longrightarrow>
     (pool_step Env New)\<^sup>*\<^sup>* (ps, w) (ps(i \<mapsto> Done (fst (run p w))), snd (run p w))"
proof (induction p arbitrary: ps w)
  case (Done r)
  then have "ps(i \<mapsto> Done r) = ps" by (simp add: fun_upd_idem)
  then show ?case by simp
next
  case (Act f)
  let ?p = "fst (f w)" and ?w = "snd (f w)"
  have "pool_step Env New (ps, w) (ps(i \<mapsto> ?p), ?w)"
    using Act.prems by (rule pool_step.task)
  moreover have "(pool_step Env New)\<^sup>*\<^sup>* (ps(i \<mapsto> ?p), ?w)
      (ps(i \<mapsto> ?p, i \<mapsto> Done (fst (run ?p ?w))), snd (run ?p ?w))"
    by (intro Act.IH) simp
  ultimately show ?case
    unfolding run_Act fun_upd_upd by (rule converse_rtranclp_into_rtranclp)
qed

section \<open>The calculus\<close>

locale interference =
  fixes R G :: "'i \<Rightarrow> 'w \<Rightarrow> 'w \<Rightarrow> bool"
  assumes R_refl: "R i w w"
    and R_trans: "R i u v \<Longrightarrow> R i v w \<Longrightarrow> R i u w"
    and G_others: "i \<noteq> j \<Longrightarrow> G i w w' \<Longrightarrow> R j w w'"
begin

lemma wp_stable: "wp (R i) (G i) p Q w \<Longrightarrow> R i w w' \<Longrightarrow> wp (R i) (G i) p Q w'"
  by (cases p) (auto simp: wp_Done wp_Act intro: R_trans)

lemma wp_consequence:
  "wp (R i) (G i) p Q w \<Longrightarrow> (\<And>r w'. Q r w' \<Longrightarrow> Q' r w') \<Longrightarrow> wp (R i) (G i) p Q' w"
proof (induction p arbitrary: w)
  case (Done r)
  then show ?case by (simp add: wp_Done)
next
  case (Act f)
  then show ?case by (simp add: wp_Act)
qed

lemma wp_ret [wp_rules]: "(\<And>w'. R i w w' \<Longrightarrow> Q r w') \<Longrightarrow> wp (R i) (G i) (Done r) Q w"
  by (simp add: wp_Done)

text \<open>Whatever holds of the outcome still holds after any further interference.\<close>

lemma wp_closed: "wp (R i) (G i) p Q w \<Longrightarrow> wp (R i) (G i) p (\<lambda>r w. \<forall>w'. R i w w' \<longrightarrow> Q r w') w"
proof (induction p arbitrary: w)
  case (Done r)
  then show ?case by (auto simp: wp_Done intro: R_trans)
next
  case (Act f)
  then show ?case by (simp add: wp_Act)
qed

lemma wp_attempt:
  "wp (R i) (G i) p (\<lambda>r. wp (R i) (G i) (h r) Q) w \<Longrightarrow> wp (R i) (G i) (attempt p h) Q w"
proof (induction p arbitrary: w)
  case (Done r)
  then show ?case by (simp add: wp_Done R_refl)
next
  case (Act f)
  then show ?case by (simp add: wp_Act)
qed

lemma wp_and_then [wp_rules]:
  assumes "wp (R i) (G i) p
    (\<lambda>r. case r of Inl e \<Rightarrow> Q (Inl e) | Inr a \<Rightarrow> wp (R i) (G i) (k a) Q) w"
  shows "wp (R i) (G i) (and_then p k) Q w"
  unfolding and_then_def
proof (rule wp_attempt, rule wp_consequence [OF wp_closed [OF assms]])
  fix r w'
  assume "\<forall>w''. R i w' w'' \<longrightarrow> (case r of Inl e \<Rightarrow> Q (Inl e) | Inr a \<Rightarrow> wp (R i) (G i) (k a) Q) w''"
  then show "wp (R i) (G i) (case r of Inl e \<Rightarrow> throw e | Inr a \<Rightarrow> k a) Q w'"
    by (cases r) (auto simp: wp_Done R_refl)
qed

lemma wp_on_error [wp_rules]:
  assumes "wp (R i) (G i) p
    (\<lambda>r. case r of Inl e \<Rightarrow> wp (R i) (G i) (h e) Q | Inr a \<Rightarrow> Q (Inr a)) w"
  shows "wp (R i) (G i) (on_error p h) Q w"
  unfolding on_error_def
proof (rule wp_attempt, rule wp_consequence [OF wp_closed [OF assms]])
  fix r w'
  assume "\<forall>w''. R i w' w'' \<longrightarrow> (case r of Inl e \<Rightarrow> wp (R i) (G i) (h e) Q | Inr a \<Rightarrow> Q (Inr a)) w''"
  then show "wp (R i) (G i) (case r of Inl e \<Rightarrow> h e | Inr a \<Rightarrow> ret a) Q w'"
    by (cases r) (auto simp: wp_Done R_refl)
qed

lemma wp_finally_do [wp_rules]:
  assumes "wp (R i) (G i) p
    (\<lambda>r. wp (R i) (G i) q (\<lambda>s. case s of Inl e \<Rightarrow> Q (Inl e) | Inr _ \<Rightarrow> Q r)) w"
  shows "wp (R i) (G i) (finally_do p q) Q w"
  unfolding finally_do_def
proof (rule wp_attempt, rule wp_consequence [OF assms])
  fix r w'
  assume "wp (R i) (G i) q (\<lambda>s. case s of Inl e \<Rightarrow> Q (Inl e) | Inr _ \<Rightarrow> Q r) w'"
  then have "wp (R i) (G i) q (\<lambda>s w. \<forall>w'. R i w w' \<longrightarrow> (case s of Inl e \<Rightarrow> Q (Inl e) | Inr _ \<Rightarrow> Q r) w') w'"
    by (rule wp_closed)
  then show "wp (R i) (G i) (and_then q (\<lambda>_. Done r)) Q w'"
    by (intro wp_and_then, elim wp_consequence) (auto simp: wp_Done R_refl split: sum.splits)
qed

lemma wp_atomic [wp_rules]:
  assumes "\<And>w'. R i w w' \<Longrightarrow> G i w' (snd (f w'))"
    and "\<And>w' w''. R i w w' \<Longrightarrow> R i (snd (f w')) w'' \<Longrightarrow> Q (fst (f w')) w''"
  shows "wp (R i) (G i) (atomic f) Q w"
  using assms by (simp add: atomic_def wp_Act wp_Done)

lemma wp_conj:
  "wp (R i) (G i) p Q w \<Longrightarrow> wp (R i) (G i) p Q' w \<Longrightarrow> wp (R i) (G i) p (\<lambda>r w. Q r w \<and> Q' r w) w"
proof (induction p arbitrary: w)
  case (Done r)
  then show ?case by (simp add: wp_Done)
next
  case (Act f)
  then show ?case by (simp add: wp_Act)
qed

text \<open>Start and end are related by any preorder that contains the rely and the guarantee.\<close>

lemma wp_preorder:
  assumes trans: "\<And>u v w. T u v \<Longrightarrow> T v w \<Longrightarrow> T u w"
    and R: "\<And>u v. R i u v \<Longrightarrow> T u v" and G: "\<And>u v. G i u v \<Longrightarrow> T u v"
    and p: "wp (R i) (G i) p Q w" and "T w0 w"
  shows "wp (R i) (G i) p (\<lambda>r w. Q r w \<and> T w0 w) w"
  using p \<open>T w0 w\<close>
proof (induction p arbitrary: w)
  case (Done r)
  then show ?case using trans R by (fastforce simp: wp_Done)
next
  case (Act f)
  have "T w0 (snd (f w'))" if "R i w w'" "G i w' (snd (f w'))" for w'
    using trans [OF trans [OF Act.prems(2) R [OF that(1)]] G [OF that(2)]] .
  with Act show ?case by (simp add: wp_Act)
qed

text \<open>
  A loop over a list, with an invariant of the remaining elements and the state that
  interference keeps.
\<close>

lemma wp_for_each:
  assumes "J xs w"
    and stable: "\<And>xs w w'. J xs w \<Longrightarrow> R i w w' \<Longrightarrow> J xs w'"
    and body: "\<And>x xs w. J (x # xs) w \<Longrightarrow>
      wp (R i) (G i) (body x) (\<lambda>r. case r of Inl e \<Rightarrow> Q (Inl e) | Inr _ \<Rightarrow> J xs) w"
    and finish: "\<And>w. J [] w \<Longrightarrow> Q (Inr ()) w"
  shows "wp (R i) (G i) (for_each xs body) Q w"
  using assms(1)
proof (induction xs arbitrary: w)
  case Nil
  then show ?case using stable finish by (simp add: wp_Done)
next
  case (Cons x xs)
  then show ?case
    unfolding for_each.simps
    by (intro wp_and_then wp_consequence [OF body [OF Cons.prems]]) (auto split: sum.splits)
qed

text \<open>Running alone is the special case without interference.\<close>

lemma wp_run:
  "wp (R i) (G i) p Q w \<Longrightarrow> Q (fst (run p w)) (snd (run p w)) \<and> (G i)\<^sup>*\<^sup>* w (snd (run p w))"
proof (induction p arbitrary: w)
  case (Done r)
  then show ?case by (simp add: wp_Done R_refl)
next
  case (Act f)
  then have "G i w (snd (f w))" "wp (R i) (G i) (fst (f w)) Q (snd (f w))"
    by (simp_all add: wp_Act R_refl)
  with Act.IH show ?case by (auto simp: run_Act intro: converse_rtranclp_into_rtranclp)
qed

text \<open>
  Soundness of the scheduler. \<open>Q i p0\<close> is the outcome promised by task \<open>i\<close> started with
  \<open>p0\<close>; \<open>A i\<close> is what holds while task \<open>i\<close> does not run, before it is started and after it
  has finished; \<open>I\<close> is an invariant of the shared state.
\<close>

definition pool_ok ::
    "('i \<Rightarrow> ('e, 'w, 'a) prog \<Rightarrow> bool) \<Rightarrow> ('i \<Rightarrow> 'w \<Rightarrow> bool) \<Rightarrow>
     ('i \<Rightarrow> ('e, 'w, 'a) prog \<Rightarrow> 'e + 'a \<Rightarrow> 'w \<Rightarrow> bool) \<Rightarrow>
     ('i \<rightharpoonup> ('e, 'w, 'a) prog) \<Rightarrow> 'w \<Rightarrow> bool" where
  "pool_ok New A Q ps w \<longleftrightarrow>
     (\<forall>i. case ps i of None \<Rightarrow> A i w
        | Some p \<Rightarrow> \<exists>p0. New i p0 \<and> wp (R i) (G i) p (Q i p0) w)"

lemma pool_okI:
  assumes "\<And>i. ps i = None \<Longrightarrow> A i w"
    and "\<And>i p. ps i = Some p \<Longrightarrow> \<exists>p0. New i p0 \<and> wp (R i) (G i) p (Q i p0) w"
  shows "pool_ok New A Q ps w"
  using assms by (simp add: pool_ok_def split: option.split)

lemma pool_idle: "pool_ok New A Q ps w \<Longrightarrow> ps i = None \<Longrightarrow> A i w"
  unfolding pool_ok_def by (drule spec [of _ i]) simp

lemma pool_task: "pool_ok New A Q ps w \<Longrightarrow> ps i = Some p \<Longrightarrow> \<exists>p0. New i p0 \<and> wp (R i) (G i) p (Q i p0) w"
  unfolding pool_ok_def by (drule spec [of _ i]) simp

lemma pool_finished:
  "pool_ok New A Q ps w \<Longrightarrow> ps i = Some (Done r) \<Longrightarrow> \<exists>p0. New i p0 \<and> Q i p0 r w"
  by (drule (1) pool_task) (auto simp: wp_Done R_refl)

text \<open>The tasks that do not move see a step of their surroundings.\<close>

lemma pool_stable:
  assumes ok: "pool_ok New A Q ps w" and R: "\<And>i. i \<notin> M \<Longrightarrow> R i w w'"
    and rest: "\<And>i. A i w \<Longrightarrow> R i w w' \<Longrightarrow> A i w'"
    and same: "\<And>i. i \<notin> M \<Longrightarrow> ps' i = ps i"
    and moved: "\<And>i. i \<in> M \<Longrightarrow> \<exists>p p0. ps' i = Some p \<and> New i p0 \<and> wp (R i) (G i) p (Q i p0) w'"
  shows "pool_ok New A Q ps' w'"
proof (rule pool_okI)
  fix i assume i: "ps' i = None"
  then have "i \<notin> M" using moved by fastforce
  then show "A i w'" using pool_idle [OF ok] rest R same i by simp
next
  fix i p assume i: "ps' i = Some p"
  show "\<exists>p0. New i p0 \<and> wp (R i) (G i) p (Q i p0) w'"
  proof (cases "i \<in> M")
    case True
    then show ?thesis using moved i by fastforce
  next
    case False
    then obtain p0 where "New i p0" "wp (R i) (G i) p (Q i p0) w"
      using pool_task [OF ok, of i p] same i by auto
    then show ?thesis using wp_stable [OF _ R [OF False]] by blast
  qed
qed

lemma pool_step_sound:
  assumes "pool_step Env New (ps, w) (ps', w')"
    and env: "\<And>i w w'. Env w w' \<Longrightarrow> R i w w'"
    and inv_env: "\<And>w w'. I w \<Longrightarrow> Env w w' \<Longrightarrow> I w'"
    and inv: "\<And>i w w'. I w \<Longrightarrow> G i w w' \<Longrightarrow> I w'"
    and new: "\<And>i p w. I w \<Longrightarrow> A i w \<Longrightarrow> New i p \<Longrightarrow> wp (R i) (G i) p (Q i p) w"
    and rest: "\<And>i w w'. I w \<Longrightarrow> A i w \<Longrightarrow> R i w w' \<Longrightarrow> A i w'"
    and finished: "\<And>i p r w. Q i p r w \<Longrightarrow> A i w"
    and "I w" and ok: "pool_ok New A Q ps w"
  shows "I w' \<and> pool_ok New A Q ps' w'"
  using assms(1)
proof cases
  case (task i f)
  with pool_task [OF ok] obtain p0 where p0: "New i p0" "wp (R i) (G i) (Act f) (Q i p0) w"
    by blast
  then have step: "G i w w'" "wp (R i) (G i) (fst (f w)) (Q i p0) w'"
    using task by (simp_all add: wp_Act R_refl)
  have others: "R j w w'" if "j \<notin> {i}" for j
    using G_others [OF _ step(1), of j] that by simp
  have "pool_ok New A Q ps' w'"
    by (rule pool_stable [OF ok others]) (use task step(2) p0(1) rest [OF \<open>I w\<close>] in auto)
  then show ?thesis using inv [OF \<open>I w\<close> step(1)] by simp
next
  case environment
  have "pool_ok New A Q ps' w'"
    by (rule pool_stable [OF ok, of "{}"]) (use environment env rest [OF \<open>I w\<close>] in auto)
  then show ?thesis using inv_env environment \<open>I w\<close> by blast
next
  case (spawn i p)
  have "A i w" using spawn(4) pool_idle [OF ok] pool_finished [OF ok] finished by blast
  then have "wp (R i) (G i) p (Q i p) w" using new [OF \<open>I w\<close>] spawn(3) by blast
  then have "pool_ok New A Q ps' w"
    by (intro pool_stable [OF ok, of "{i}"]) (use spawn R_refl in auto)
  then show ?thesis using spawn \<open>I w\<close> by simp
qed

lemma pool_execution_sound:
  assumes "(pool_step Env New)\<^sup>*\<^sup>* c c'"
    and env: "\<And>i w w'. Env w w' \<Longrightarrow> R i w w'"
    and inv_env: "\<And>w w'. I w \<Longrightarrow> Env w w' \<Longrightarrow> I w'"
    and inv: "\<And>i w w'. I w \<Longrightarrow> G i w w' \<Longrightarrow> I w'"
    and new: "\<And>i p w. I w \<Longrightarrow> A i w \<Longrightarrow> New i p \<Longrightarrow> wp (R i) (G i) p (Q i p) w"
    and rest: "\<And>i w w'. I w \<Longrightarrow> A i w \<Longrightarrow> R i w w' \<Longrightarrow> A i w'"
    and finished: "\<And>i p r w. Q i p r w \<Longrightarrow> A i w"
    and "I (snd c)" and "pool_ok New A Q (fst c) (snd c)"
  shows "I (snd c') \<and> pool_ok New A Q (fst c') (snd c')"
  using assms(1)
proof (induction rule: rtranclp_induct)
  case base
  then show ?case using assms(8,9) by blast
next
  case (step y z)
  obtain ps w ps' w' where yz: "y = (ps, w)" "z = (ps', w')" by (cases y, cases z) blast
  have "I w' \<and> pool_ok New A Q ps' w'"
  proof (rule pool_step_sound)
    show "pool_step Env New (ps, w) (ps', w')" using step.hyps(2) by (simp add: yz)
    show "I w" "pool_ok New A Q ps w" using step.IH by (simp_all add: yz)
  qed (rule env inv_env inv new rest finished; assumption)+
  then show ?case by (simp add: yz)
qed

end

end
