(* ===== verification/PyText.thy ===== *)
theory PyText
  imports Prelude "HOL-Library.Word"
begin

text \<open>
  Python text and bytes. A \<open>str\<close> is represented by its UTF-8 encoding (a list of 8-bit
  \<open>char\<close>s), so \<open>s.encode()\<close> reads the same list as bytes, equality and concatenation are
  those of the code points, and a literal such as \<open>''sha256=''\<close> stands for itself. The number
  of code points (\<open>py_len\<close>) counts the bytes that are not UTF-8 continuation bytes. Lone
  surrogates, which have no UTF-8 encoding, are outside the representation.
\<close>

type_synonym byte = "8 word"
type_synonym bytes = "byte list"
type_synonym uuid = "128 word"

section \<open>Encoding\<close>

definition encode :: "string \<Rightarrow> bytes" where
  "encode s = map of_char s"

lemma of_char_byte_inject: "(of_char c :: byte) = of_char d \<longleftrightarrow> c = d"
proof
  assume "(of_char c :: byte) = of_char d"
  then have "unat (of_nat (of_char c) :: byte) = unat (of_nat (of_char d) :: byte)"
    by (simp add: of_nat_of_char)
  then have "(of_char c :: nat) = of_char d"
    by (simp add: unat_of_nat)
  then show "c = d" by simp
qed simp

lemma encode_inject [simp]: "encode s = encode t \<longleftrightarrow> s = t"
  by (auto simp: encode_def inj_map_eq_map inj_def of_char_byte_inject)

lemma length_encode [simp]: "length (encode s) = length s"
  by (simp add: encode_def)

definition is_continuation :: "char \<Rightarrow> bool" where
  "is_continuation c \<longleftrightarrow> of_char c div (64 :: nat) = 2"

definition py_len :: "string \<Rightarrow> nat" where
  "py_len s = length (filter (\<lambda>c. \<not> is_continuation c) s)"

definition is_ascii_char :: "char \<Rightarrow> bool" where
  "is_ascii_char c \<longleftrightarrow> of_char c < (128 :: nat)"

definition is_ascii :: "string \<Rightarrow> bool" where
  "is_ascii s = list_all is_ascii_char s"

lemma is_ascii_append [simp]: "is_ascii (s @ t) \<longleftrightarrow> is_ascii s \<and> is_ascii t"
  by (simp add: is_ascii_def)

lemma py_len_ascii: "is_ascii s \<Longrightarrow> py_len s = length s"
  by (induction s) (auto simp: is_ascii_def py_len_def is_ascii_char_def is_continuation_def)

lemma py_len_le_length: "py_len s \<le> length s"
  by (simp add: py_len_def)

section \<open>String methods\<close>

definition startswith :: "string \<Rightarrow> string \<Rightarrow> bool" where
  "startswith s p \<longleftrightarrow> take (length p) s = p"

lemma startswith_append [simp]: "startswith (p @ s) p"
  by (simp add: startswith_def)

lemma startswith_iff: "startswith s p \<longleftrightarrow> (\<exists>t. s = p @ t)"
  unfolding startswith_def by (metis append_take_drop_id append_eq_conv_conj)

section \<open>Decimal numerals: \<open>str(int)\<close>\<close>

definition digit :: "nat \<Rightarrow> char" where
  "digit n = ''0123456789'' ! n"

fun dec_nat :: "nat \<Rightarrow> string" where
  "dec_nat n = (if n < 10 then [digit n] else dec_nat (n div 10) @ [digit (n mod 10)])"

declare dec_nat.simps [simp del]

definition py_str_int :: "int \<Rightarrow> string" where
  "py_str_int i = (if i < 0 then CHR ''-'' # dec_nat (nat (- i)) else dec_nat (nat i))"

lemma less_ten_cases:
  "n < (10::nat) \<Longrightarrow> n = 0 \<or> n = 1 \<or> n = 2 \<or> n = 3 \<or> n = 4 \<or> n = 5 \<or> n = 6 \<or> n = 7 \<or> n = 8 \<or> n = 9"
  by arith

lemma of_char_digit: "n < 10 \<Longrightarrow> of_char (digit n) = 48 + n"
  by (drule less_ten_cases) (auto simp: digit_def)

lemma digit_inject: "m < 10 \<Longrightarrow> n < 10 \<Longrightarrow> digit m = digit n \<longleftrightarrow> m = n"
  by (metis add_left_imp_eq of_char_digit)

lemma dec_nat_inject: "dec_nat m = dec_nat n \<Longrightarrow> m = n"
proof (induction m arbitrary: n rule: dec_nat.induct)
  case (1 m)
  have nonempty: "dec_nat k \<noteq> []" for k by (subst dec_nat.simps) simp
  show ?case
  proof (cases "m < 10 \<or> n < 10")
    case True
    then show ?thesis using "1.prems" nonempty nonempty [symmetric]
      by (auto simp: dec_nat.simps [of m] dec_nat.simps [of n] digit_inject split: if_splits)
  next
    case False
    then have "dec_nat (m div 10) = dec_nat (n div 10)" "m mod 10 = n mod 10"
      using "1.prems" by (simp_all add: dec_nat.simps [of m] dec_nat.simps [of n] digit_inject)
    then have "m div 10 = n div 10" using "1.IH" False by simp
    then show ?thesis using \<open>m mod 10 = n mod 10\<close> by (metis div_mult_mod_eq)
  qed
qed

definition is_digit_char :: "char \<Rightarrow> bool" where
  "is_digit_char c \<longleftrightarrow> 48 \<le> (of_char c :: nat) \<and> of_char c < (58 :: nat)"

lemma dec_nat_digits: "list_all is_digit_char (dec_nat n)"
proof (induction n rule: dec_nat.induct)
  case (1 n)
  have "is_digit_char (digit k)" if "k < 10" for k
    using that by (simp add: is_digit_char_def of_char_digit)
  then show ?case using 1 by (subst dec_nat.simps) simp
qed

lemma py_str_int_inject: "py_str_int i = py_str_int j \<Longrightarrow> i = j"
proof -
  have no_minus: "dec_nat n \<noteq> CHR ''-'' # s" for n s
    using dec_nat_digits [of n] by (auto simp: is_digit_char_def)
  assume "py_str_int i = py_str_int j"
  then show "i = j"
    using no_minus [symmetric] no_minus
    by (auto simp: py_str_int_def split: if_splits dest!: dec_nat_inject)
qed

section \<open>Hexadecimal digits and UUIDs\<close>

definition hex_digit :: "nat \<Rightarrow> char" where
  "hex_digit n = ''0123456789abcdef'' ! n"

text \<open>The low \<open>4 * n\<close> bits of a word, most significant digit first.\<close>

definition hex_word :: "nat \<Rightarrow> 'a::len word \<Rightarrow> string" where
  "hex_word n w = map (\<lambda>i. hex_digit (unat (take_bit 4 (drop_bit (4 * (n - 1 - i)) w)))) [0..<n]"

text \<open>\<open>str(uuid)\<close>: 8-4-4-4-12 lower-case hexadecimal digits.\<close>

definition uuid_str :: "uuid \<Rightarrow> string" where
  "uuid_str u = (let h = hex_word 32 u in
     take 8 h @ ''-'' @ take 4 (drop 8 h) @ ''-'' @ take 4 (drop 12 h) @ ''-'' @
     take 4 (drop 16 h) @ ''-'' @ drop 20 h)"

definition is_hex_char :: "char \<Rightarrow> bool" where
  "is_hex_char c \<longleftrightarrow> c \<in> set ''0123456789abcdef''"

lemma length_hex_word [simp]: "length (hex_word n w) = n"
  by (simp add: hex_word_def)

lemma nibble_less: "unat (take_bit 4 (w :: 'a::len word)) < 16"
proof -
  have "take_bit 4 (unat w) < 2 ^ 4" by (rule take_bit_nat_less_exp)
  then show ?thesis by (simp add: unsigned_take_bit_eq)
qed

lemma hex_digit_inject: "m < 16 \<Longrightarrow> n < 16 \<Longrightarrow> hex_digit m = hex_digit n \<longleftrightarrow> m = n"
  unfolding hex_digit_def by (subst nth_eq_iff_index_eq) simp_all

lemma is_hex_char_hex_digit: "n < 16 \<Longrightarrow> is_hex_char (hex_digit n)"
  unfolding is_hex_char_def hex_digit_def by (intro nth_mem) simp

lemma hex_word_chars: "list_all is_hex_char (hex_word n w)"
  by (auto simp: hex_word_def list_all_iff intro: is_hex_char_hex_digit nibble_less)

lemma is_hex_char_ascii: "is_hex_char c \<Longrightarrow> is_ascii_char c \<and> c \<noteq> CHR '':''"
  by (auto simp: is_hex_char_def is_ascii_char_def)

lemma hex_word_inject:
  fixes u v :: "'a::len word"
  assumes eq: "hex_word n u = hex_word n v" and len: "LENGTH('a) = 4 * n"
  shows "u = v"
proof (rule bit_word_eqI)
  fix k assume "k < LENGTH('a)"
  then have i: "n - 1 - k div 4 < n" and shift: "4 * (n - 1 - (n - 1 - k div 4)) + k mod 4 = k"
    using len by (simp_all add: less_mult_imp_div_less mult.commute)
  let ?s = "4 * (n - 1 - (n - 1 - k div 4))"
  have "hex_word n u ! (n - 1 - k div 4) = hex_word n v ! (n - 1 - k div 4)"
    using eq by simp
  then have "unat (take_bit 4 (drop_bit ?s u)) = unat (take_bit 4 (drop_bit ?s v))"
    using i by (simp add: hex_word_def hex_digit_inject [OF nibble_less nibble_less])
  then have "take_bit 4 (drop_bit ?s u) = take_bit 4 (drop_bit ?s v)"
    by (simp only: word_unat_eq_iff)
  then have "bit (take_bit 4 (drop_bit ?s u)) (k mod 4) = bit (take_bit 4 (drop_bit ?s v)) (k mod 4)"
    by simp
  then show "bit u k = bit v k"
    using shift by (simp add: bit_take_bit_iff bit_drop_bit_eq)
qed

lemma uuid_str_inject: "uuid_str u = uuid_str v \<longleftrightarrow> u = v"
proof
  assume "uuid_str u = uuid_str v"
  then have eqs: "take 8 (hex_word 32 u) = take 8 (hex_word 32 v)"
    "take 4 (drop 8 (hex_word 32 u)) = take 4 (drop 8 (hex_word 32 v))"
    "take 4 (drop 12 (hex_word 32 u)) = take 4 (drop 12 (hex_word 32 v))"
    "take 4 (drop 16 (hex_word 32 u)) = take 4 (drop 16 (hex_word 32 v))"
    "drop 20 (hex_word 32 u) = drop 20 (hex_word 32 v)"
    by (simp_all add: uuid_str_def Let_def)
  have split: "h = take 8 h @ take 4 (drop 8 h) @ take 4 (drop 12 h) @ take 4 (drop 16 h) @ drop 20 h"
    for h :: string
  proof -
    have step: "drop k h = take 4 (drop k h) @ drop (k + 4) h" for k
      using append_take_drop_id [of 4 "drop k h"] by (simp add: add.commute)
    show ?thesis
      using append_take_drop_id [of 8 h] step [of 8] step [of 12] step [of 16] by simp
  qed
  have "hex_word 32 u = hex_word 32 v"
    using split [of "hex_word 32 u"] split [of "hex_word 32 v"] eqs by simp
  then show "u = v" by (rule hex_word_inject) simp
qed simp

lemma length_uuid_str [simp]: "length (uuid_str u) = 36"
  by (simp add: uuid_str_def Let_def)

lemma uuid_str_no_colon: "CHR '':'' \<notin> set (uuid_str u)"
proof -
  have "c \<noteq> CHR '':''" if "c \<in> set (hex_word 32 u)" for c
    using that hex_word_chars [of 32 u] is_hex_char_ascii by (auto simp: list_all_iff)
  then show ?thesis
    by (auto simp: uuid_str_def Let_def dest!: in_set_takeD in_set_dropD)
qed

section \<open>NUL characters\<close>

text \<open>A PostgreSQL \<open>text\<close> holds no NUL character; a Python \<open>str\<close> may.\<close>

definition no_nul :: "string \<Rightarrow> bool" where
  "no_nul s \<longleftrightarrow> CHR 0x00 \<notin> set s"

lemma no_nul_append [simp]: "no_nul (s @ t) \<longleftrightarrow> no_nul s \<and> no_nul t"
  by (auto simp: no_nul_def)

lemma no_nul_Nil [simp]: "no_nul []"
  by (simp add: no_nul_def)

lemma no_nul_Cons [simp]: "no_nul (c # s) \<longleftrightarrow> c \<noteq> CHR 0x00 \<and> no_nul s"
  by (auto simp: no_nul_def)

lemma no_nul_hex: "list_all is_hex_char s \<Longrightarrow> no_nul s"
proof -
  have "\<not> is_hex_char (CHR 0x00)" by (simp add: is_hex_char_def)
  then show "list_all is_hex_char s \<Longrightarrow> no_nul s"
    unfolding no_nul_def list_all_iff by metis
qed

lemma no_nul_uuid_str [simp]: "no_nul (uuid_str u)"
proof -
  have "no_nul (take m (drop k s)) \<and> no_nul (drop k s) \<and> no_nul (take m s)" if "no_nul s" for m k s
    using that unfolding no_nul_def by (meson in_set_dropD in_set_takeD)
  from this [OF no_nul_hex [OF hex_word_chars [of 32 u]]] show ?thesis
    by (simp add: uuid_str_def Let_def)
qed

end
