(* ===== verification/Json.thy ===== *)
theory Json
  imports PyText
begin

text \<open>
  JSON documents as the Python values that \<open>json.loads\<close> and pydantic make of them:
  \<open>JObj\<close> lists the items of a \<open>dict\<close> in insertion order (its keys are distinct, as
  \<open>wf_json\<close> says), \<open>JFloat\<close> holds a float by its \<open>repr\<close>.
\<close>

datatype json =
    JNull
  | JBool bool
  | JInt int
  | JFloat string
  | JStr string
  | JArr "json list"
  | JObj "(string \<times> json) list"

type_synonym pydict = "(string \<times> json) list"

fun wf_json :: "json \<Rightarrow> bool" where
  "wf_json (JArr js) = list_all wf_json js"
| "wf_json (JObj kvs) = (distinct (map fst kvs) \<and> list_all wf_json (map snd kvs))"
| "wf_json _ = True"

text \<open>
  The documents a JSONB column can hold. \<open>json.dumps\<close> writes a NUL character as \<open>\u0000\<close> and the
  special floats as \<open>NaN\<close> and \<open>Infinity\<close>; JSONB rejects the first and JSON has no second.
\<close>

fun jsonb_ok :: "json \<Rightarrow> bool" where
  "jsonb_ok (JStr s) = no_nul s"
| "jsonb_ok (JFloat s) = (s \<notin> {''nan'', ''inf'', ''-inf''})"
| "jsonb_ok (JArr js) = list_all jsonb_ok js"
| "jsonb_ok (JObj kvs) = (list_all no_nul (map fst kvs) \<and> list_all jsonb_ok (map snd kvs))"
| "jsonb_ok _ = True"

text \<open>\<open>d.get(k)\<close>, and \<open>d.get(k, default)\<close>.\<close>

abbreviation dict_get :: "('k \<times> 'v) list \<Rightarrow> 'k \<Rightarrow> 'v option" where
  "dict_get \<equiv> map_of"

definition dict_get_or :: "('k \<times> 'v) list \<Rightarrow> 'k \<Rightarrow> 'v \<Rightarrow> 'v" where
  "dict_get_or d k dflt = (case map_of d k of None \<Rightarrow> dflt | Some v \<Rightarrow> v)"

text \<open>\<open>bool(v)\<close>.\<close>

fun truthy :: "json \<Rightarrow> bool" where
  "truthy JNull = False"
| "truthy (JBool b) = b"
| "truthy (JInt i) = (i \<noteq> 0)"
| "truthy (JFloat s) = (s \<notin> {''0.0'', ''-0.0''})"
| "truthy (JStr s) = (s \<noteq> [])"
| "truthy (JArr js) = (js \<noteq> [])"
| "truthy (JObj kvs) = (kvs \<noteq> [])"

text \<open>
  \<open>str(v)\<close>; the \<open>repr\<close> of a list or dict depends on the Unicode tables of the interpreter
  and is a parameter.
\<close>

fun py_str :: "(json \<Rightarrow> string) \<Rightarrow> json \<Rightarrow> string" where
  "py_str rep JNull = ''None''"
| "py_str rep (JBool b) = (if b then ''True'' else ''False'')"
| "py_str rep (JInt i) = py_str_int i"
| "py_str rep (JFloat s) = s"
| "py_str rep (JStr s) = s"
| "py_str rep (JArr js) = rep (JArr js)"
| "py_str rep (JObj kvs) = rep (JObj kvs)"

lemma dict_get_or_Some [simp]: "map_of d k = Some v \<Longrightarrow> dict_get_or d k x = v"
  by (simp add: dict_get_or_def)

lemma dict_get_or_None [simp]: "map_of d k = None \<Longrightarrow> dict_get_or d k x = x"
  by (simp add: dict_get_or_def)

lemma map_of_filter_keys:
  "map_of (filter (\<lambda>kv. fst kv \<in> K) d) k = (if k \<in> K then map_of d k else None)"
  by (induction d) auto

end
