(* ===== verification/Errors.thy ===== *)
theory Errors
  imports Json
begin

text \<open>
  Errors as values. \<open>service_error\<close> is the exception hierarchy of
  \<open>src/vcs_gateway/core/exceptions.py\<close> (one constructor of \<open>error_kind\<close> per class);
  \<open>exn\<close> adds the exceptions of the standard library and of the drivers that the gateway's
  code can meet. \<open>Cancelled\<close> is \<open>asyncio.CancelledError\<close>, the only one that is not an
  \<open>Exception\<close>. The second part is \<open>src/vcs_gateway/api/exception_handlers.py\<close> with the
  registrations of \<open>create_app\<close> in \<open>src/vcs_gateway/main.py\<close>.
\<close>

section \<open>The hierarchy\<close>

datatype error_kind =
    ServiceError
  | ValidationError
  | NotFoundError
  | DuplicateError
  | StaleEventError
  | QuotaExceededError
  | BusinessRuleError
  | DatabaseError
  | QueueError
  | ExternalServiceError
  | RedisError

fun error_code :: "error_kind \<Rightarrow> string" where
  "error_code ServiceError = ''SERVICE_ERROR''"
| "error_code ValidationError = ''VALIDATION_ERROR''"
| "error_code NotFoundError = ''NOT_FOUND''"
| "error_code DuplicateError = ''DUPLICATE''"
| "error_code StaleEventError = ''STALE_EVENT''"
| "error_code QuotaExceededError = ''QUOTA_EXCEEDED''"
| "error_code BusinessRuleError = ''BUSINESS_RULE_VIOLATION''"
| "error_code DatabaseError = ''DATABASE_ERROR''"
| "error_code QueueError = ''QUEUE_ERROR''"
| "error_code ExternalServiceError = ''EXTERNAL_SERVICE_ERROR''"
| "error_code RedisError = ''REDIS_ERROR''"

record service_error =
  se_kind :: error_kind
  se_message :: string
  se_details :: pydict
  se_status_code :: "int option"

text \<open>The constructors: \<open>details or {}\<close>; only \<open>ExternalServiceError\<close> takes a status code.\<close>

definition service_error :: "error_kind \<Rightarrow> string \<Rightarrow> pydict option \<Rightarrow> service_error" where
  "service_error k msg details =
     \<lparr>se_kind = k, se_message = msg,
      se_details = (case details of None \<Rightarrow> [] | Some d \<Rightarrow> d), se_status_code = None\<rparr>"

definition external_service_error :: "string \<Rightarrow> int option \<Rightarrow> pydict option \<Rightarrow> service_error" where
  "external_service_error msg status details =
     (service_error ExternalServiceError msg details)\<lparr>se_status_code := status\<rparr>"

datatype exn =
    Service service_error
  | PydanticError
  | JSONDecodeError
  | KeyError string
  | AttributeError
  | TypeError
  | ValueError string
  | RuntimeError string
  | AssertionError
  | UniqueViolationError string
  | DataError string
  | PostgresError string
  | RedisFailure
  | AmqpError
  | Cancelled

text \<open>What \<open>except Exception\<close> and \<open>except ServiceError\<close> catch.\<close>

definition is_exception :: "exn \<Rightarrow> bool" where
  "is_exception e \<longleftrightarrow> e \<noteq> Cancelled"

fun is_service_error :: "exn \<Rightarrow> bool" where
  "is_service_error (Service _) = True"
| "is_service_error _ = False"

definition except_exception :: "(exn, 'w, 'a) prog \<Rightarrow> (exn \<Rightarrow> (exn, 'w, 'a) prog) \<Rightarrow> (exn, 'w, 'a) prog" where
  "except_exception p h = on_error p (\<lambda>e. if is_exception e then h e else throw e)"

lemma run_except_exception [run_simps]:
  "run (except_exception p h) w =
     (case run p w of
        (Inl e, w') \<Rightarrow> if is_exception e then run (h e) w' else (Inl e, w')
      | (Inr a, w') \<Rightarrow> (Inr a, w'))"
  by (simp add: except_exception_def run_on_error split: prod.split sum.split)

abbreviation raise_service :: "error_kind \<Rightarrow> string \<Rightarrow> pydict \<Rightarrow> (exn, 'w, 'a) prog" where
  "raise_service k msg details \<equiv> throw (Service (service_error k msg (Some details)))"

section \<open>HTTP responses for domain errors\<close>

record http_response =
  hr_status :: int
  hr_headers :: "(string \<times> string) list"
  hr_content :: json

text \<open>
  \<open>{"code": c, "message": m, **details}\<close>: a later item replaces the value of an earlier
  equal key and keeps its place.
\<close>

definition dict_set :: "('k \<times> 'v) list \<Rightarrow> 'k \<Rightarrow> 'v \<Rightarrow> ('k \<times> 'v) list" where
  "dict_set d k v =
     (if k \<in> fst ` set d then map (\<lambda>(k', v'). (k', if k' = k then v else v')) d else d @ [(k, v)])"

definition dict_merge :: "('k \<times> 'v) list \<Rightarrow> ('k \<times> 'v) list \<Rightarrow> ('k \<times> 'v) list" where
  "dict_merge d d' = foldl (\<lambda>acc (k, v). dict_set acc k v) d d'"

definition not_found_handler :: "service_error \<Rightarrow> http_response" where
  "not_found_handler e =
     \<lparr>hr_status = 404, hr_headers = [],
      hr_content = JObj (dict_merge
        [(''code'', JStr (error_code (se_kind e))), (''message'', JStr (se_message e))]
        (se_details e))\<rparr>"

definition validation_handler :: "service_error \<Rightarrow> http_response" where
  "validation_handler e =
     (let code = dict_get_or (se_details e) ''code'' (JStr '''');
          status = (if code = JStr ''INVALID_SIGNATURE'' then 401
                    else if code = JStr ''TENANT_INACTIVE'' \<or> code = JStr ''UNSUPPORTED_PROVIDER'' then 403
                    else 400)
      in \<lparr>hr_status = status, hr_headers = [],
          hr_content = JObj
            [(''code'', if truthy code then code else JStr (error_code (se_kind e))),
             (''message'', JStr (se_message e))]\<rparr>)"

definition business_rule_handler :: "service_error \<Rightarrow> http_response" where
  "business_rule_handler e =
     \<lparr>hr_status = 403, hr_headers = [],
      hr_content = JObj
        [(''code'', dict_get_or (se_details e) ''code'' (JStr (error_code (se_kind e)))),
         (''message'', JStr (se_message e))]\<rparr>"

definition unavailable_response :: "service_error \<Rightarrow> string \<Rightarrow> http_response" where
  "unavailable_response e msg =
     \<lparr>hr_status = 500, hr_headers = [(''Retry-After'', ''60'')],
      hr_content = JObj
        [(''code'', JStr (error_code (se_kind e))), (''message'', JStr msg), (''retry_after'', JInt 60)]\<rparr>"

definition database_handler :: "service_error \<Rightarrow> http_response" where
  "database_handler e = unavailable_response e ''Database unavailable''"

definition queue_handler :: "service_error \<Rightarrow> http_response" where
  "queue_handler e = unavailable_response e ''Queue unavailable''"

text \<open>
  The handlers that \<open>create_app\<close> registers. The lookup goes by exception class; no handler is
  registered for \<open>ServiceError\<close> itself or for \<open>Exception\<close>, so every other class has none.
\<close>

definition registered_handler :: "error_kind \<rightharpoonup> service_error \<Rightarrow> http_response" where
  "registered_handler =
     [NotFoundError \<mapsto> not_found_handler,
      ValidationError \<mapsto> validation_handler,
      BusinessRuleError \<mapsto> business_rule_handler,
      DatabaseError \<mapsto> database_handler,
      QueueError \<mapsto> queue_handler]"

text \<open>An exception without a handler becomes the server's plain 500 response.\<close>

definition internal_server_error :: http_response where
  "internal_server_error = \<lparr>hr_status = 500, hr_headers = [], hr_content = JStr ''Internal Server Error''\<rparr>"

fun handle_exception :: "exn \<Rightarrow> http_response" where
  "handle_exception (Service e) =
     (case registered_handler (se_kind e) of None \<Rightarrow> internal_server_error | Some h \<Rightarrow> h e)"
| "handle_exception _ = internal_server_error"

section \<open>Lemmas\<close>

lemma error_code_inject: "error_code k = error_code k' \<longleftrightarrow> k = k'"
  by (cases k; cases k') simp_all

lemma registered_handler_None:
  "registered_handler k = None \<longleftrightarrow>
     k \<notin> {NotFoundError, ValidationError, BusinessRuleError, DatabaseError, QueueError}"
  by (simp add: registered_handler_def)

lemma map_of_dict_set: "map_of (dict_set d k v) = (map_of d)(k \<mapsto> v)"
proof (cases "k \<in> fst ` set d")
  case True
  have "map_of (map (\<lambda>(k', v'). (k', if k' = k then v else v')) d) x =
      (if x = k then map_option (\<lambda>_. v) (map_of d k) else map_of d x)" for x
    by (induction d) auto
  moreover obtain v' where "map_of d k = Some v'"
    using True by (metis domD dom_map_of_conv_image_fst)
  ultimately show ?thesis using True by (auto simp: dict_set_def fun_eq_iff)
next
  case False
  then have "map_of d k = None" by (simp add: map_of_eq_None_iff)
  then show ?thesis using False by (auto simp: dict_set_def fun_eq_iff map_add_def split: option.splits)
qed

lemma map_of_dict_merge:
  "distinct (map fst d') \<Longrightarrow> map_of (dict_merge d d') = map_of d ++ map_of d'"
proof (induction d' arbitrary: d)
  case Nil
  then show ?case by (simp add: dict_merge_def)
next
  case (Cons kv d')
  obtain k v where kv: "kv = (k, v)" by (cases kv)
  with Cons.prems have "map_of d' k = None" by (simp add: map_of_eq_None_iff)
  then show ?case
    using Cons kv by (auto simp: dict_merge_def map_of_dict_set fun_eq_iff map_add_def split: option.splits)
qed

lemma dict_set_keys: "set (map fst (dict_set d k v)) = insert k (set (map fst d))"
  by (force simp: dict_set_def image_iff)

lemma distinct_dict_set:
  assumes "distinct (map fst d)"
  shows "distinct (map fst (dict_set d k v))"
proof (cases "k \<in> fst ` set d")
  case True
  have "fst \<circ> (\<lambda>(k', v'). (k', if k' = k then v else v')) = fst"
    by (simp add: fun_eq_iff split_beta)
  then show ?thesis using True assms by (simp add: dict_set_def)
next
  case False
  then show ?thesis using assms by (simp add: dict_set_def)
qed

end
