(* ===== verification/World.thy ===== *)
theory World
  imports Complex_Main Interference Errors
begin

text \<open>
  The state that the gateway shares with its surroundings, and the calls that reach it.

  \<^item> rows: \<open>src/vcs_gateway/models/domain.py\<close> and the tables of
    \<open>migrations/versions\<close>;
  \<^item> \<open>settings\<close>: \<open>src/vcs_gateway/config.py\<close>;
  \<^item> \<open>platform\<close>: the operations of third-party code that the gateway calls (pydantic's
    parser and validators, the JSON text codec, \<open>repr\<close>, date formatting, the JSONB codec of
    the connection pool), as parameters;
  \<^item> \<open>world\<close>: committed tables, open transactions, Redis, the broker, clocks, the UUID source.

  Every call to PostgreSQL, Redis or RabbitMQ may fail. Which calls fail is an oracle of the
  world (\<open>w_db_faults\<close> and its siblings, consumed by a counter): a theorem about all worlds
  is a theorem about all fault schedules. A failing call may still have been applied by the
  server, and may be a cancellation (\<open>asyncio.CancelledError\<close>) instead of an error.
\<close>

type_synonym time = int \<comment> \<open>microseconds\<close>

definition seconds :: "int \<Rightarrow> time" where
  "seconds n = n * 1000000"

lemma seconds_simps [simp]:
  "seconds 0 = 0" "seconds m + seconds n = seconds (m + n)" "seconds m \<le> seconds n \<longleftrightarrow> m \<le> n"
  "seconds m < seconds n \<longleftrightarrow> m < n" "seconds m = seconds n \<longleftrightarrow> m = n"
  by (simp_all add: seconds_def algebra_simps)

section \<open>Rows and domain models\<close>

record tenant_row =
  tr_tenant_id :: uuid
  tr_customer_id :: uuid
  tr_tenant_name :: string
  tr_is_active :: bool
  tr_webhook_secret :: string

record customer_row =
  cr_customer_id :: uuid
  cr_plan_type :: string

record tenant =
  tn_tenant_id :: uuid
  tn_customer_id :: uuid
  tn_name :: string
  tn_is_active :: bool
  tn_webhook_secret :: string
  tn_plan_type :: string
  tn_customer_plan_type :: "string option"

record whitelist_entry =
  wl_vcs_provider :: string
  wl_event_type :: string
  wl_event_action :: string
  wl_is_active :: bool

record vcs_config_row =
  vc_tenant_id :: uuid
  vc_vcs_provider :: string
  vc_vcs_instance_id :: string
  vc_repo_id :: string
  vc_repo_name :: "string option"
  vc_repo_url :: "string option"
  vc_is_active :: bool
  vc_updated_at :: time

record inbound_event =
  ie_event_id :: uuid
  ie_correlation_id :: uuid
  ie_tenant_id :: uuid
  ie_vcs_provider :: string
  ie_vcs_instance_id :: string
  ie_repo_id :: string
  ie_repo_name :: "string option"
  ie_pr_id :: string
  ie_pr_title :: "string option"
  ie_pr_author :: "string option"
  ie_pr_url :: "string option"
  ie_commit_sha :: string
  ie_action :: string
  ie_pr_hash_key :: string
  ie_pr_version :: int
  ie_processing_status :: string
  ie_rejection_reason :: "string option"
  ie_raw_payload :: json
  ie_webhook_headers :: "json option"
  ie_created_at :: time
  ie_updated_at :: time

datatype outbox_status = SCHEDULED | CANCELLED | DISPATCHED | FAILED

record outbox_event =
  oe_outbox_id :: uuid
  oe_event_type :: string
  oe_correlation_id :: uuid
  oe_pr_hash_key :: "string option"
  oe_pr_version :: "int option"
  oe_payload :: json
  oe_headers :: json
  oe_status :: outbox_status
  oe_dispatch_at :: time
  oe_cancel_reason :: "string option"
  oe_retry_count :: int
  oe_max_retries :: int
  oe_next_retry_at :: "time option"
  oe_error_message :: "string option"
  oe_created_at :: time
  oe_published_at :: "time option"

section \<open>Settings\<close>

datatype environment = Local | Staging | Production

record settings =
  service_name :: string
  environment :: environment
  log_level :: string
  port :: int
  database_url :: string
  database_schema :: string
  db_pool_min :: int
  db_pool_max :: int
  db_command_timeout :: int
  rabbitmq_url :: string
  rabbitmq_prefetch_count :: int
  redis_url :: string
  redis_pool_max :: int
  outbox_poll_interval_seconds :: rat
  outbox_batch_size :: int
  otel_enabled :: bool
  otel_exporter_otlp_endpoint :: string
  otel_service_version :: string
  otel_sample_rate :: rat
  rabbitmq_exchange_webhook :: string
  rabbitmq_exchange_journey :: string
  redis_idempotency_ttl_seconds :: int
  outbox_debounce_seconds :: int
  webhook_hmac_algorithm :: string
  webhook_request_timeout_seconds :: int

text \<open>The defaults; the three URLs have none.\<close>

definition default_settings :: "string \<Rightarrow> string \<Rightarrow> string \<Rightarrow> settings" where
  "default_settings db_url amqp_url r_url =
     \<lparr>service_name = ''vcs-gateway'', environment = Local, log_level = ''INFO'', port = 8000,
      database_url = db_url, database_schema = ''vcs_gateway_schema'',
      db_pool_min = 2, db_pool_max = 10, db_command_timeout = 30,
      rabbitmq_url = amqp_url, rabbitmq_prefetch_count = 10,
      redis_url = r_url, redis_pool_max = 20,
      outbox_poll_interval_seconds = 1, outbox_batch_size = 50,
      otel_enabled = True, otel_exporter_otlp_endpoint = ''http://localhost:4317'',
      otel_service_version = ''0.1.0'', otel_sample_rate = 1,
      rabbitmq_exchange_webhook = ''vcs.webhook.received'',
      rabbitmq_exchange_journey = ''journey.events'',
      redis_idempotency_ttl_seconds = 259200, outbox_debounce_seconds = 30,
      webhook_hmac_algorithm = ''sha256'', webhook_request_timeout_seconds = 5\<rparr>"

section \<open>Third-party operations\<close>

record platform =
  json_loads :: "bytes \<Rightarrow> json option"
  json_dumps :: "json \<Rightarrow> string"
  pyd_parse :: "bytes \<Rightarrow> json option"
  pyd_int :: "json \<Rightarrow> int option"
  pyd_str :: "json \<Rightarrow> string option"
  pyd_dict :: "json \<Rightarrow> pydict option"
  py_repr :: "json \<Rightarrow> string"
  iso_utc :: "time \<Rightarrow> string"
  exc_text :: "exn \<Rightarrow> string"
  jsonb_codec :: bool
    \<comment> \<open>whether the pool's connections convert \<open>dict\<close> arguments and results of JSONB columns;
      asyncpg's default is text on both sides\<close>

section \<open>The world\<close>

datatype fault = NoFault | Fault (applied: bool) (cancelled: bool)

record broker_message =
  bm_exchange :: string
  bm_routing_key :: string
  bm_body :: json
  bm_content_type :: string
  bm_headers :: pydict

datatype row_write =
    MarkDispatched time
  | MarkFailed string
  | MarkRetry string time

record tx =
  tx_now :: time
  tx_locks :: "uuid list"
  tx_writes :: "(uuid \<times> row_write) list"
  tx_aborted :: bool

text \<open>An open AMQP channel is a number; an exchange handle belongs to a channel.\<close>

record publisher_state =
  ps_channel :: "nat option"
  ps_exchange :: "(nat \<times> string) option"

record world =
  w_tenants :: "tenant_row list"
  w_customers :: "customer_row list"
  w_whitelist :: "whitelist_entry list"
  w_vcs_configs :: "vcs_config_row list"
  w_inbound :: "inbound_event list"
  w_outbox :: "outbox_event list"
  w_txs :: "(nat \<times> tx) list"
  w_db_clock :: time
  w_db_faults :: "nat \<Rightarrow> fault"
  w_db_calls :: nat
  w_redis :: "string \<rightharpoonup> string \<times> time"
  w_redis_clock :: time
  w_redis_faults :: "nat \<Rightarrow> fault"
  w_redis_calls :: nat
  w_published :: "broker_message list"
  w_open_channels :: "nat list"
  w_next_channel :: nat
  w_amqp_faults :: "nat \<Rightarrow> fault"
  w_amqp_calls :: nat
  w_sleeps :: nat
  w_sleep_cancelled :: "nat \<Rightarrow> bool"
  w_app_clock :: time
  w_uuid_source :: "nat \<Rightarrow> uuid"
  w_uuids_drawn :: nat
  w_publishers :: "nat \<Rightarrow> publisher_state"

type_synonym 'a io = "(exn, world, 'a) prog"
type_synonym 'a stmt = "world \<Rightarrow> (exn + 'a) \<times> world"

section \<open>Calls\<close>

text \<open>
  One call with outcome decided by \<open>flt\<close>: served, or failed with error \<open>e\<close> (or a
  cancellation) after or before the server applied it.
\<close>

definition served :: "fault \<Rightarrow> exn \<Rightarrow> 'a stmt \<Rightarrow> 'a stmt" where
  "served flt e f w =
     (case flt of
        NoFault \<Rightarrow> f w
      | Fault ap ca \<Rightarrow> (Inl (if ca then Cancelled else e), if ap then snd (f w) else w))"

definition db_call :: "'a stmt \<Rightarrow> 'a stmt" where
  "db_call f w =
     served (w_db_faults w (w_db_calls w)) (PostgresError ''connection'') f
       (w\<lparr>w_db_calls := Suc (w_db_calls w)\<rparr>)"

definition redis_call :: "'a stmt \<Rightarrow> 'a stmt" where
  "redis_call f w =
     served (w_redis_faults w (w_redis_calls w)) RedisFailure f
       (w\<lparr>w_redis_calls := Suc (w_redis_calls w)\<rparr>)"

definition amqp_call :: "'a stmt \<Rightarrow> 'a stmt" where
  "amqp_call f w =
     served (w_amqp_faults w (w_amqp_calls w)) AmqpError f
       (w\<lparr>w_amqp_calls := Suc (w_amqp_calls w)\<rparr>)"

text \<open>\<open>uuid4()\<close>, the application's clock, and a query that only reads.\<close>

definition uuid4 :: "uuid io" where
  "uuid4 = atomic (\<lambda>w. (Inr (w_uuid_source w (w_uuids_drawn w)),
                        w\<lparr>w_uuids_drawn := Suc (w_uuids_drawn w)\<rparr>))"

definition utc_now :: "time io" where
  "utc_now = atomic (\<lambda>w. (Inr (w_app_clock w), w))"

definition query :: "(world \<Rightarrow> 'a) \<Rightarrow> 'a io" where
  "query q = atomic (db_call (\<lambda>w. (Inr (q w), w)))"

section \<open>Lemmas\<close>

lemma served_NoFault [simp]: "served NoFault e f w = f w"
  by (simp add: served_def)

lemma served_Fault [simp]:
  "served (Fault ap ca) e f w = (Inl (if ca then Cancelled else e), if ap then snd (f w) else w)"
  by (simp add: served_def)

lemma served_cases:
  "snd (served flt e f w) = w \<or> snd (served flt e f w) = snd (f w)"
  by (cases flt) auto

lemma served_Inr: "fst (served flt e f w) = Inr a \<Longrightarrow> served flt e f w = f w"
  by (cases flt) auto

lemma run_uuid4 [run_simps, simp]:
  "run uuid4 w = (Inr (w_uuid_source w (w_uuids_drawn w)), w\<lparr>w_uuids_drawn := Suc (w_uuids_drawn w)\<rparr>)"
  by (simp add: uuid4_def)

lemma run_utc_now [run_simps, simp]: "run utc_now w = (Inr (w_app_clock w), w)"
  by (simp add: utc_now_def)

end
