(* ===== verification/Redis_Client.thy ===== *)
theory Redis_Client
  imports World
begin

text \<open>
  \<open>src/vcs_gateway/redis/client.py\<close>: the idempotency cache and the tenant cache. Redis
  itself is a map from keys to a value and its expiry time; a key whose time has passed is
  absent. The locale \<open>expiring_cache\<close> is the contract the clients use.
\<close>

section \<open>The server\<close>

definition redis_lookup :: "world \<Rightarrow> string \<Rightarrow> string option" where
  "redis_lookup w k =
     (case w_redis w k of None \<Rightarrow> None
      | Some (v, expiry) \<Rightarrow> if w_redis_clock w < expiry then Some v else None)"

definition redis_store :: "string \<Rightarrow> int \<Rightarrow> string \<Rightarrow> world \<Rightarrow> world" where
  "redis_store k ttl v w = w\<lparr>w_redis := (w_redis w)(k \<mapsto> (v, w_redis_clock w + seconds ttl))\<rparr>"

definition redis_advance :: "time \<Rightarrow> world \<Rightarrow> world" where
  "redis_advance d w = w\<lparr>w_redis_clock := w_redis_clock w + d\<rparr>"

text \<open>\<open>GET\<close>, \<open>SETEX\<close> (which rejects a time to live that is not positive) and \<open>PING\<close>.\<close>

definition redis_get :: "string \<Rightarrow> string option io" where
  "redis_get k = atomic (redis_call (\<lambda>w. (Inr (redis_lookup w k), w)))"

definition redis_setex :: "string \<Rightarrow> int \<Rightarrow> string \<Rightarrow> unit io" where
  "redis_setex k ttl v = atomic (redis_call (\<lambda>w.
     if ttl \<le> 0 then (Inl RedisFailure, w) else (Inr (), redis_store k ttl v w)))"

definition redis_ping :: "bool io" where
  "redis_ping = atomic (redis_call (\<lambda>w. (Inr True, w)))"

section \<open>The client functions\<close>

definition idempotency_key :: "string \<Rightarrow> string" where
  "idempotency_key h = ''idempotency:'' @ h"

definition tenant_key :: "uuid \<Rightarrow> string" where
  "tenant_key t = ''tenant:config:'' @ uuid_str t"

text \<open>\<open>contextlib.suppress(Exception)\<close>.\<close>

definition suppress :: "unit io \<Rightarrow> unit io" where
  "suppress p = except_exception p (\<lambda>_. ret ())"

definition check_redis_health :: "bool io" where
  "check_redis_health = except_exception redis_ping (\<lambda>_. ret False)"

definition get_idempotency_cache :: "string \<Rightarrow> string option io" where
  "get_idempotency_cache h = except_exception (redis_get (idempotency_key h)) (\<lambda>_. ret None)"

text \<open>The JSON document \<open>null\<close> is Python's \<open>None\<close>.\<close>

definition none_if_null :: "json \<Rightarrow> json option" where
  "none_if_null j = (if j = JNull then None else Some j)"

definition get_tenant_cache :: "platform \<Rightarrow> uuid \<Rightarrow> json option io" where
  "get_tenant_cache pf t = except_exception
     (and_then (redis_get (tenant_key t)) (\<lambda>raw. case raw of
        None \<Rightarrow> ret None
      | Some s \<Rightarrow> (case json_loads pf (encode s) of
            None \<Rightarrow> throw JSONDecodeError
          | Some result \<Rightarrow> ret (none_if_null result))))
     (\<lambda>_. ret None)"

definition set_tenant_cache :: "platform \<Rightarrow> uuid \<Rightarrow> json \<Rightarrow> int \<Rightarrow> unit io" where
  "set_tenant_cache pf t tenant_data ttl_seconds =
     suppress (redis_setex (tenant_key t) ttl_seconds (json_dumps pf tenant_data))"

definition set_idempotency_cache :: "string \<Rightarrow> int \<Rightarrow> unit io" where
  "set_idempotency_cache h ttl_seconds = suppress (redis_setex (idempotency_key h) ttl_seconds ''1'')"

text \<open>
  \<open>int(text)\<close> for ASCII text: surrounding white space, a sign, digits with single
  underscores between them.
\<close>

definition is_space :: "char \<Rightarrow> bool" where
  "is_space c \<longleftrightarrow> (of_char c :: nat) \<in> {9, 10, 11, 12, 13, 28, 29, 30, 31, 32}"

definition strip :: "string \<Rightarrow> string" where
  "strip s = rev (dropWhile is_space (rev (dropWhile is_space s)))"

fun parse_digits :: "nat \<Rightarrow> string \<Rightarrow> nat option" where
  "parse_digits acc [] = Some acc"
| "parse_digits acc (c # cs) =
     (if is_digit_char c then parse_digits (acc * 10 + (of_char c - 48)) cs
      else if c = CHR ''_'' \<and> cs \<noteq> [] \<and> is_digit_char (hd cs) then parse_digits acc cs
      else None)"

definition parse_nat :: "string \<Rightarrow> nat option" where
  "parse_nat s = (if s \<noteq> [] \<and> is_digit_char (hd s) then parse_digits 0 s else None)"

definition py_int :: "string \<Rightarrow> int option" where
  "py_int s = (case strip s of
       [] \<Rightarrow> None
     | c # cs \<Rightarrow>
         if c = CHR ''-'' then map_option (\<lambda>n. - int n) (parse_nat cs)
         else if c = CHR ''+'' then map_option int (parse_nat cs)
         else map_option int (parse_nat (c # cs)))"

definition is_stale :: "platform \<Rightarrow> pydict option \<Rightarrow> int \<Rightarrow> exn + bool" where
  "is_stale pf cached_entry current_pr_version =
     (case cached_entry of
        None \<Rightarrow> Inr False
      | Some d \<Rightarrow> (case Option.bind (dict_get d ''pr_version'') none_if_null of
            None \<Rightarrow> Inr False
          | Some v \<Rightarrow> (case py_int (py_str (py_repr pf) v) of
                None \<Rightarrow> Inl (ValueError ''invalid literal for int()'')
              | Some n \<Rightarrow> Inr (n \<noteq> current_pr_version))))"

section \<open>The contract of a cache with expiry\<close>

locale expiring_cache =
  fixes look :: "'s \<Rightarrow> string \<Rightarrow> string option"
    and store :: "string \<Rightarrow> int \<Rightarrow> string \<Rightarrow> 's \<Rightarrow> 's"
    and advance :: "time \<Rightarrow> 's \<Rightarrow> 's"
  assumes look_store_advance:
      "0 \<le> d \<Longrightarrow> look (advance d (store k ttl v s)) k = (if d < seconds ttl then Some v else None)"
    and look_store_other: "k' \<noteq> k \<Longrightarrow> look (store k ttl v s) k' = look s k'"
    and advance_zero: "advance 0 s = s"
    and advance_add: "advance d (advance e s) = advance (e + d) s"
begin

lemma look_store: "0 < ttl \<Longrightarrow> look (store k ttl v s) k = Some v"
  using look_store_advance [of 0 k ttl v s] by (simp add: advance_zero seconds_def)

lemma expires: "seconds ttl \<le> d \<Longrightarrow> 0 \<le> ttl \<Longrightarrow> look (advance d (store k ttl v s)) k = None"
  by (subst look_store_advance) (auto simp: seconds_def)

lemma stays: "0 \<le> d \<Longrightarrow> d < seconds ttl \<Longrightarrow> look (advance d (store k ttl v s)) k = Some v"
  by (simp add: look_store_advance)

lemma overwrite: "0 < ttl \<Longrightarrow> look (store k ttl v (store k ttl' v' s)) k = Some v"
  by (rule look_store)

end

interpretation redis: expiring_cache redis_lookup redis_store redis_advance
  by unfold_locales
    (auto simp: redis_lookup_def redis_store_def redis_advance_def ac_simps
       split: option.splits prod.splits)

section \<open>Lemmas\<close>

lemma keys_disjoint: "idempotency_key h \<noteq> tenant_key t"
  by (simp add: idempotency_key_def tenant_key_def)

lemma idempotency_key_inject [simp]: "idempotency_key h = idempotency_key h' \<longleftrightarrow> h = h'"
  by (simp add: idempotency_key_def)

lemma tenant_key_inject [simp]: "tenant_key t = tenant_key t' \<longleftrightarrow> t = t'"
  by (simp add: tenant_key_def uuid_str_inject)

lemma parse_digits_append:
  "list_all is_digit_char s \<Longrightarrow> list_all is_digit_char t \<Longrightarrow>
   parse_digits acc (s @ t) = Option.bind (parse_digits acc s) (\<lambda>n. parse_digits n t)"
  by (induction s arbitrary: acc) auto

lemma parse_digits_dec_nat: "parse_digits 0 (dec_nat n) = Some n"
proof (induction n rule: dec_nat.induct)
  case (1 n)
  have digit: "is_digit_char (digit k)" "parse_digits acc [digit k] = Some (acc * 10 + k)"
    if "k < 10" for k acc
    using that by (simp_all add: is_digit_char_def of_char_digit)
  show ?case
  proof (cases "n < 10")
    case True
    then show ?thesis using digit(2) [of n 0] by (simp add: dec_nat.simps [of n])
  next
    case False
    then show ?thesis
      using 1 digit(1) [of "n mod 10"] digit(2) [of "n mod 10" "n div 10"] dec_nat_digits [of "n div 10"]
      by (simp add: dec_nat.simps [of n] parse_digits_append del: parse_digits.simps)
  qed
qed

lemma digit_not_space: "is_digit_char c \<Longrightarrow> \<not> is_space c"
  by (auto simp: is_digit_char_def is_space_def)

lemma dec_nat_nonempty: "dec_nat n \<noteq> []"
  by (subst dec_nat.simps) simp

lemma strip_id:
  assumes "s \<noteq> []" and "\<not> is_space (hd s)" and "\<not> is_space (last s)"
  shows "strip s = s"
proof -
  have "dropWhile is_space s = s" using assms by (cases s) auto
  moreover have "dropWhile is_space (rev s) = rev s" using assms by (cases s rule: rev_cases) auto
  ultimately show ?thesis by (simp add: strip_def)
qed

lemma parse_nat_dec_nat: "parse_nat (dec_nat n) = Some n"
  using dec_nat_digits [of n] dec_nat_nonempty [of n] parse_digits_dec_nat [of n]
  by (cases "dec_nat n") (auto simp: parse_nat_def)

lemma last_dec_nat: "is_digit_char (last (dec_nat n))" and hd_dec_nat: "is_digit_char (hd (dec_nat n))"
  using dec_nat_digits [of n] dec_nat_nonempty [of n] by (auto simp: list_all_iff)

text \<open>\<open>int(str(i)) == i\<close>.\<close>

lemma py_int_py_str_int: "py_int (py_str_int i) = Some i"
proof (cases "i < 0")
  case True
  have "strip (CHR ''-'' # dec_nat (nat (- i))) = CHR ''-'' # dec_nat (nat (- i))"
    using digit_not_space [OF last_dec_nat] dec_nat_nonempty
    by (intro strip_id) (auto simp: is_space_def)
  then show ?thesis
    using True by (simp add: py_int_def py_str_int_def parse_nat_dec_nat)
next
  case False
  let ?s = "dec_nat (nat i)"
  obtain c cs where s: "?s = c # cs" using dec_nat_nonempty [of "nat i"] by (cases ?s) auto
  have "is_digit_char c" using hd_dec_nat [of "nat i"] s by simp
  then have "c \<noteq> CHR ''-''" "c \<noteq> CHR ''+''" by (auto simp: is_digit_char_def)
  moreover have "strip ?s = ?s"
    using digit_not_space [OF last_dec_nat] digit_not_space [OF hd_dec_nat] dec_nat_nonempty
    by (intro strip_id)
  ultimately show ?thesis
    using False s parse_nat_dec_nat [of "nat i"] by (simp add: py_int_def py_str_int_def)
qed

end
