(* ===== verification/Publisher.thy ===== *)
theory Publisher
  imports World
begin

text \<open>
  \<open>src/vcs_gateway/models/events.py\<close> (queue messages) and
  \<open>src/vcs_gateway/queue/publisher.py\<close> (direct publishing), over the AMQP operations that
  the code calls: open a channel, look an exchange up, publish, close. Publishing through a
  handle whose channel is no longer open fails.
\<close>

section \<open>AMQP operations\<close>

definition open_channel :: "nat io" where
  "open_channel = atomic (amqp_call (\<lambda>w.
     (Inr (w_next_channel w),
      w\<lparr>w_open_channels := w_next_channel w # w_open_channels w,
        w_next_channel := Suc (w_next_channel w)\<rparr>)))"

definition get_exchange :: "nat \<Rightarrow> string \<Rightarrow> (nat \<times> string) io" where
  "get_exchange ch name = atomic (amqp_call (\<lambda>w.
     (if ch \<in> set (w_open_channels w) then Inr (ch, name) else Inl AmqpError, w)))"

definition exchange_publish :: "nat \<times> string \<Rightarrow> string \<Rightarrow> json \<Rightarrow> pydict \<Rightarrow> unit io" where
  "exchange_publish x routing_key body headers = atomic (amqp_call (\<lambda>w.
     if fst x \<in> set (w_open_channels w)
     then (Inr (), w\<lparr>w_published := w_published w @
            [\<lparr>bm_exchange = snd x, bm_routing_key = routing_key, bm_body = body,
              bm_content_type = ''application/json'', bm_headers = headers\<rparr>]\<rparr>)
     else (Inl AmqpError, w)))"

definition close_channel :: "nat \<Rightarrow> unit io" where
  "close_channel ch = atomic (amqp_call (\<lambda>w.
     (Inr (), w\<lparr>w_open_channels := removeAll ch (w_open_channels w)\<rparr>)))"

section \<open>BasePublisher\<close>

definition publish :: "string \<Rightarrow> string \<Rightarrow> json \<Rightarrow> string \<Rightarrow> unit io" where
  "publish exchange_name routing_key payload correlation_id =
     and_then open_channel (\<lambda>channel.
       finally_do
         (and_then (get_exchange channel exchange_name) (\<lambda>exchange.
            exchange_publish exchange routing_key payload [(''correlation_id'', JStr correlation_id)]))
         (close_channel channel))"

section \<open>Messages\<close>

datatype journey_step_type =
    webhook_received
  | signature_verified
  | event_type_validated
  | idempotency_checked
  | event_persisted
  | outbox_scheduled

fun step_type_value :: "journey_step_type \<Rightarrow> string" where
  "step_type_value webhook_received = ''webhook_received''"
| "step_type_value signature_verified = ''signature_verified''"
| "step_type_value event_type_validated = ''event_type_validated''"
| "step_type_value idempotency_checked = ''idempotency_checked''"
| "step_type_value event_persisted = ''event_persisted''"
| "step_type_value outbox_scheduled = ''outbox_scheduled''"

datatype journey_step_status = in_progress | completed | failed | info

fun status_value :: "journey_step_status \<Rightarrow> string" where
  "status_value in_progress = ''in_progress''"
| "status_value completed = ''completed''"
| "status_value failed = ''failed''"
| "status_value info = ''info''"

record base_message =
  ev_event_id :: uuid
  ev_event_type :: string
  ev_correlation_id :: uuid
  ev_tenant_id :: uuid
  ev_timestamp :: time

record journey_step_event = base_message +
  js_service_name :: string
  js_step_type :: journey_step_type
  js_status :: journey_step_status
  js_pr_hash_key :: "string option"
  js_pr_id :: "string option"
  js_repo_id :: "string option"
  js_metadata :: pydict

record webhook_received_message = base_message +
  wr_vcs_provider :: string
  wr_vcs_instance_id :: string
  wr_repo_id :: string
  wr_repo_name :: "string option"
  wr_pr_id :: string
  wr_pr_title :: "string option"
  wr_pr_author :: "string option"
  wr_pr_url :: "string option"
  wr_commit_sha :: string
  wr_pr_action :: string
  wr_pr_hash_key :: string
  wr_pr_version :: int
  wr_raw_payload :: json

text \<open>\<open>model_dump(mode="json")\<close>: the fields in order, UUIDs and times as text.\<close>

definition opt_str :: "string option \<Rightarrow> json" where
  "opt_str x = (case x of None \<Rightarrow> JNull | Some s \<Rightarrow> JStr s)"

definition dump_base :: "platform \<Rightarrow> 'a base_message_scheme \<Rightarrow> pydict" where
  "dump_base pf m =
     [(''event_id'', JStr (uuid_str (ev_event_id m))),
      (''event_type'', JStr (ev_event_type m)),
      (''correlation_id'', JStr (uuid_str (ev_correlation_id m))),
      (''tenant_id'', JStr (uuid_str (ev_tenant_id m))),
      (''timestamp'', JStr (iso_utc pf (ev_timestamp m)))]"

definition dump_journey_step :: "platform \<Rightarrow> journey_step_event \<Rightarrow> json" where
  "dump_journey_step pf m = JObj (dump_base pf m @
     [(''service_name'', JStr (js_service_name m)),
      (''step_type'', JStr (step_type_value (js_step_type m))),
      (''status'', JStr (status_value (js_status m))),
      (''pr_hash_key'', opt_str (js_pr_hash_key m)),
      (''pr_id'', opt_str (js_pr_id m)),
      (''repo_id'', opt_str (js_repo_id m)),
      (''metadata'', JObj (js_metadata m))])"

definition dump_webhook_received :: "platform \<Rightarrow> webhook_received_message \<Rightarrow> json" where
  "dump_webhook_received pf m = JObj (dump_base pf m @
     [(''vcs_provider'', JStr (wr_vcs_provider m)),
      (''vcs_instance_id'', JStr (wr_vcs_instance_id m)),
      (''repo_id'', JStr (wr_repo_id m)),
      (''repo_name'', opt_str (wr_repo_name m)),
      (''pr_id'', JStr (wr_pr_id m)),
      (''pr_title'', opt_str (wr_pr_title m)),
      (''pr_author'', opt_str (wr_pr_author m)),
      (''pr_url'', opt_str (wr_pr_url m)),
      (''commit_sha'', JStr (wr_commit_sha m)),
      (''pr_action'', JStr (wr_pr_action m)),
      (''pr_hash_key'', JStr (wr_pr_hash_key m)),
      (''pr_version'', JInt (wr_pr_version m)),
      (''raw_payload'', wr_raw_payload m)])"

end
