(* ===== verification/Evolution.thy ===== *)
theory Evolution
  imports Redis_Client Publisher
begin

text \<open>
  How the shared state may evolve. \<open>Inv\<close> is the invariant of the whole service: the unique
  indexes of the tables, the one-to-one correspondence of accepted webhooks and outbox rows,
  the life cycle of outbox rows, the row locks of open dispatch transactions, the coherence
  of the idempotency cache, the origin of published messages and the publication of
  every dispatched row. \<open>rely\<close> and \<open>guarantee\<close>
  are the steps of a task's surroundings and of the task itself; a task is a webhook request
  (\<open>Web n\<close>) or the outbox publisher of a replica (\<open>Pub p\<close>), which alone owns its
  transaction, the rows it has locked and its channel.
\<close>

section \<open>Views of the world\<close>

definition hash_keys :: "world \<Rightarrow> string set" where
  "hash_keys w = ie_pr_hash_key ` set (w_inbound w)"

definition tx_of :: "world \<Rightarrow> nat \<Rightarrow> tx option" where
  "tx_of w p = map_of (w_txs w) p"

definition locked_ids :: "world \<Rightarrow> uuid list" where
  "locked_ids w = concat (map (tx_locks \<circ> snd) (w_txs w))"

definition row_of :: "world \<Rightarrow> uuid \<Rightarrow> outbox_event option" where
  "row_of w i = find (\<lambda>r. oe_outbox_id r = i) (w_outbox w)"

section \<open>The invariant\<close>

definition message_field :: "string \<Rightarrow> json \<Rightarrow> json option" where
  "message_field k j = (case j of JObj d \<Rightarrow> dict_get d k | _ \<Rightarrow> None)"

text \<open>A message that carries the ids, the key and the document of a stored webhook.\<close>

definition describes :: "json \<Rightarrow> inbound_event \<Rightarrow> bool" where
  "describes j i \<longleftrightarrow>
     message_field ''event_id'' j = Some (JStr (uuid_str (ie_event_id i))) \<and>
     message_field ''correlation_id'' j = Some (JStr (uuid_str (ie_correlation_id i))) \<and>
     message_field ''tenant_id'' j = Some (JStr (uuid_str (ie_tenant_id i))) \<and>
     message_field ''pr_hash_key'' j = Some (JStr (ie_pr_hash_key i)) \<and>
     message_field ''raw_payload'' j = Some (ie_raw_payload i)"

text \<open>An accepted webhook and the outbox row scheduled for it.\<close>

definition paired :: "inbound_event \<Rightarrow> outbox_event \<Rightarrow> bool" where
  "paired i r \<longleftrightarrow>
     oe_correlation_id r = ie_correlation_id i \<and> oe_pr_hash_key r = Some (ie_pr_hash_key i) \<and>
     oe_pr_version r = Some (ie_pr_version i) \<and>
     describes (oe_payload r) i"

definition inbound_ok :: "inbound_event \<Rightarrow> bool" where
  "inbound_ok i \<longleftrightarrow> ie_pr_version i = 1 \<and> ie_processing_status i = ''accepted'' \<and>
     (\<exists>d. ie_raw_payload i = JObj d) \<and>
     (\<exists>d. ie_webhook_headers i = Some (JObj d) \<and> ''X-Gitlab-Token'' \<notin> fst ` set d)"

definition outbox_ok :: "outbox_event \<Rightarrow> bool" where
  "outbox_ok r \<longleftrightarrow> oe_max_retries r = 3 \<and> 0 \<le> oe_retry_count r \<and>
     oe_event_type r = ''vcs.webhook.received'' \<and>
     oe_headers r = JObj [(''correlation_id'', JStr (uuid_str (oe_correlation_id r)))] \<and>
     (case oe_status r of
        SCHEDULED \<Rightarrow> oe_retry_count r \<le> 2 \<and> oe_published_at r = None
      | DISPATCHED \<Rightarrow> oe_retry_count r \<le> 2 \<and> oe_published_at r \<noteq> None
      | FAILED \<Rightarrow> oe_retry_count r = 3 \<and> oe_published_at r = None \<and> oe_next_retry_at r = None
      | CANCELLED \<Rightarrow> False)"

definition tables_ok :: "world \<Rightarrow> bool" where
  "tables_ok w \<longleftrightarrow>
     distinct (map ie_pr_hash_key (w_inbound w)) \<and> distinct (map ie_event_id (w_inbound w)) \<and>
     distinct (map ie_correlation_id (w_inbound w)) \<and> distinct (map oe_outbox_id (w_outbox w)) \<and>
     list_all2 paired (w_inbound w) (w_outbox w) \<and>
     list_all inbound_ok (w_inbound w) \<and> list_all outbox_ok (w_outbox w)"

definition cache_ok :: "world \<Rightarrow> bool" where
  "cache_ok w \<longleftrightarrow> (\<forall>h. w_redis w (idempotency_key h) \<noteq> None \<longrightarrow> h \<in> hash_keys w)"

definition message_ok :: "world \<Rightarrow> broker_message \<Rightarrow> bool" where
  "message_ok w m \<longleftrightarrow> bm_routing_key m = ''journey.step.created'' \<or>
     (\<exists>r \<in> set (w_outbox w). bm_routing_key m = oe_event_type r \<and> bm_body m = oe_payload r)"

text \<open>The message of an outbox row is among the messages the broker has taken.\<close>

definition on_broker :: "broker_message list \<Rightarrow> outbox_event \<Rightarrow> bool" where
  "on_broker ms r \<longleftrightarrow> (\<exists>m \<in> set ms. bm_routing_key m = oe_event_type r \<and> bm_body m = oe_payload r \<and>
     JObj (bm_headers m) = oe_headers r)"

definition sent_ok :: "world \<Rightarrow> bool" where
  "sent_ok w \<longleftrightarrow> (\<forall>r \<in> set (w_outbox w). oe_status r = DISPATCHED \<longrightarrow> on_broker (w_published w) r)"

fun write_ok :: "broker_message list \<Rightarrow> row_write \<Rightarrow> outbox_event \<Rightarrow> bool" where
  "write_ok ms (MarkDispatched t) r = on_broker ms r"
| "write_ok ms (MarkFailed msg) r = (oe_max_retries r \<le> oe_retry_count r + 1)"
| "write_ok ms (MarkRetry msg t) r = (oe_retry_count r + 1 < oe_max_retries r)"

definition tx_ok :: "world \<Rightarrow> tx \<Rightarrow> bool" where
  "tx_ok w x \<longleftrightarrow> distinct (map fst (tx_writes x)) \<and> fst ` set (tx_writes x) \<subseteq> set (tx_locks x) \<and>
     (\<forall>i \<in> set (tx_locks x). \<exists>r \<in> set (w_outbox w). oe_outbox_id r = i \<and> oe_status r = SCHEDULED) \<and>
     (\<forall>(i, wr) \<in> set (tx_writes x). \<forall>r \<in> set (w_outbox w). oe_outbox_id r = i \<longrightarrow> write_ok (w_published w) wr r)"

definition txs_ok :: "world \<Rightarrow> bool" where
  "txs_ok w \<longleftrightarrow> distinct (map fst (w_txs w)) \<and> distinct (locked_ids w) \<and>
     (\<forall>x \<in> snd ` set (w_txs w). tx_ok w x)"

definition Inv :: "world \<Rightarrow> bool" where
  "Inv w \<longleftrightarrow> tables_ok w \<and> cache_ok w \<and> txs_ok w \<and> sent_ok w \<and>
     list_all (message_ok w) (w_published w)"

section \<open>Steps\<close>

text \<open>
  The life of an outbox row: only a scheduled row changes, it keeps its identity and content,
  and its retry count never falls.
\<close>

definition progress :: "outbox_event \<Rightarrow> outbox_event \<Rightarrow> bool" where
  "progress r r' \<longleftrightarrow>
     oe_outbox_id r' = oe_outbox_id r \<and> oe_event_type r' = oe_event_type r \<and>
     oe_correlation_id r' = oe_correlation_id r \<and> oe_pr_hash_key r' = oe_pr_hash_key r \<and>
     oe_pr_version r' = oe_pr_version r \<and> oe_payload r' = oe_payload r \<and>
     oe_headers r' = oe_headers r \<and> oe_max_retries r' = oe_max_retries r \<and>
     oe_retry_count r \<le> oe_retry_count r' \<and> (oe_status r \<noteq> SCHEDULED \<longrightarrow> r' = r)"

definition grows :: "world \<Rightarrow> world \<Rightarrow> bool" where
  "grows w w' \<longleftrightarrow>
     set (w_inbound w) \<subseteq> set (w_inbound w') \<and>
     (\<forall>r \<in> set (w_outbox w). \<exists>r' \<in> set (w_outbox w'). progress r r') \<and>
     (\<exists>ms. w_published w' = w_published w @ ms) \<and>
     w_uuid_source w' = w_uuid_source w \<and> w_uuids_drawn w \<le> w_uuids_drawn w'"

definition frame :: "nat \<Rightarrow> world \<Rightarrow> world \<Rightarrow> bool" where
  "frame p w w' \<longleftrightarrow> tx_of w' p = tx_of w p \<and> w_publishers w' p = w_publishers w p \<and>
     (\<forall>x. tx_of w p = Some x \<longrightarrow> (\<forall>i \<in> set (tx_locks x). row_of w' i = row_of w i))"

datatype actor = Web nat | Pub nat

definition rely :: "actor \<Rightarrow> world \<Rightarrow> world \<Rightarrow> bool" where
  "rely a w w' \<longleftrightarrow> (Inv w \<longrightarrow> Inv w' \<and> grows w w' \<and> (\<forall>p. a = Pub p \<longrightarrow> frame p w w'))"

definition guarantee :: "actor \<Rightarrow> world \<Rightarrow> world \<Rightarrow> bool" where
  "guarantee a w w' \<longleftrightarrow> (Inv w \<longrightarrow> Inv w' \<and> grows w w' \<and> (\<forall>p. a \<noteq> Pub p \<longrightarrow> frame p w w'))"

lemma progress_refl [simp]: "progress r r"
  by (simp add: progress_def)

lemma progress_trans: "progress r s \<Longrightarrow> progress s t \<Longrightarrow> progress r t"
  by (auto simp: progress_def)

lemma progress_self: "\<forall>r \<in> set rs. \<exists>r' \<in> set rs. progress r r'"
  by (blast intro: progress_refl)

lemma grows_refl [simp]: "grows w w"
  using progress_self by (simp add: grows_def)

lemma grows_trans:
  assumes "grows u v" and "grows v w"
  shows "grows u w"
proof -
  have "\<exists>r'' \<in> set (w_outbox w). progress r r''" if "r \<in> set (w_outbox u)" for r
    using that assms unfolding grows_def by (meson progress_trans)
  then show ?thesis using assms by (auto simp: grows_def)
qed

lemma frame_refl [simp]: "frame p w w"
  by (simp add: frame_def)

lemma frame_trans: "frame p u v \<Longrightarrow> frame p v w \<Longrightarrow> frame p u w"
  by (simp add: frame_def)

interpretation interference rely guarantee
proof unfold_locales
  show "rely i w w" for i w by (simp add: rely_def)
  show "rely i u v \<Longrightarrow> rely i v w \<Longrightarrow> rely i u w" for i u v w
    unfolding rely_def using grows_trans frame_trans by blast
  show "i \<noteq> j \<Longrightarrow> guarantee i w w' \<Longrightarrow> rely j w w'" for i j w w'
    by (auto simp: rely_def guarantee_def)
qed

text \<open>Steps that leave the tables, transactions, broker log and publishers alone.\<close>

definition quiet :: "world \<Rightarrow> world \<Rightarrow> bool" where
  "quiet w w' \<longleftrightarrow>
     w_inbound w' = w_inbound w \<and> w_outbox w' = w_outbox w \<and> w_txs w' = w_txs w \<and>
     w_published w' = w_published w \<and> w_publishers w' = w_publishers w \<and>
     (\<forall>h. w_redis w' (idempotency_key h) \<noteq> None \<longrightarrow> w_redis w (idempotency_key h) \<noteq> None) \<and>
     w_uuid_source w' = w_uuid_source w \<and> w_uuids_drawn w \<le> w_uuids_drawn w'"

lemma quiet_refl [simp]: "quiet w w"
  by (simp add: quiet_def)

lemma quiet_step:
  assumes "quiet w w'" and "Inv w"
  shows "Inv w' \<and> grows w w' \<and> frame p w w'"
proof -
  have same: "hash_keys w' = hash_keys w" "locked_ids w' = locked_ids w"
    "tx_ok w' = tx_ok w" "message_ok w' = message_ok w" "tx_of w' = tx_of w" "row_of w' = row_of w"
    using assms(1)
    by (simp_all add: quiet_def hash_keys_def locked_ids_def tx_ok_def message_ok_def tx_of_def
          row_of_def fun_eq_iff)
  have "cache_ok w'"
    using assms unfolding Inv_def cache_ok_def same by (auto simp: quiet_def)
  moreover have "tables_ok w'" "txs_ok w'" "sent_ok w'" "list_all (message_ok w') (w_published w')"
    using assms unfolding Inv_def tables_ok_def txs_ok_def sent_ok_def same by (simp_all add: quiet_def)
  moreover have "grows w w'"
    using assms(1) progress_self by (simp add: quiet_def grows_def)
  moreover have "frame p w w'"
    using assms(1) same by (simp add: frame_def quiet_def)
  ultimately show ?thesis by (simp add: Inv_def)
qed

text \<open>Steps that any task may take at any time: allowed by every rely and every guarantee.\<close>

definition neutral :: "world \<Rightarrow> world \<Rightarrow> bool" where
  "neutral w w' \<longleftrightarrow> (Inv w \<longrightarrow> Inv w' \<and> grows w w' \<and> (\<forall>p. frame p w w'))"

lemma quiet_neutral: "quiet w w' \<Longrightarrow> neutral w w'"
  using quiet_step unfolding neutral_def by blast

lemma neutral_refl [simp]: "neutral w w"
  by (simp add: neutral_def)

lemma neutral_trans: "neutral u v \<Longrightarrow> neutral v w \<Longrightarrow> neutral u w"
  unfolding neutral_def using grows_trans frame_trans by blast

lemma neutral_rely: "neutral w w' \<Longrightarrow> rely a w w'"
  by (simp add: neutral_def rely_def)

lemma neutral_guarantee: "neutral w w' \<Longrightarrow> guarantee a w w'"
  by (simp add: neutral_def guarantee_def)

lemma guarantee_trans: "guarantee a u v \<Longrightarrow> guarantee a v w \<Longrightarrow> guarantee a u w"
  unfolding guarantee_def using grows_trans frame_trans by blast

lemma rely_Inv: "rely a w w' \<Longrightarrow> Inv w \<Longrightarrow> Inv w'"
  by (simp add: rely_def)

lemma rely_grows: "rely a w w' \<Longrightarrow> Inv w \<Longrightarrow> grows w w'"
  by (simp add: rely_def)

lemma grows_hash_keys: "grows w w' \<Longrightarrow> hash_keys w \<subseteq> hash_keys w'"
  by (auto simp: grows_def hash_keys_def)

section \<open>Specifications of programs\<close>

abbreviation spec :: "actor \<Rightarrow> 'a io \<Rightarrow> (exn + 'a \<Rightarrow> world \<Rightarrow> bool) \<Rightarrow> world \<Rightarrow> bool" where
  "spec a \<equiv> wp (rely a) (guarantee a)"

text \<open>Whatever a task does between two points keeps the invariant, and the world grows.\<close>

definition evolves :: "world \<Rightarrow> world \<Rightarrow> bool" where
  "evolves w w' \<longleftrightarrow> (Inv w \<longrightarrow> Inv w' \<and> grows w w')"

lemma spec_evolves:
  assumes "spec a p Q w"
  shows "spec a p (\<lambda>r w'. Q r w' \<and> evolves w w') w"
proof (rule wp_preorder [OF _ _ _ assms])
  show "evolves u v \<Longrightarrow> evolves v w' \<Longrightarrow> evolves u w'" for u v w'
    unfolding evolves_def using grows_trans by blast
qed (simp_all add: evolves_def rely_def guarantee_def)

text \<open>A call: what it does when served, and that nothing else happens when it is not.\<close>

lemma spec_served:
  assumes bump: "\<And>w. quiet w (b w)"
    and step: "\<And>w'. rely a w w' \<Longrightarrow> guarantee a w' (snd (f w'))"
    and ok: "\<And>w' w''. rely a w w' \<Longrightarrow> rely a (snd (f w')) w'' \<Longrightarrow> Q (fst (f w')) w''"
    and err: "\<And>x w' w''. rely a w w' \<Longrightarrow> rely a w' w'' \<Longrightarrow> Q (Inl x) w''"
    and lost: "\<And>x w' w''. rely a w w' \<Longrightarrow> rely a (snd (f w')) w'' \<Longrightarrow> Q (Inl x) w''"
  shows "spec a (atomic (\<lambda>w. served (flt w) e f (b w))) Q w"
proof (rule wp_atomic)
  fix w' assume w': "rely a w w'"
  have b: "neutral w' (b w')" by (rule quiet_neutral [OF bump])
  then have wb: "rely a w (b w')" using w' R_trans neutral_rely by blast
  have "guarantee a w' (snd (f (b w')))"
    by (rule guarantee_trans [OF neutral_guarantee [OF b] step [OF wb]])
  with b show "guarantee a w' (snd (served (flt w') e f (b w')))"
    using served_cases [of "flt w'" e f "b w'"] neutral_guarantee by auto
  fix w'' assume r: "rely a (snd (served (flt w') e f (b w'))) w''"
  show "Q (fst (served (flt w') e f (b w'))) w''"
  proof (cases "flt w'")
    case NoFault
    then show ?thesis using ok [OF wb] r by simp
  next
    case (Fault ap ca)
    then show ?thesis using err [OF wb] lost [OF wb] r by (cases ap) auto
  qed
qed

lemma bump_quiet [simp]:
  "quiet w (w\<lparr>w_db_calls := n\<rparr>)" "quiet w (w\<lparr>w_redis_calls := n\<rparr>)" "quiet w (w\<lparr>w_amqp_calls := n\<rparr>)"
  by (simp_all add: quiet_def)

lemma spec_db_call:
  assumes "\<And>w'. rely a w w' \<Longrightarrow> guarantee a w' (snd (f w'))"
    and "\<And>w' w''. rely a w w' \<Longrightarrow> rely a (snd (f w')) w'' \<Longrightarrow> Q (fst (f w')) w''"
    and "\<And>x w' w''. rely a w w' \<Longrightarrow> rely a w' w'' \<Longrightarrow> Q (Inl x) w''"
    and "\<And>x w' w''. rely a w w' \<Longrightarrow> rely a (snd (f w')) w'' \<Longrightarrow> Q (Inl x) w''"
  shows "spec a (atomic (db_call f)) Q w"
  unfolding db_call_def by (rule spec_served) (use assms in simp_all)

lemma spec_redis_call:
  assumes "\<And>w'. rely a w w' \<Longrightarrow> guarantee a w' (snd (f w'))"
    and "\<And>w' w''. rely a w w' \<Longrightarrow> rely a (snd (f w')) w'' \<Longrightarrow> Q (fst (f w')) w''"
    and "\<And>x w' w''. rely a w w' \<Longrightarrow> rely a w' w'' \<Longrightarrow> Q (Inl x) w''"
    and "\<And>x w' w''. rely a w w' \<Longrightarrow> rely a (snd (f w')) w'' \<Longrightarrow> Q (Inl x) w''"
  shows "spec a (atomic (redis_call f)) Q w"
  unfolding redis_call_def by (rule spec_served) (use assms in simp_all)

lemma spec_amqp_call:
  assumes "\<And>w'. rely a w w' \<Longrightarrow> guarantee a w' (snd (f w'))"
    and "\<And>w' w''. rely a w w' \<Longrightarrow> rely a (snd (f w')) w'' \<Longrightarrow> Q (fst (f w')) w''"
    and "\<And>x w' w''. rely a w w' \<Longrightarrow> rely a w' w'' \<Longrightarrow> Q (Inl x) w''"
    and "\<And>x w' w''. rely a w w' \<Longrightarrow> rely a (snd (f w')) w'' \<Longrightarrow> Q (Inl x) w''"
  shows "spec a (atomic (amqp_call f)) Q w"
  unfolding amqp_call_def by (rule spec_served) (use assms in simp_all)

text \<open>Programs all of whose actions are neutral, whatever their outcome.\<close>

definition harmless :: "'a io \<Rightarrow> bool" where
  "harmless p \<longleftrightarrow> (\<forall>a w. spec a p (\<lambda>_. rely a w) w)"

named_theorems harmless_intros \<open>introduction rules for harmless programs\<close>

lemma spec_harmless:
  assumes "harmless p" and "\<And>r w'. rely a w w' \<Longrightarrow> Q r w'"
  shows "spec a p Q w"
  by (rule wp_consequence [OF assms(1) [unfolded harmless_def, rule_format]]) (rule assms(2))

lemma harmless_Done [harmless_intros]: "harmless (Done r)"
  by (simp add: harmless_def wp_Done)

lemma harmless_atomic: "(\<And>w. neutral w (snd (f w))) \<Longrightarrow> harmless (atomic f)"
  unfolding harmless_def
  by (blast intro: wp_atomic neutral_guarantee R_trans neutral_rely)

lemma harmless_attempt [harmless_intros]:
  assumes "harmless p" and "\<And>r. harmless (h r)"
  shows "harmless (attempt p h)"
  unfolding harmless_def
proof (intro allI wp_attempt spec_harmless [OF assms(1)] spec_harmless [OF assms(2)])
qed (rule R_trans)

lemma harmless_and_then [harmless_intros]:
  "harmless p \<Longrightarrow> (\<And>x. harmless (k x)) \<Longrightarrow> harmless (and_then p k)"
  unfolding and_then_def by (auto intro!: harmless_intros split: sum.split)

lemma harmless_on_error [harmless_intros]:
  "harmless p \<Longrightarrow> (\<And>e. harmless (h e)) \<Longrightarrow> harmless (on_error p h)"
  unfolding on_error_def by (auto intro!: harmless_intros split: sum.split)

lemma harmless_except_exception [harmless_intros]:
  "harmless p \<Longrightarrow> (\<And>e. harmless (h e)) \<Longrightarrow> harmless (except_exception p h)"
  unfolding except_exception_def by (auto intro!: harmless_intros)

lemma harmless_finally_do [harmless_intros]: "harmless p \<Longrightarrow> harmless q \<Longrightarrow> harmless (finally_do p q)"
  unfolding finally_do_def by (auto intro!: harmless_intros)

lemma harmless_served:
  assumes "\<And>w. quiet w (b w)" and "\<And>w. neutral w (snd (f w))"
  shows "harmless (atomic (\<lambda>w. served (flt w) e f (b w)))"
proof (rule harmless_atomic)
  fix w
  have "neutral w (b w)" "neutral (b w) (snd (f (b w)))"
    using assms quiet_neutral by blast+
  then show "neutral w (snd (served (flt w) e f (b w)))"
    using served_cases [of "flt w" e f "b w"] neutral_trans by auto
qed

lemma harmless_db_call: "(\<And>w. neutral w (snd (f w))) \<Longrightarrow> harmless (atomic (db_call f))"
  unfolding db_call_def by (rule harmless_served) simp_all

lemma harmless_redis_call: "(\<And>w. neutral w (snd (f w))) \<Longrightarrow> harmless (atomic (redis_call f))"
  unfolding redis_call_def by (rule harmless_served) simp_all

lemma harmless_amqp_call: "(\<And>w. neutral w (snd (f w))) \<Longrightarrow> harmless (atomic (amqp_call f))"
  unfolding amqp_call_def by (rule harmless_served) simp_all

lemma harmless_query [harmless_intros]: "harmless (query q)"
  unfolding query_def by (rule harmless_db_call) simp

lemma harmless_uuid4 [harmless_intros]: "harmless uuid4"
  unfolding uuid4_def by (rule harmless_atomic) (simp add: quiet_neutral quiet_def)

lemma harmless_utc_now [harmless_intros]: "harmless utc_now"
  unfolding utc_now_def by (rule harmless_atomic) simp

lemma spec_query:
  assumes "\<And>w' w''. rely a w w' \<Longrightarrow> rely a w' w'' \<Longrightarrow> Q (Inr (q w')) w''"
    and "\<And>x w'. rely a w w' \<Longrightarrow> Q (Inl x) w'"
  shows "spec a (query q) Q w"
  unfolding query_def by (rule spec_db_call) (use assms R_trans in \<open>auto intro: neutral_guarantee\<close>)

section \<open>Redis\<close>

lemma harmless_redis_get [harmless_intros]: "harmless (redis_get k)"
  unfolding redis_get_def by (rule harmless_redis_call) simp

lemma harmless_redis_ping [harmless_intros]: "harmless redis_ping"
  unfolding redis_ping_def by (rule harmless_redis_call) simp

lemma harmless_setex_tenant [harmless_intros]: "harmless (redis_setex (tenant_key t) ttl v)"
  unfolding redis_setex_def
  by (rule harmless_redis_call)
     (auto intro!: quiet_neutral simp: quiet_def redis_store_def keys_disjoint split: if_splits)

lemma harmless_get_tenant_cache [harmless_intros]: "harmless (get_tenant_cache pf t)"
  unfolding get_tenant_cache_def
  by (auto intro!: harmless_intros split: option.split)

lemma harmless_set_tenant_cache [harmless_intros]: "harmless (set_tenant_cache pf t d ttl)"
  unfolding set_tenant_cache_def suppress_def by (auto intro!: harmless_intros)

text \<open>A hit in the idempotency cache is a persisted key, and stays one.\<close>

lemma spec_get_idempotency_cache:
  assumes "Inv w"
  shows "spec a (get_idempotency_cache h)
    (\<lambda>r w'. rely a w w' \<and> (\<forall>v. r = Inr (Some v) \<longrightarrow> h \<in> hash_keys w')) w"
proof -
  have hit: "h \<in> hash_keys w''"
    if "rely a w w'" "rely a w' w''" "redis_lookup w' (idempotency_key h) = Some v" for w' w'' v
  proof -
    have "Inv w'" using that(1) assms by (rule rely_Inv)
    then have "h \<in> hash_keys w'"
      using that(3) by (force simp: Inv_def cache_ok_def redis_lookup_def split: option.splits)
    then show ?thesis
      using grows_hash_keys [OF rely_grows [OF that(2) \<open>Inv w'\<close>]] by blast
  qed
  have miss: "spec a (if is_exception x then ret None else throw x)
      (\<lambda>r w'. rely a w w' \<and> (\<forall>v. r = Inr (Some v) \<longrightarrow> h \<in> hash_keys w')) w''"
    if "rely a w w''" for x w''
    using R_trans [OF that] by (simp add: wp_Done)
  show ?thesis
    unfolding get_idempotency_cache_def except_exception_def redis_get_def
  proof (rule wp_on_error, rule spec_redis_call, goal_cases)
    case (1 w')
    show ?case by (simp add: neutral_guarantee)
  next
    case (2 w' w'')
    then show ?case using hit [of w' w''] R_trans [of a w w' w''] by auto
  next
    case (3 x w' w'')
    then have "rely a w w''" using R_trans [of a w w' w''] by simp
    then show ?case unfolding sum.case by (rule miss)
  next
    case (4 x w' w'')
    then have "rely a w w''" using R_trans [of a w w' w''] by simp
    then show ?case unfolding sum.case by (rule miss)
  qed
qed

text \<open>Caching a persisted key.\<close>

lemma neutral_store_idempotency:
  assumes "h \<in> hash_keys w"
  shows "neutral w (redis_store (idempotency_key h) ttl v w)"
proof -
  let ?w = "redis_store (idempotency_key h) ttl v w"
  have same: "hash_keys ?w = hash_keys w" "locked_ids ?w = locked_ids w"
    "tx_ok ?w = tx_ok w" "message_ok ?w = message_ok w" "tx_of ?w = tx_of w" "row_of ?w = row_of w"
    by (simp_all add: redis_store_def hash_keys_def locked_ids_def tx_ok_def message_ok_def tx_of_def
          row_of_def fun_eq_iff)
  have "cache_ok w \<Longrightarrow> cache_ok ?w"
    using assms unfolding cache_ok_def same by (auto simp: redis_store_def)
  moreover have "tables_ok ?w = tables_ok w" "txs_ok ?w = txs_ok w" "sent_ok ?w = sent_ok w"
    unfolding tables_ok_def txs_ok_def sent_ok_def same by (simp_all add: redis_store_def)
  moreover have "grows w ?w" using progress_self by (simp add: grows_def redis_store_def)
  moreover have "frame p w ?w" for p by (simp add: frame_def same) (simp add: redis_store_def)
  ultimately show ?thesis
    unfolding neutral_def Inv_def same by (simp add: redis_store_def)
qed

lemma spec_set_idempotency_cache:
  assumes "h \<in> hash_keys w" and "Inv w"
    and "\<And>r w'. rely a w w' \<Longrightarrow> Q r w'"
  shows "spec a (set_idempotency_cache h ttl) Q w"
proof -
  let ?f = "\<lambda>w. if ttl \<le> 0 then (Inl RedisFailure, w)
       else (Inr (), redis_store (idempotency_key h) ttl ''1'' w)"
  have step: "neutral w' (snd (?f w'))" if "rely a w w'" for w'
    using that assms grows_hash_keys [OF rely_grows [OF that assms(2)]]
    by (auto intro: neutral_store_idempotency)
  have after: "rely a w w''" if "rely a w w'" "rely a (snd (?f w')) w''" for w' w''
    using that step R_trans neutral_rely by blast
  have caught: "spec a (if is_exception x then ret () else throw x) Q w''"
    if "rely a w w''" for x w''
    using R_trans [OF that] assms(3) by (simp add: wp_Done)
  show ?thesis
    unfolding set_idempotency_cache_def suppress_def except_exception_def redis_setex_def
  proof (rule wp_on_error, rule spec_redis_call, goal_cases)
    case (1 w')
    then show ?case using neutral_guarantee [OF step] by simp
  next
    case (2 w' w'')
    then have "rely a w w''" by (rule after)
    then show ?case using caught assms(3) by (cases "fst (?f w')") simp_all
  next
    case (3 x w' w'')
    then have "rely a w w''" using R_trans [of a w w' w''] by simp
    then show ?case unfolding sum.case by (rule caught)
  next
    case (4 x w' w'')
    then have "rely a w w''" by (rule after)
    then show ?case unfolding sum.case by (rule caught)
  qed
qed

section \<open>The broker\<close>

lemma harmless_open_channel [harmless_intros]: "harmless open_channel"
  unfolding open_channel_def
  by (rule harmless_amqp_call) (simp add: quiet_neutral quiet_def)

lemma harmless_get_exchange [harmless_intros]: "harmless (get_exchange ch name)"
  unfolding get_exchange_def by (rule harmless_amqp_call) simp

lemma harmless_close_channel [harmless_intros]: "harmless (close_channel ch)"
  unfolding close_channel_def
  by (rule harmless_amqp_call) (simp add: quiet_neutral quiet_def)

lemma on_broker_grows [intro]: "on_broker ms r \<Longrightarrow> on_broker (ms @ ns) r"
  by (auto simp: on_broker_def)

lemma write_ok_grows: "write_ok ms wr r \<Longrightarrow> write_ok (ms @ ns) wr r"
  by (cases wr) auto

lemma tx_ok_grows: "tx_ok w x \<Longrightarrow> tx_ok (w\<lparr>w_published := w_published w @ ns\<rparr>) x"
  unfolding tx_ok_def by (fastforce intro: write_ok_grows)

lemma neutral_publish:
  assumes "message_ok w m"
  shows "neutral w (w\<lparr>w_published := w_published w @ [m]\<rparr>)"
proof -
  let ?w = "w\<lparr>w_published := w_published w @ [m]\<rparr>"
  have same: "hash_keys ?w = hash_keys w" "locked_ids ?w = locked_ids w"
    "message_ok ?w = message_ok w" "tx_of ?w = tx_of w" "row_of ?w = row_of w"
    by (simp_all add: hash_keys_def locked_ids_def message_ok_def tx_of_def row_of_def fun_eq_iff)
  have "cache_ok ?w = cache_ok w" "tables_ok ?w = tables_ok w"
    unfolding cache_ok_def tables_ok_def same by simp_all
  moreover have "txs_ok w \<Longrightarrow> txs_ok ?w" "sent_ok w \<Longrightarrow> sent_ok ?w"
    unfolding txs_ok_def sent_ok_def same by (simp_all add: tx_ok_grows on_broker_grows)
  moreover have "grows w ?w" using progress_self by (simp add: grows_def)
  moreover have "frame p w ?w" for p by (simp add: frame_def same)
  ultimately show ?thesis
    unfolding neutral_def Inv_def same using assms by simp
qed

lemma message_ok_journey:
  "bm_routing_key m = ''journey.step.created'' \<Longrightarrow> message_ok w m"
  by (simp add: message_ok_def)

lemma harmless_journey_publish [harmless_intros]:
  "harmless (publish exch ''journey.step.created'' body cid)"
proof -
  have "harmless (exchange_publish x ''journey.step.created'' body hs)" for x hs
    unfolding exchange_publish_def
    by (rule harmless_amqp_call) (auto intro!: neutral_publish message_ok_journey)
  then show ?thesis
    unfolding publish_def by (auto intro!: harmless_intros)
qed

end
