(* ===== verification/Repositories.thy ===== *)
theory Repositories
  imports Evolution "HOL-Library.Monad_Syntax"
begin

text \<open>
  \<open>src/vcs_gateway/db/repository.py\<close> and \<open>src/vcs_gateway/db/repositories/\<close>, over the tables
  of \<open>migrations/versions/0001_initial.py\<close> and \<open>0002_seed_shared_schema.py\<close>: column widths,
  unique indexes and defaults are those of the DDL. A statement runs on the committed tables
  of the world; \<open>transaction\<close> makes its statements atomic and undoes them on an error.
  Concurrent transactions that insert equal keys are serialised by the unique indexes, so
  a transaction without other awaits is one action.
\<close>

section \<open>Pool and transactions\<close>

text \<open>
  \<open>BaseRepository.fetchrow\<close> and \<open>fetch\<close>: one query on a pooled connection. The server refuses
  a text argument with a NUL character; \<open>fetch\<close> is used with constants only.
\<close>

definition fetchrow :: "string list \<Rightarrow> (world \<Rightarrow> 'r option) \<Rightarrow> 'r option io" where
  "fetchrow args q =
     (if list_all no_nul args then query q
      else and_then (query (\<lambda>_. ())) (\<lambda>_. throw (PostgresError ''invalid byte sequence'')))"

definition fetch :: "(world \<Rightarrow> 'r list) \<Rightarrow> 'r list io" where
  "fetch q = query q"

text \<open>A writing statement inside a transaction, and \<open>BaseRepository.execute\<close>.\<close>

definition execute :: "'a stmt \<Rightarrow> 'a io" where
  "execute f = atomic (db_call f)"

definition undo_tables :: "world \<Rightarrow> world \<Rightarrow> world" where
  "undo_tables w w' = w'\<lparr>w_inbound := w_inbound w, w_outbox := w_outbox w, w_vcs_configs := w_vcs_configs w\<rparr>"

text \<open>
  \<open>async with pool.acquire() as conn, conn.transaction()\<close>: \<open>BEGIN\<close>, the body, \<open>COMMIT\<close>.
  An error of the body rolls back; the commit itself may be lost or be applied without the
  client learning it.
\<close>

definition commit :: "world \<Rightarrow> 'a \<Rightarrow> 'a stmt" where
  "commit w a w' =
     (let w'' = w'\<lparr>w_db_calls := Suc (w_db_calls w')\<rparr>
      in served (w_db_faults w' (w_db_calls w')) (PostgresError ''connection'')
           (\<lambda>_. (Inr a, w'')) (undo_tables w w''))"

definition transaction_stmt :: "'a io \<Rightarrow> 'a stmt" where
  "transaction_stmt body w =
     (case run (and_then (query (\<lambda>_. ())) (\<lambda>_. body)) w of
        (Inl e, w') \<Rightarrow> (Inl e, undo_tables w w')
      | (Inr a, w') \<Rightarrow> commit w a w')"

definition transaction :: "'a io \<Rightarrow> 'a io" where
  "transaction body = atomic (transaction_stmt body)"

section \<open>TenantRepository\<close>

definition select_tenant :: "uuid \<Rightarrow> world \<Rightarrow> tenant option" where
  "select_tenant tenant_id w = do {
     t \<leftarrow> find (\<lambda>t. tr_tenant_id t = tenant_id) (w_tenants w);
     c \<leftarrow> find (\<lambda>c. cr_customer_id c = tr_customer_id t) (w_customers w);
     Some \<lparr>tn_tenant_id = tr_tenant_id t, tn_customer_id = tr_customer_id t,
           tn_name = tr_tenant_name t, tn_is_active = tr_is_active t,
           tn_webhook_secret = tr_webhook_secret t, tn_plan_type = cr_plan_type c,
           tn_customer_plan_type = Some (cr_plan_type c)\<rparr> }"

definition get_by_id :: "uuid \<Rightarrow> tenant option io" where
  "get_by_id tenant_id = fetchrow [] (select_tenant tenant_id)"

definition select_whitelist :: "string \<Rightarrow> world \<Rightarrow> whitelist_entry list" where
  "select_whitelist vcs_provider w =
     filter (\<lambda>e. wl_vcs_provider e = vcs_provider \<and> wl_is_active e) (w_whitelist w)"

definition get_event_whitelist :: "string \<Rightarrow> whitelist_entry list io" where
  "get_event_whitelist vcs_provider = fetch (select_whitelist vcs_provider)"

section \<open>Columns\<close>

text \<open>
  Assignment to \<open>VARCHAR(n)\<close>: longer text is an error, unless all of the excess is spaces,
  which are cut off.
\<close>

definition varchar :: "nat \<Rightarrow> string \<Rightarrow> string option" where
  "varchar n s =
     (let k = py_len s - n
      in if k = 0 then Some s
         else if drop (length s - k) s = replicate k CHR '' '' then Some (take (length s - k) s)
         else None)"

definition varchar_null :: "nat \<Rightarrow> string option \<Rightarrow> string option option" where
  "varchar_null n x = (case x of None \<Rightarrow> Some None | Some s \<Rightarrow> map_option Some (varchar n s))"

text \<open>No text of the row has a NUL character, and the documents are JSON without one.\<close>

definition encodable :: "inbound_event \<Rightarrow> bool" where
  "encodable r \<longleftrightarrow>
     list_all no_nul [ie_vcs_provider r, ie_vcs_instance_id r, ie_repo_id r, ie_pr_id r,
       ie_commit_sha r, ie_action r, ie_pr_hash_key r, ie_processing_status r] \<and>
     list_all (pred_option no_nul) [ie_repo_name r, ie_pr_title r, ie_pr_author r, ie_pr_url r] \<and>
     jsonb_ok (ie_raw_payload r) \<and> pred_option jsonb_ok (ie_webhook_headers r)"

text \<open>The row as the columns hold it, when they can.\<close>

definition fit_inbound :: "inbound_event \<Rightarrow> inbound_event option" where
  "fit_inbound r = (if \<not> encodable r then None else do {
     vcs_provider \<leftarrow> varchar 50 (ie_vcs_provider r);
     vcs_instance_id \<leftarrow> varchar 255 (ie_vcs_instance_id r);
     repo_id \<leftarrow> varchar 255 (ie_repo_id r);
     repo_name \<leftarrow> varchar_null 500 (ie_repo_name r);
     pr_id \<leftarrow> varchar 255 (ie_pr_id r);
     pr_author \<leftarrow> varchar_null 255 (ie_pr_author r);
     pr_url \<leftarrow> varchar_null 1000 (ie_pr_url r);
     commit_sha \<leftarrow> varchar 64 (ie_commit_sha r);
     action \<leftarrow> varchar 50 (ie_action r);
     pr_hash_key \<leftarrow> varchar 64 (ie_pr_hash_key r);
     processing_status \<leftarrow> varchar 50 (ie_processing_status r);
     Some (r\<lparr>ie_vcs_provider := vcs_provider, ie_vcs_instance_id := vcs_instance_id,
             ie_repo_id := repo_id, ie_repo_name := repo_name, ie_pr_id := pr_id,
             ie_pr_author := pr_author, ie_pr_url := pr_url, ie_commit_sha := commit_sha,
             ie_action := action, ie_pr_hash_key := pr_hash_key,
             ie_processing_status := processing_status\<rparr>) })"

section \<open>InboundEventRepository\<close>

fun is_dict :: "json \<Rightarrow> bool" where
  "is_dict (JObj _) = True"
| "is_dict _ = False"

text \<open>
  \<open>InboundEvent.model_validate(dict(row))\<close>: the JSONB columns must come back as dictionaries,
  which they do only on a connection with a JSONB codec; without one they are text.
\<close>

definition validate_inbound :: "platform \<Rightarrow> inbound_event \<Rightarrow> exn + inbound_event" where
  "validate_inbound pf r =
     (if jsonb_codec pf \<and> is_dict (ie_raw_payload r) \<and>
         (case ie_webhook_headers r of None \<Rightarrow> True | Some h \<Rightarrow> is_dict h)
      then Inr r else Inl PydanticError)"

definition select_by_pr_hash_key :: "string \<Rightarrow> world \<Rightarrow> inbound_event option" where
  "select_by_pr_hash_key h w = find (\<lambda>r. ie_pr_hash_key r = h) (w_inbound w)"

definition get_by_pr_hash_key :: "platform \<Rightarrow> string \<Rightarrow> inbound_event option io" where
  "get_by_pr_hash_key pf pr_hash_key =
     and_then (fetchrow [pr_hash_key] (select_by_pr_hash_key pr_hash_key)) (\<lambda>row. case row of
         None \<Rightarrow> ret None
       | Some r \<Rightarrow> Done (map_sum id Some (validate_inbound pf r)))"

text \<open>
  \<open>INSERT INTO inbound_event ... RETURNING *\<close>. The 18 columns are passed; the other three
  take their defaults. A \<open>dict\<close> argument for a JSONB column is rejected by the driver on a
  connection without a codec.
\<close>

definition insert_inbound_stmt :: "platform \<Rightarrow> inbound_event \<Rightarrow> inbound_event stmt" where
  "insert_inbound_stmt pf values w =
     (if \<not> jsonb_codec pf then (Inl (DataError ''expected str, got dict''), w)
      else case fit_inbound values of
          None \<Rightarrow> (Inl (PostgresError ''value not representable''), w)
        | Some fitted \<Rightarrow>
            let row = fitted\<lparr>ie_rejection_reason := None,
                             ie_created_at := w_db_clock w, ie_updated_at := w_db_clock w\<rparr>
            in if ie_processing_status row \<notin> {''accepted'', ''rejected'', ''duplicate''}
               then (Inl (PostgresError ''inbound_event_status_check''), w)
               else if ie_event_id row \<in> ie_event_id ` set (w_inbound w)
               then (Inl (UniqueViolationError ''inbound_event_pkey''), w)
               else if ie_correlation_id row \<in> ie_correlation_id ` set (w_inbound w)
               then (Inl (UniqueViolationError ''uq_inbound_event_correlation_id''), w)
               else if ie_pr_hash_key row \<in> ie_pr_hash_key ` set (w_inbound w)
               then (Inl (UniqueViolationError ''uq_inbound_event_pr_hash_key''), w)
               else (Inr row, w\<lparr>w_inbound := w_inbound w @ [row]\<rparr>))"

definition insert_inbound :: "platform \<Rightarrow> inbound_event \<Rightarrow> inbound_event io" where
  "insert_inbound pf values =
     and_then (execute (insert_inbound_stmt pf values)) (\<lambda>row. Done (validate_inbound pf row))"

section \<open>TenantVcsConfigRepository\<close>

definition same_repo :: "vcs_config_row \<Rightarrow> vcs_config_row \<Rightarrow> bool" where
  "same_repo r r' \<longleftrightarrow> vc_tenant_id r = vc_tenant_id r' \<and> vc_vcs_provider r = vc_vcs_provider r' \<and>
     vc_repo_id r = vc_repo_id r'"

definition fit_vcs_config :: "vcs_config_row \<Rightarrow> vcs_config_row option" where
  "fit_vcs_config r = (if \<not> list_all no_nul [vc_vcs_provider r, vc_vcs_instance_id r, vc_repo_id r] \<or>
         \<not> list_all (pred_option no_nul) [vc_repo_name r, vc_repo_url r] then None else do {
     vcs_provider \<leftarrow> varchar 50 (vc_vcs_provider r);
     vcs_instance_id \<leftarrow> varchar 255 (vc_vcs_instance_id r);
     repo_id \<leftarrow> varchar 255 (vc_repo_id r);
     repo_name \<leftarrow> varchar_null 500 (vc_repo_name r);
     repo_url \<leftarrow> varchar_null 1000 (vc_repo_url r);
     Some (r\<lparr>vc_vcs_provider := vcs_provider, vc_vcs_instance_id := vcs_instance_id,
             vc_repo_id := repo_id, vc_repo_name := repo_name, vc_repo_url := repo_url\<rparr>) })"

text \<open>\<open>INSERT ... ON CONFLICT (tenant_id, vcs_provider, repo_id) DO UPDATE\<close>.\<close>

definition upsert_stmt ::
    "uuid \<Rightarrow> string \<Rightarrow> string \<Rightarrow> string \<Rightarrow> string option \<Rightarrow> string option \<Rightarrow> unit stmt" where
  "upsert_stmt tenant_id vcs_provider vcs_instance_id repo_id repo_name repo_url w =
     (case fit_vcs_config \<lparr>vc_tenant_id = tenant_id, vc_vcs_provider = vcs_provider,
           vc_vcs_instance_id = vcs_instance_id, vc_repo_id = repo_id, vc_repo_name = repo_name,
           vc_repo_url = repo_url, vc_is_active = True, vc_updated_at = w_db_clock w\<rparr> of
        None \<Rightarrow> (Inl (PostgresError ''value not representable''), w)
      | Some new \<Rightarrow>
          if list_ex (\<lambda>r. same_repo r new) (w_vcs_configs w)
          then (Inr (), w\<lparr>w_vcs_configs := map (\<lambda>r. if same_repo r new
                 then r\<lparr>vc_repo_name := vc_repo_name new, vc_repo_url := vc_repo_url new,
                        vc_is_active := True, vc_updated_at := w_db_clock w\<rparr> else r) (w_vcs_configs w)\<rparr>)
          else if tenant_id \<notin> tr_tenant_id ` set (w_tenants w)
          then (Inl (PostgresError ''foreign key''), w)
          else (Inr (), w\<lparr>w_vcs_configs := w_vcs_configs w @ [new]\<rparr>))"

definition upsert ::
    "uuid \<Rightarrow> string \<Rightarrow> string \<Rightarrow> string \<Rightarrow> string option \<Rightarrow> string option \<Rightarrow> unit io" where
  "upsert tenant_id vcs_provider vcs_instance_id repo_id repo_name repo_url =
     execute (upsert_stmt tenant_id vcs_provider vcs_instance_id repo_id repo_name repo_url)"

section \<open>Lemmas\<close>

lemma varchar_fits: "py_len s \<le> n \<Longrightarrow> varchar n s = Some s"
  by (simp add: varchar_def)

lemma py_len_append [simp]: "py_len (s @ t) = py_len s + py_len t"
  by (simp add: py_len_def)

lemma py_len_spaces [simp]: "py_len (replicate k CHR '' '') = k"
  by (simp add: py_len_def is_continuation_def)

lemma varchar_bound:
  assumes "varchar n s = Some t"
  shows "py_len t \<le> n"
proof (cases "py_len s \<le> n")
  case True
  then show ?thesis using assms by (simp add: varchar_fits)
next
  case False
  define k where "k = py_len s - n"
  with False assms have "drop (length s - k) s = replicate k CHR '' ''" "t = take (length s - k) s"
    by (auto simp: varchar_def Let_def split: if_splits)
  then have "s = t @ replicate k CHR '' ''" by (metis append_take_drop_id)
  then have "py_len s = py_len t + k" by (metis py_len_append py_len_spaces)
  then show ?thesis using False by (simp add: k_def)
qed

lemma varchar_no_nul: "varchar n s = Some t \<Longrightarrow> no_nul s \<Longrightarrow> no_nul t"
  unfolding no_nul_def varchar_def Let_def
  by (auto split: if_splits dest: in_set_takeD)

lemma fit_inbound_unchanged:
  assumes "fit_inbound r = Some r'"
  shows "ie_event_id r' = ie_event_id r \<and> ie_correlation_id r' = ie_correlation_id r \<and>
    ie_tenant_id r' = ie_tenant_id r \<and> ie_pr_title r' = ie_pr_title r \<and>
    ie_pr_version r' = ie_pr_version r \<and> ie_raw_payload r' = ie_raw_payload r \<and>
    ie_webhook_headers r' = ie_webhook_headers r"
  using assms by (auto simp: fit_inbound_def bind_eq_Some_conv split: if_splits)

lemma fit_inbound_short:
  assumes "fit_inbound r = Some r'"
  shows "py_len (ie_pr_hash_key r) \<le> 64 \<longrightarrow> ie_pr_hash_key r' = ie_pr_hash_key r"
    and "py_len (ie_processing_status r) \<le> 50 \<longrightarrow> ie_processing_status r' = ie_processing_status r"
  using assms by (auto simp: fit_inbound_def bind_eq_Some_conv varchar_fits split: if_splits)

lemma validate_inbound_Inr [simp]: "validate_inbound pf r = Inr r' \<Longrightarrow> r' = r"
  by (simp add: validate_inbound_def split: if_splits)

lemma select_by_pr_hash_key_iff:
  "(\<exists>r. select_by_pr_hash_key h w = Some r) \<longleftrightarrow> h \<in> hash_keys w"
  by (force simp: select_by_pr_hash_key_def hash_keys_def find_Some_iff2 find_None_iff
      simp flip: not_None_eq)

lemma select_by_pr_hash_key_Some:
  "select_by_pr_hash_key h w = Some r \<Longrightarrow> r \<in> set (w_inbound w) \<and> ie_pr_hash_key r = h"
  by (auto simp: select_by_pr_hash_key_def find_Some_iff in_set_conv_nth)

lemma fetchrow_plain [simp]: "list_all no_nul args \<Longrightarrow> fetchrow args q = query q"
  by (simp add: fetchrow_def)

lemma get_by_id_query: "get_by_id t = query (select_tenant t)"
  by (simp add: get_by_id_def)

lemma fit_inbound_encodable: "fit_inbound r = Some r' \<Longrightarrow> encodable r"
  by (simp add: fit_inbound_def split: if_splits)

lemma harmless_fetchrow [harmless_intros]: "harmless (fetchrow args q)"
  unfolding fetchrow_def by (auto intro!: harmless_intros)

lemma harmless_get_by_id [harmless_intros]: "harmless (get_by_id t)"
  by (simp add: get_by_id_query harmless_query)

lemma harmless_get_event_whitelist [harmless_intros]: "harmless (get_event_whitelist p)"
  by (simp add: get_event_whitelist_def fetch_def harmless_query)

lemma harmless_get_by_pr_hash_key [harmless_intros]: "harmless (get_by_pr_hash_key pf h)"
  unfolding get_by_pr_hash_key_def
  by (auto intro!: harmless_intros split: option.split)

lemma spec_fetchrow:
  assumes "\<And>w' w''. rely a w w' \<Longrightarrow> rely a w' w'' \<Longrightarrow> Q (Inr (q w')) w''"
    and "\<And>x w'. rely a w w' \<Longrightarrow> Q (Inl x) w'"
  shows "spec a (fetchrow args q) Q w"
proof (cases "list_all no_nul args")
  case True
  then show ?thesis using spec_query [of a w Q q] assms by simp
next
  case False
  have "spec a (and_then (query (\<lambda>_. ())) (\<lambda>_. throw (PostgresError ''invalid byte sequence''))) Q w"
    by (rule wp_and_then, rule spec_query) (use assms(2) R_trans in \<open>auto simp: wp_Done\<close>)
  then show ?thesis using False by (simp only: fetchrow_def if_False)
qed

text \<open>A key found in the table is persisted, and stays so.\<close>

lemma spec_get_by_pr_hash_key:
  assumes "Inv w"
  shows "spec a (get_by_pr_hash_key pf h)
    (\<lambda>r w'. rely a w w' \<and> (\<forall>i. r = Inr (Some i) \<longrightarrow> i \<in> set (w_inbound w') \<and> ie_pr_hash_key i = h)) w"
  unfolding get_by_pr_hash_key_def
proof (rule wp_and_then, rule spec_fetchrow, goal_cases)
  case (1 w' w'')
  then have w': "Inv w'" "grows w' w''" using assms rely_Inv rely_grows by blast+
  have "rely a w w''" using 1 by (rule R_trans)
  then have later: "rely a w'' v \<Longrightarrow> rely a w v \<and> set (w_inbound w') \<subseteq> set (w_inbound v)" for v
    using w' rely_Inv [OF 1(2)] rely_grows [of a w'' v] R_trans [of a w w'' v]
    by (auto simp: grows_def)
  show ?case
  proof (cases "select_by_pr_hash_key h w'")
    case None
    then show ?thesis using later by (simp add: wp_Done)
  next
    case (Some i)
    then have "i \<in> set (w_inbound w')" "ie_pr_hash_key i = h"
      using select_by_pr_hash_key_Some by blast+
    then show ?thesis
      using Some later by (cases "validate_inbound pf i") (auto simp: wp_Done dest: validate_inbound_Inr)
  qed
next
  case (2 x w')
  then show ?case by simp
qed

end
