(* ===== verification/Outbox.thy ===== *)
theory Outbox
  imports Repositories
begin

text \<open>
  \<open>src/vcs_gateway/db/outbox.py\<close>: scheduling outbox events inside the webhook's transaction
  (\<open>OutboxRepository\<close>) and dispatching them (\<open>OutboxPublisher\<close>).

  A dispatch batch is a database transaction with AMQP calls inside, so it is not one action.
  Its server-side state is a \<open>tx\<close>: the transaction's \<open>NOW()\<close>, the rows locked by
  \<open>FOR UPDATE SKIP LOCKED\<close>, the uncommitted updates and whether the transaction is aborted.
  A statement that fails aborts it: until a savepoint is restored every further statement
  fails. The updates reach the table at \<open>COMMIT\<close>. A publisher is identified by a number
  (one per replica), which also names its transaction.

  Payload and headers are passed to the insert as JSON text (\<open>json.dumps\<close>) and come back as text of
  an equal document; \<open>oe_payload\<close> and \<open>oe_headers\<close> are these documents, up to what JSONB does not
  keep (the order of keys and the spelling of numbers). A document that JSONB cannot hold is an
  error of the insert. The texts of exceptions, which the error branch stores, are taken to have
  no NUL character. Opening a nested transaction is one call.
\<close>

section \<open>OutboxRepository\<close>

definition fits_int4 :: "int \<Rightarrow> bool" where
  "fits_int4 v \<longleftrightarrow> - (2 ^ 31) \<le> v \<and> v < 2 ^ 31"

definition cancel_previous_stmt :: "string \<Rightarrow> int \<Rightarrow> string \<Rightarrow> unit stmt" where
  "cancel_previous_stmt pr_hash_key pr_version reason w =
     (if \<not> fits_int4 pr_version then (Inl (DataError ''value out of int32 range''), w)
      else if \<not> list_all no_nul [pr_hash_key, reason] then (Inl (PostgresError ''value not representable''), w)
      else (Inr (), w\<lparr>w_outbox := map (\<lambda>r.
        if oe_pr_hash_key r = Some pr_hash_key \<and> oe_status r = SCHEDULED \<and>
           (case oe_pr_version r of None \<Rightarrow> False | Some v \<Rightarrow> v < pr_version)
        then r\<lparr>oe_status := CANCELLED, oe_cancel_reason := Some reason\<rparr> else r) (w_outbox w)\<rparr>))"

text \<open>\<open>INSERT INTO outbox_event ... RETURNING outbox_id\<close>, with the defaults of the DDL.\<close>

definition insert_event_stmt ::
    "string \<Rightarrow> uuid \<Rightarrow> string \<Rightarrow> int \<Rightarrow> json \<Rightarrow> json \<Rightarrow> int \<Rightarrow> uuid stmt" where
  "insert_event_stmt event_type correlation_id pr_hash_key pr_version payload headers debounce w =
     (if \<not> fits_int4 pr_version then (Inl (DataError ''value out of int32 range''), w)
      else if \<not> list_all no_nul [event_type, pr_hash_key] \<or> \<not> jsonb_ok payload \<or> \<not> jsonb_ok headers
      then (Inl (PostgresError ''value not representable''), w)
      else case varchar 64 pr_hash_key of
          None \<Rightarrow> (Inl (PostgresError ''value not representable''), w)
        | Some key \<Rightarrow>
            let i = w_uuid_source w (w_uuids_drawn w);
                w' = w\<lparr>w_uuids_drawn := Suc (w_uuids_drawn w)\<rparr>
            in if i \<in> oe_outbox_id ` set (w_outbox w)
               then (Inl (UniqueViolationError ''outbox_event_pkey''), w')
               else (Inr i, w'\<lparr>w_outbox := w_outbox w @
                 [\<lparr>oe_outbox_id = i, oe_event_type = event_type, oe_correlation_id = correlation_id,
                   oe_pr_hash_key = Some key, oe_pr_version = Some pr_version,
                   oe_payload = payload, oe_headers = headers, oe_status = SCHEDULED,
                   oe_dispatch_at = w_db_clock w + seconds debounce, oe_cancel_reason = None,
                   oe_retry_count = 0, oe_max_retries = 3, oe_next_retry_at = None,
                   oe_error_message = None, oe_created_at = w_db_clock w,
                   oe_published_at = None\<rparr>]\<rparr>))"

definition schedule_event ::
    "string \<Rightarrow> uuid \<Rightarrow> string \<Rightarrow> int \<Rightarrow> json \<Rightarrow> json \<Rightarrow> int \<Rightarrow> uuid io" where
  "schedule_event event_type correlation_id pr_hash_key pr_version payload headers debounce_seconds =
     and_then (execute (cancel_previous_stmt pr_hash_key pr_version ''superseded_by_newer_version''))
       (\<lambda>_. execute (insert_event_stmt event_type correlation_id pr_hash_key pr_version
              payload headers debounce_seconds))"

section \<open>The dispatch transaction\<close>

definition set_tx :: "nat \<Rightarrow> tx \<Rightarrow> world \<Rightarrow> world" where
  "set_tx p x w = w\<lparr>w_txs := (p, x) # filter (\<lambda>e. fst e \<noteq> p) (w_txs w)\<rparr>"

definition end_tx :: "nat \<Rightarrow> world \<Rightarrow> world" where
  "end_tx p w = w\<lparr>w_txs := filter (\<lambda>e. fst e \<noteq> p) (w_txs w)\<rparr>"

definition abort_tx :: "nat \<Rightarrow> world \<Rightarrow> world" where
  "abort_tx p w = (case tx_of w p of None \<Rightarrow> w | Some x \<Rightarrow> set_tx p (x\<lparr>tx_aborted := True\<rparr>) w)"

text \<open>A statement of transaction \<open>p\<close>: fails when it is aborted, aborts it when it fails.\<close>

definition tx_stmt :: "nat \<Rightarrow> (tx \<Rightarrow> world \<Rightarrow> (exn + 'a) \<times> tx) \<Rightarrow> 'a stmt" where
  "tx_stmt p f w =
     (let flt = w_db_faults w (w_db_calls w); w' = w\<lparr>w_db_calls := Suc (w_db_calls w)\<rparr>
      in case tx_of w' p of
           None \<Rightarrow> (Inl (PostgresError ''no transaction''), w')
         | Some x \<Rightarrow>
             if tx_aborted x then (Inl (PostgresError ''current transaction is aborted''), w')
             else (case flt of
                 Fault ap ca \<Rightarrow> (Inl (if ca then Cancelled else PostgresError ''connection''), abort_tx p w')
               | NoFault \<Rightarrow> (case f x w' of
                     (Inl e, _) \<Rightarrow> (Inl e, abort_tx p w')
                   | (Inr a, x') \<Rightarrow> (Inr a, set_tx p x' w'))))"

definition begin_tx :: "nat \<Rightarrow> unit io" where
  "begin_tx p = atomic (db_call (\<lambda>w. (Inr (), set_tx p
     \<lparr>tx_now = w_db_clock w, tx_locks = [], tx_writes = [], tx_aborted = False\<rparr> w)))"

fun apply_write :: "row_write \<Rightarrow> outbox_event \<Rightarrow> outbox_event" where
  "apply_write (MarkDispatched now) r = r\<lparr>oe_status := DISPATCHED, oe_published_at := Some now\<rparr>"
| "apply_write (MarkFailed msg) r =
     r\<lparr>oe_status := FAILED, oe_retry_count := oe_retry_count r + 1,
       oe_error_message := Some msg, oe_next_retry_at := None\<rparr>"
| "apply_write (MarkRetry msg t) r =
     r\<lparr>oe_retry_count := oe_retry_count r + 1, oe_error_message := Some msg,
       oe_dispatch_at := t, oe_next_retry_at := Some t\<rparr>"

definition apply_writes :: "(uuid \<times> row_write) list \<Rightarrow> outbox_event \<Rightarrow> outbox_event" where
  "apply_writes ws r = fold (\<lambda>(i, wr) r. if oe_outbox_id r = i then apply_write wr r else r) ws r"

definition commit_stmt :: "nat \<Rightarrow> unit stmt" where
  "commit_stmt p w =
     (let w' = w\<lparr>w_db_calls := Suc (w_db_calls w)\<rparr>
     in case tx_of w' p of
          None \<Rightarrow> (Inl (PostgresError ''no transaction''), w')
        | Some x \<Rightarrow>
            served (w_db_faults w (w_db_calls w)) (PostgresError ''connection'')
              (\<lambda>w''. (Inr (), if tx_aborted x then w'' else
                 w''\<lparr>w_outbox := map (apply_writes (tx_writes x)) (w_outbox w'')\<rparr>))
              (end_tx p w'))"

definition commit_tx :: "nat \<Rightarrow> unit io" where
  "commit_tx p = atomic (commit_stmt p)"

text \<open>Whether or not the client sees the answer, the server drops the transaction.\<close>

definition rollback_tx :: "nat \<Rightarrow> unit io" where
  "rollback_tx p = atomic (\<lambda>w.
     served (w_db_faults w (w_db_calls w)) (PostgresError ''connection'') (\<lambda>w'. (Inr (), w'))
       (end_tx p (w\<lparr>w_db_calls := Suc (w_db_calls w)\<rparr>)))"

definition savepoint :: "nat \<Rightarrow> nat io" where
  "savepoint p = atomic (tx_stmt p (\<lambda>x w. (Inr (length (tx_writes x)), x)))"

definition release_savepoint :: "nat \<Rightarrow> unit io" where
  "release_savepoint p = atomic (tx_stmt p (\<lambda>x w. (Inr (), x)))"

definition rollback_to_stmt :: "nat \<Rightarrow> nat \<Rightarrow> unit stmt" where
  "rollback_to_stmt p n w =
     (let flt = w_db_faults w (w_db_calls w); w' = w\<lparr>w_db_calls := Suc (w_db_calls w)\<rparr>
     in case tx_of w' p of
          None \<Rightarrow> (Inl (PostgresError ''no transaction''), w')
        | Some x \<Rightarrow> (case flt of
              NoFault \<Rightarrow> (Inr (), set_tx p (x\<lparr>tx_writes := take n (tx_writes x), tx_aborted := False\<rparr>) w')
            | Fault ap ca \<Rightarrow> (Inl (if ca then Cancelled else PostgresError ''connection''), abort_tx p w')))"

definition rollback_to :: "nat \<Rightarrow> nat \<Rightarrow> unit io" where
  "rollback_to p n = atomic (rollback_to_stmt p n)"

text \<open>\<open>async with conn.transaction()\<close>, outermost and nested.\<close>

definition in_transaction :: "nat \<Rightarrow> 'a io \<Rightarrow> 'a io" where
  "in_transaction p body =
     and_then (begin_tx p) (\<lambda>_. attempt body (\<lambda>r. case r of
         Inr a \<Rightarrow> and_then (commit_tx p) (\<lambda>_. ret a)
       | Inl e \<Rightarrow> and_then (rollback_tx p) (\<lambda>_. throw e)))"

definition in_savepoint :: "nat \<Rightarrow> 'a io \<Rightarrow> 'a io" where
  "in_savepoint p body =
     and_then (savepoint p) (\<lambda>n. attempt body (\<lambda>r. case r of
         Inr a \<Rightarrow> and_then (release_savepoint p) (\<lambda>_. ret a)
       | Inl e \<Rightarrow> and_then (rollback_to p n) (\<lambda>_. throw e)))"

text \<open>\<open>_SELECT_DUE\<close>; rows with equal \<open>dispatch_at\<close> come in table order.\<close>

definition is_due :: "time \<Rightarrow> outbox_event \<Rightarrow> bool" where
  "is_due now r \<longleftrightarrow> oe_status r = SCHEDULED \<and> oe_dispatch_at r \<le> now"

definition due_rows :: "nat \<Rightarrow> time \<Rightarrow> world \<Rightarrow> outbox_event list" where
  "due_rows limit now w =
     take limit (sort_key oe_dispatch_at
       (filter (\<lambda>r. is_due now r \<and> oe_outbox_id r \<notin> set (locked_ids w)) (w_outbox w)))"

definition select_due :: "nat \<Rightarrow> int \<Rightarrow> outbox_event list io" where
  "select_due p limit = atomic (tx_stmt p (\<lambda>x w.
     if limit < 0 then (Inl (PostgresError ''LIMIT must not be negative''), x)
     else let rows = due_rows (nat limit) (tx_now x) w
          in (Inr rows, x\<lparr>tx_locks := tx_locks x @ map oe_outbox_id rows\<rparr>)))"

definition mark :: "nat \<Rightarrow> uuid \<Rightarrow> (tx \<Rightarrow> row_write) \<Rightarrow> unit io" where
  "mark p outbox_id wr = atomic (tx_stmt p (\<lambda>x w.
     (Inr (), x\<lparr>tx_writes := tx_writes x @ [(outbox_id, wr x)]\<rparr>)))"

definition mark_dispatched :: "nat \<Rightarrow> uuid \<Rightarrow> unit io" where
  "mark_dispatched p outbox_id = mark p outbox_id (\<lambda>x. MarkDispatched (tx_now x))"

definition mark_failed :: "nat \<Rightarrow> uuid \<Rightarrow> string \<Rightarrow> unit io" where
  "mark_failed p outbox_id msg = mark p outbox_id (\<lambda>_. MarkFailed msg)"

definition mark_retry :: "nat \<Rightarrow> uuid \<Rightarrow> string \<Rightarrow> time \<Rightarrow> unit io" where
  "mark_retry p outbox_id msg t = mark p outbox_id (\<lambda>_. MarkRetry msg t)"

section \<open>OutboxPublisher\<close>

definition max_backoff_seconds :: int where
  "max_backoff_seconds = 3600"

definition backoff :: "int \<Rightarrow> int" where
  "backoff retry_count = min (30 * 2 ^ nat (retry_count + 1)) max_backoff_seconds"

definition set_publisher :: "nat \<Rightarrow> publisher_state \<Rightarrow> unit io" where
  "set_publisher p s = atomic (\<lambda>w. (Inr (), w\<lparr>w_publishers := (w_publishers w)(p := s)\<rparr>))"

definition get_publisher :: "nat \<Rightarrow> (publisher_state \<times> nat list) io" where
  "get_publisher p = atomic (\<lambda>w. (Inr (w_publishers w p, w_open_channels w), w))"

definition reset_channel :: "nat \<Rightarrow> unit io" where
  "reset_channel p = set_publisher p \<lparr>ps_channel = None, ps_exchange = None\<rparr>"

definition channel_usable :: "publisher_state \<Rightarrow> nat list \<Rightarrow> bool" where
  "channel_usable s chans = (case ps_channel s of None \<Rightarrow> False | Some ch \<Rightarrow> ch \<in> set chans)"

definition cached_exchange :: "nat \<Rightarrow> string \<Rightarrow> (nat \<times> string) io" where
  "cached_exchange p exchange_name =
     and_then (get_publisher p) (\<lambda>(s, chans).
       if channel_usable s chans
       then (case ps_exchange s of None \<Rightarrow> throw AssertionError | Some x \<Rightarrow> ret x)
       else and_then open_channel (\<lambda>ch.
            and_then (set_publisher p (s\<lparr>ps_channel := Some ch\<rparr>)) (\<lambda>_.
            and_then (get_exchange ch exchange_name) (\<lambda>x.
            and_then (set_publisher p \<lparr>ps_channel = Some ch, ps_exchange = Some x\<rparr>) (\<lambda>_. ret x)))))"

definition publish_row :: "nat \<Rightarrow> nat \<times> string \<Rightarrow> outbox_event \<Rightarrow> unit io" where
  "publish_row p exchange row =
     (case oe_headers row of
        JObj headers \<Rightarrow>
          and_then (exchange_publish exchange (oe_event_type row) (oe_payload row) headers)
            (\<lambda>_. mark_dispatched p (oe_outbox_id row))
      | _ \<Rightarrow> throw TypeError)"

definition dispatch_failed :: "platform \<Rightarrow> nat \<Rightarrow> outbox_event \<Rightarrow> exn \<Rightarrow> unit io" where
  "dispatch_failed pf p row exc =
     and_then
       (if oe_max_retries row \<le> oe_retry_count row + 1
        then mark_failed p (oe_outbox_id row) (exc_text pf exc)
        else and_then utc_now (\<lambda>now.
          mark_retry p (oe_outbox_id row) (exc_text pf exc)
            (now + seconds (backoff (oe_retry_count row)))))
       (\<lambda>_. reset_channel p)"

definition process_row :: "platform \<Rightarrow> nat \<Rightarrow> nat \<times> string \<Rightarrow> outbox_event \<Rightarrow> unit io" where
  "process_row pf p exchange row =
     in_savepoint p (except_exception (publish_row p exchange row) (dispatch_failed pf p row))"

definition process_batch :: "platform \<Rightarrow> nat \<Rightarrow> string \<Rightarrow> int \<Rightarrow> unit io" where
  "process_batch pf p exchange_name batch_size =
     in_transaction p (and_then (select_due p batch_size) (\<lambda>rows.
       if rows = [] then ret ()
       else and_then (cached_exchange p exchange_name) (\<lambda>exchange.
              for_each rows (process_row pf p exchange))))"

text \<open>One turn of \<open>run\<close>, and its first \<open>n\<close> turns; the loop itself ends only by cancellation.\<close>

datatype loop = Continue | Stop

definition sleep :: "unit io" where
  "sleep = atomic (\<lambda>w. (if w_sleep_cancelled w (w_sleeps w) then Inl Cancelled else Inr (),
                         w\<lparr>w_sleeps := Suc (w_sleeps w)\<rparr>))"

definition run_turn :: "platform \<Rightarrow> nat \<Rightarrow> string \<Rightarrow> int \<Rightarrow> loop io" where
  "run_turn pf p exchange_name batch_size =
     attempt (process_batch pf p exchange_name batch_size) (\<lambda>r. case r of
         Inr _ \<Rightarrow> and_then sleep (\<lambda>_. ret Continue)
       | Inl e \<Rightarrow>
           if e = Cancelled
           then and_then (get_publisher p) (\<lambda>(s, chans).
                  if channel_usable s chans
                  then and_then (case ps_channel s of None \<Rightarrow> ret () | Some ch \<Rightarrow> close_channel ch)
                         (\<lambda>_. ret Stop)
                  else ret Stop)
           else and_then (reset_channel p) (\<lambda>_. and_then sleep (\<lambda>_. ret Continue)))"

fun run_turns :: "platform \<Rightarrow> nat \<Rightarrow> string \<Rightarrow> int \<Rightarrow> nat \<Rightarrow> unit io" where
  "run_turns pf p exchange_name batch_size 0 = ret ()"
| "run_turns pf p exchange_name batch_size (Suc n) =
     and_then (run_turn pf p exchange_name batch_size) (\<lambda>c. case c of
         Stop \<Rightarrow> ret ()
       | Continue \<Rightarrow> run_turns pf p exchange_name batch_size n)"

end
