(* ===== verification/Sha256.thy ===== *)
theory Sha256
  imports PyText
begin

text \<open>
  The parts of the Python standard library that the gateway's signatures and idempotency
  keys use: \<open>hashlib.sha256(...).hexdigest()\<close> (FIPS 180-4), \<open>hmac.new(...).hexdigest()\<close>
  (RFC 2104) and \<open>hmac.compare_digest\<close>. The locale \<open>hex_digest\<close> is what the clients rely on:
  64 lower-case hexadecimal characters.
\<close>

unbundle bit_operations_syntax

type_synonym w32 = "32 word"

section \<open>SHA-256\<close>

text \<open>The standard's tables: the first 32 bits of the fractional parts of the cube roots of the
  first 64 primes, and of the square roots of the first 8.\<close>

definition sha_k :: "w32 list" where
  "sha_k = [
   1116352408, 1899447441, 3049323471, 3921009573, 961987163, 1508970993, 2453635748,
   2870763221, 3624381080, 310598401, 607225278, 1426881987, 1925078388, 2162078206,
   2614888103, 3248222580, 3835390401, 4022224774, 264347078, 604807628, 770255983,
   1249150122, 1555081692, 1996064986, 2554220882, 2821834349, 2952996808, 3210313671,
   3336571891, 3584528711, 113926993, 338241895, 666307205, 773529912, 1294757372,
   1396182291, 1695183700, 1986661051, 2177026350, 2456956037, 2730485921, 2820302411,
   3259730800, 3345764771, 3516065817, 3600352804, 4094571909, 275423344, 430227734,
   506948616, 659060556, 883997877, 958139571, 1322822218, 1537002063, 1747873779,
   1955562222, 2024104815, 2227730452, 2361852424, 2428436474, 2756734187, 3204031479,
   3329325298]"

definition sha_h0 :: "w32 list" where
  "sha_h0 = [
   1779033703, 3144134277, 1013904242, 2773480762, 1359893119, 2600822924, 528734635,
   1541459225]"

definition rotr :: "nat \<Rightarrow> w32 \<Rightarrow> w32" where
  "rotr n x = drop_bit n x OR push_bit (32 - n) x"

definition ch :: "w32 \<Rightarrow> w32 \<Rightarrow> w32 \<Rightarrow> w32" where
  "ch x y z = (x AND y) XOR (NOT x AND z)"

definition maj :: "w32 \<Rightarrow> w32 \<Rightarrow> w32 \<Rightarrow> w32" where
  "maj x y z = (x AND y) XOR (x AND z) XOR (y AND z)"

definition big_sigma0 :: "w32 \<Rightarrow> w32" where
  "big_sigma0 x = rotr 2 x XOR rotr 13 x XOR rotr 22 x"

definition big_sigma1 :: "w32 \<Rightarrow> w32" where
  "big_sigma1 x = rotr 6 x XOR rotr 11 x XOR rotr 25 x"

definition small_sigma0 :: "w32 \<Rightarrow> w32" where
  "small_sigma0 x = rotr 7 x XOR rotr 18 x XOR drop_bit 3 x"

definition small_sigma1 :: "w32 \<Rightarrow> w32" where
  "small_sigma1 x = rotr 17 x XOR rotr 19 x XOR drop_bit 10 x"

text \<open>Padding: a one bit, zeros, and the length in bits as a 64-bit big-endian number.\<close>

definition len_bytes :: "nat \<Rightarrow> bytes" where
  "len_bytes n = map (\<lambda>i. ucast (drop_bit (8 * (7 - i)) (of_nat (8 * n) :: 64 word))) [0..<8]"

definition sha_pad :: "bytes \<Rightarrow> bytes" where
  "sha_pad m = m @ [0x80] @ replicate ((119 - length m mod 64) mod 64) 0 @ len_bytes (length m)"

fun be_words :: "bytes \<Rightarrow> w32 list" where
  "be_words (a # b # c # d # bs) =
     (push_bit 24 (ucast a) OR push_bit 16 (ucast b) OR push_bit 8 (ucast c) OR ucast d) # be_words bs"
| "be_words _ = []"

text \<open>The message schedule, grown from 16 words to 64; newest word first.\<close>

fun schedule :: "nat \<Rightarrow> w32 list \<Rightarrow> w32 list" where
  "schedule 0 ws = ws"
| "schedule (Suc n) ws =
     schedule n ((small_sigma1 (ws ! 1) + ws ! 6 + small_sigma0 (ws ! 14) + ws ! 15) # ws)"

fun sha_round :: "w32 \<times> w32 \<Rightarrow> w32 list \<Rightarrow> w32 list" where
  "sha_round (k, w) [a, b, c, d, e, f, g, h] =
     (let t1 = h + big_sigma1 e + ch e f g + k + w; t2 = big_sigma0 a + maj a b c
      in [t1 + t2, a, b, c, d + t1, e, f, g])"
| "sha_round _ st = st"

definition sha_block :: "w32 list \<Rightarrow> w32 list \<Rightarrow> w32 list" where
  "sha_block st block =
     map2 (+) st (fold sha_round (zip sha_k (rev (schedule 48 (rev block)))) st)"

function sha_blocks :: "w32 list \<Rightarrow> w32 list \<Rightarrow> w32 list" where
  "sha_blocks st ws = (if ws = [] then st else sha_blocks (sha_block st (take 16 ws)) (drop 16 ws))"
  by pat_completeness auto
termination
  by (relation "measure (\<lambda>(st, ws). length ws)") auto

declare sha_blocks.simps [simp del]

definition sha256 :: "bytes \<Rightarrow> w32 list" where
  "sha256 m = sha_blocks sha_h0 (be_words (sha_pad m))"

definition word_bytes :: "w32 \<Rightarrow> bytes" where
  "word_bytes w = map (\<lambda>i. ucast (drop_bit (8 * (3 - i)) w)) [0..<4]"

definition sha256_hexdigest :: "bytes \<Rightarrow> string" where
  "sha256_hexdigest m = concat (map (hex_word 8) (sha256 m))"

section \<open>HMAC-SHA-256\<close>

definition hmac_key :: "bytes \<Rightarrow> bytes" where
  "hmac_key key = (let k = (if 64 < length key then concat (map word_bytes (sha256 key)) else key)
     in k @ replicate (64 - length k) 0)"

definition hmac_sha256_hexdigest :: "bytes \<Rightarrow> bytes \<Rightarrow> string" where
  "hmac_sha256_hexdigest key msg =
     (let k = hmac_key key;
          inner = sha256 (map (\<lambda>b. b XOR 0x36) k @ msg)
      in sha256_hexdigest (map (\<lambda>b. b XOR 0x5c) k @ concat (map word_bytes inner)))"

section \<open>The shape of the digest\<close>

lemma length_sha_round: "length st = 8 \<Longrightarrow> length (sha_round kw st) = 8"
  by (cases "(kw, st)" rule: sha_round.cases) (simp_all add: Let_def)

lemma length_fold_sha_round: "length st = 8 \<Longrightarrow> length (fold sha_round kws st) = 8"
  by (induction kws arbitrary: st) (simp_all add: length_sha_round)

lemma length_sha_blocks: "length st = 8 \<Longrightarrow> length (sha_blocks st ws) = 8"
proof (induction st ws rule: sha_blocks.induct)
  case (1 st ws)
  then show ?case
    by (simp add: sha_blocks.simps [of st ws] sha_block_def length_fold_sha_round)
qed

lemma length_sha256 [simp]: "length (sha256 m) = 8"
  by (simp add: sha256_def length_sha_blocks sha_h0_def)

lemma length_concat_hex_word: "length (concat (map (hex_word n) ws)) = n * length ws"
  by (induction ws) simp_all

lemma length_sha256_hexdigest: "length (sha256_hexdigest m) = 64"
  by (simp add: sha256_hexdigest_def length_concat_hex_word)

lemma sha256_hexdigest_chars: "list_all is_hex_char (sha256_hexdigest m)"
  using hex_word_chars by (auto simp: sha256_hexdigest_def list_all_iff)

lemma length_concat_const: "(\<And>x. length (f x) = n) \<Longrightarrow> length (concat (map f xs)) = n * length xs"
  by (induction xs) simp_all

lemma length_hmac_key: "length (hmac_key key) = 64"
  by (simp add: hmac_key_def Let_def length_concat_const [of _ 4] word_bytes_def)

text \<open>The padded message fills whole blocks.\<close>

lemma length_sha_pad: "length (sha_pad m) mod 64 = 0"
proof -
  have "(k + 9 + (119 - k mod 64) mod 64) mod 64 = 0" for k :: nat
  proof -
    define r where "r = k mod 64"
    have "r < 64" by (simp add: r_def)
    have "(119 - r) mod 64 = (if r \<le> 55 then 55 - r else 119 - r)"
    proof (cases "r \<le> 55")
      case True
      then have "119 - r = 64 + (55 - r)" by simp
      then have "(119 - r) mod 64 = (55 - r) mod 64" by (simp only: mod_add_self1)
      with True show ?thesis by simp
    qed (use \<open>r < 64\<close> in simp)
    then have "r + 9 + (119 - r) mod 64 = 64 \<or> r + 9 + (119 - r) mod 64 = 2 * 64"
      using \<open>r < 64\<close> by auto
    then have "(r + 9 + (119 - r) mod 64) mod 64 = 0"
      by (elim disjE) (simp_all only: mod_self mod_mult_self2_is_0)
    moreover have "(k + 9 + (119 - r) mod 64) mod 64 = (r + (9 + (119 - r) mod 64)) mod 64"
      unfolding r_def by (simp only: add.assoc mod_add_left_eq)
    ultimately show ?thesis by (simp add: r_def add.assoc)
  qed
  from this [of "length m"] show ?thesis
    by (simp add: sha_pad_def len_bytes_def ac_simps)
qed

section \<open>What the clients rely on\<close>

locale hex_digest =
  fixes hexdigest :: "'m \<Rightarrow> string"
  assumes digest_length: "length (hexdigest m) = 64"
    and digest_chars: "list_all is_hex_char (hexdigest m)"
begin

lemma digest_ascii: "is_ascii (hexdigest m)"
  using digest_chars [of m] is_hex_char_ascii by (auto simp: is_ascii_def list_all_iff)

lemma digest_py_len: "py_len (hexdigest m) = 64"
  by (simp add: py_len_ascii digest_ascii digest_length)

lemma digest_no_nul: "no_nul (hexdigest m)"
  by (rule no_nul_hex [OF digest_chars])

lemma digest_no_colon: "CHR '':'' \<notin> set (hexdigest m)"
  using digest_chars [of m] is_hex_char_ascii by (auto simp: list_all_iff)

end

interpretation sha: hex_digest sha256_hexdigest
  by unfold_locales (rule length_sha256_hexdigest sha256_hexdigest_chars)+

interpretation hmac: hex_digest "\<lambda>(key, msg). hmac_sha256_hexdigest key msg"
  by unfold_locales
    (auto simp: hmac_sha256_hexdigest_def Let_def length_sha256_hexdigest sha256_hexdigest_chars)

end
