(* ===== verification/Signature.thy ===== *)
theory Signature
  imports Sha256 Errors
begin

text \<open>
  \<open>src/vcs_gateway/core/signature.py\<close>: GitHub HMAC signatures, GitLab tokens and the
  idempotency key. \<open>hmac.compare_digest\<close> on two \<open>str\<close> arguments raises \<open>TypeError\<close> unless
  both are ASCII; on \<open>bytes\<close> it compares.
\<close>

definition compare_digest_str :: "string \<Rightarrow> string \<Rightarrow> exn + bool" where
  "compare_digest_str a b = (if is_ascii a \<and> is_ascii b then Inr (a = b) else Inl TypeError)"

definition compare_digest_bytes :: "bytes \<Rightarrow> bytes \<Rightarrow> bool" where
  "compare_digest_bytes a b \<longleftrightarrow> a = b"

definition validate_github_signature :: "bytes \<Rightarrow> string \<Rightarrow> string \<Rightarrow> exn + bool" where
  "validate_github_signature payload_bytes secret signature_header =
     (if \<not> startswith signature_header ''sha256='' then Inr False
      else compare_digest_str
        (''sha256='' @ hmac_sha256_hexdigest (encode secret) payload_bytes) signature_header)"

definition validate_gitlab_token :: "string \<Rightarrow> string \<Rightarrow> bool" where
  "validate_gitlab_token token_header secret =
     compare_digest_bytes (encode token_header) (encode secret)"

text \<open>The text that is hashed, and the key.\<close>

definition pr_key_text ::
    "string \<Rightarrow> string \<Rightarrow> string \<Rightarrow> string \<Rightarrow> string \<Rightarrow> string \<Rightarrow> string \<Rightarrow> string" where
  "pr_key_text vcs_provider tenant_id repo_id pr_id vcs_instance_id action commit_sha =
     vcs_provider @ '':'' @ tenant_id @ '':'' @ repo_id @ '':'' @ pr_id @ '':'' @
     vcs_instance_id @ '':'' @ action @ '':'' @ commit_sha"

definition compute_pr_hash_key ::
    "string \<Rightarrow> string \<Rightarrow> string \<Rightarrow> string \<Rightarrow> string \<Rightarrow> string \<Rightarrow> string \<Rightarrow> string" where
  "compute_pr_hash_key vcs_provider tenant_id repo_id pr_id vcs_instance_id action commit_sha =
     sha256_hexdigest (encode
       (pr_key_text vcs_provider tenant_id repo_id pr_id vcs_instance_id action commit_sha))"

section \<open>Lemmas\<close>

lemma hmac_ascii: "is_ascii (hmac_sha256_hexdigest k m)"
  using hmac.digest_ascii [of "(k, m)"] by simp

lemma prefix_ascii: "is_ascii ''sha256=''"
  by (simp add: is_ascii_def is_ascii_char_def)

lemma github_signature_accepts:
  "validate_github_signature payload secret header = Inr True \<longleftrightarrow>
     header = ''sha256='' @ hmac_sha256_hexdigest (encode secret) payload"
proof
  assume "validate_github_signature payload secret header = Inr True"
  then show "header = ''sha256='' @ hmac_sha256_hexdigest (encode secret) payload"
    by (auto simp: validate_github_signature_def compare_digest_str_def split: if_splits)
next
  assume header: "header = ''sha256='' @ hmac_sha256_hexdigest (encode secret) payload"
  have "startswith header ''sha256=''" unfolding header by (rule startswith_append)
  moreover have "is_ascii header" unfolding header is_ascii_append using prefix_ascii hmac_ascii by blast
  ultimately show "validate_github_signature payload secret header = Inr True"
    unfolding validate_github_signature_def compare_digest_str_def header [symmetric] by simp
qed

lemma github_signature_raises:
  "validate_github_signature payload secret header = Inl e \<longleftrightarrow>
     e = TypeError \<and> startswith header ''sha256='' \<and> \<not> is_ascii header"
  using prefix_ascii hmac_ascii
  by (auto simp: validate_github_signature_def compare_digest_str_def simp del: append.simps
      simp: is_ascii_append [symmetric])

lemma gitlab_token_accepts: "validate_gitlab_token token secret \<longleftrightarrow> token = secret"
  by (simp add: validate_gitlab_token_def compare_digest_bytes_def)

lemma append_colon_inject:
  assumes "a @ CHR '':'' # x = b @ CHR '':'' # y" "CHR '':'' \<notin> set a" "CHR '':'' \<notin> set b"
  shows "a = b \<and> x = y"
proof -
  have "takeWhile (\<lambda>c. c \<noteq> CHR '':'') (a @ CHR '':'' # x) = a"
    and "takeWhile (\<lambda>c. c \<noteq> CHR '':'') (b @ CHR '':'' # y) = b"
    using assms(2,3) by (subst takeWhile_append2; auto)+
  then show ?thesis using assms(1) by (metis same_append_eq list.inject)
qed

definition colon_free :: "string \<Rightarrow> bool" where
  "colon_free s \<longleftrightarrow> CHR '':'' \<notin> set s"

lemma colon_free_uuid [simp]: "colon_free (uuid_str u)"
  by (simp add: colon_free_def uuid_str_no_colon)

lemma colon_free_py_str_int [simp]: "colon_free (py_str_int i)"
proof -
  have "c \<noteq> CHR '':''" if "c \<in> set (dec_nat n)" for c n
    using that dec_nat_digits [of n] by (auto simp: list_all_iff is_digit_char_def)
  then show ?thesis by (auto simp: colon_free_def py_str_int_def)
qed

lemma pr_key_text_inject:
  assumes "pr_key_text p t r n i a s = pr_key_text p' t' r' n' i' a' s'"
    and "list_all colon_free [p, t, r, n, i, a, p', t', r', n', i', a']"
  shows "p = p' \<and> t = t' \<and> r = r' \<and> n = n' \<and> i = i' \<and> a = a' \<and> s = s'"
  using assms unfolding pr_key_text_def colon_free_def
  by (simp, elim conjE) (drule append_colon_inject, assumption, assumption, elim conjE, simp)+

end
