(* ===== verification/Requests.thy ===== *)
theory Requests
  imports World "HOL-Library.Monad_Syntax"
begin

text \<open>
  \<open>src/vcs_gateway/models/requests.py\<close> (the pydantic models of webhook bodies),
  \<open>src/vcs_gateway/services/webhook_processor/payload_parser.py\<close> and
  \<open>.../event_filter.py\<close>. A model validates when every declared field is present and its
  value passes the validator of its type; the validators of \<open>int\<close>, \<open>str\<close> and \<open>dict\<close>
  are pydantic's (\<open>platform\<close>), as is the JSON parser of \<open>model_validate_json\<close>.
\<close>

section \<open>Models\<close>

record github_pull_request =
  gpr_number :: int
  gpr_title :: string
  gpr_user :: pydict
  gpr_html_url :: string
  gpr_head :: pydict
  gpr_base :: pydict

record github_repository =
  grp_id :: int
  grp_full_name :: string
  grp_html_url :: string

record github_payload =
  ghp_action :: string
  ghp_pull_request :: github_pull_request
  ghp_repository :: github_repository

record gitlab_object_attributes =
  goa_iid :: int
  goa_title :: string
  goa_url :: string
  goa_last_commit :: pydict
  goa_action :: string
  goa_author_id :: int

record gitlab_project =
  glp_id :: int
  glp_path_with_namespace :: string
  glp_web_url :: string

record gitlab_payload =
  gl_object_kind :: string
  gl_object_attributes :: gitlab_object_attributes
  gl_project :: gitlab_project
  gl_user :: pydict

record pull_request_data =
  pd_pr_id :: string
  pd_repo_id :: string
  pd_repo_name :: "string option"
  pd_pr_title :: string
  pd_pr_author :: string
  pd_pr_url :: string
  pd_commit_sha :: string
  pd_action :: string
  pd_vcs_instance_id :: string

section \<open>Validation\<close>

text \<open>A required field: present, and its value passes \<open>v\<close>.\<close>

definition required :: "pydict \<Rightarrow> string \<Rightarrow> (json \<Rightarrow> 'a option) \<Rightarrow> 'a option" where
  "required d name v = Option.bind (dict_get d name) v"

definition github_pull_request :: "platform \<Rightarrow> json \<Rightarrow> github_pull_request option" where
  "github_pull_request pf j = do {
     d \<leftarrow> pyd_dict pf j;
     number \<leftarrow> required d ''number'' (pyd_int pf);
     title \<leftarrow> required d ''title'' (pyd_str pf);
     user \<leftarrow> required d ''user'' (pyd_dict pf);
     html_url \<leftarrow> required d ''html_url'' (pyd_str pf);
     head \<leftarrow> required d ''head'' (pyd_dict pf);
     base \<leftarrow> required d ''base'' (pyd_dict pf);
     Some \<lparr>gpr_number = number, gpr_title = title, gpr_user = user, gpr_html_url = html_url,
           gpr_head = head, gpr_base = base\<rparr> }"

definition github_repository :: "platform \<Rightarrow> json \<Rightarrow> github_repository option" where
  "github_repository pf j = do {
     d \<leftarrow> pyd_dict pf j;
     i \<leftarrow> required d ''id'' (pyd_int pf);
     full_name \<leftarrow> required d ''full_name'' (pyd_str pf);
     html_url \<leftarrow> required d ''html_url'' (pyd_str pf);
     Some \<lparr>grp_id = i, grp_full_name = full_name, grp_html_url = html_url\<rparr> }"

definition github_payload :: "platform \<Rightarrow> json \<Rightarrow> github_payload option" where
  "github_payload pf j = do {
     d \<leftarrow> pyd_dict pf j;
     action \<leftarrow> required d ''action'' (pyd_str pf);
     pull_request \<leftarrow> required d ''pull_request'' (github_pull_request pf);
     repository \<leftarrow> required d ''repository'' (github_repository pf);
     Some \<lparr>ghp_action = action, ghp_pull_request = pull_request, ghp_repository = repository\<rparr> }"

definition gitlab_object_attributes :: "platform \<Rightarrow> json \<Rightarrow> gitlab_object_attributes option" where
  "gitlab_object_attributes pf j = do {
     d \<leftarrow> pyd_dict pf j;
     iid \<leftarrow> required d ''iid'' (pyd_int pf);
     title \<leftarrow> required d ''title'' (pyd_str pf);
     url \<leftarrow> required d ''url'' (pyd_str pf);
     last_commit \<leftarrow> required d ''last_commit'' (pyd_dict pf);
     action \<leftarrow> required d ''action'' (pyd_str pf);
     author_id \<leftarrow> required d ''author_id'' (pyd_int pf);
     Some \<lparr>goa_iid = iid, goa_title = title, goa_url = url, goa_last_commit = last_commit,
           goa_action = action, goa_author_id = author_id\<rparr> }"

definition gitlab_project :: "platform \<Rightarrow> json \<Rightarrow> gitlab_project option" where
  "gitlab_project pf j = do {
     d \<leftarrow> pyd_dict pf j;
     i \<leftarrow> required d ''id'' (pyd_int pf);
     path_with_namespace \<leftarrow> required d ''path_with_namespace'' (pyd_str pf);
     web_url \<leftarrow> required d ''web_url'' (pyd_str pf);
     Some \<lparr>glp_id = i, glp_path_with_namespace = path_with_namespace, glp_web_url = web_url\<rparr> }"

definition gitlab_payload :: "platform \<Rightarrow> json \<Rightarrow> gitlab_payload option" where
  "gitlab_payload pf j = do {
     d \<leftarrow> pyd_dict pf j;
     object_kind \<leftarrow> required d ''object_kind'' (pyd_str pf);
     object_attributes \<leftarrow> required d ''object_attributes'' (gitlab_object_attributes pf);
     project \<leftarrow> required d ''project'' (gitlab_project pf);
     user \<leftarrow> required d ''user'' (pyd_dict pf);
     Some \<lparr>gl_object_kind = object_kind, gl_object_attributes = object_attributes,
           gl_project = project, gl_user = user\<rparr> }"

text \<open>\<open>Model.model_validate_json(raw)\<close>.\<close>

definition model_validate_json :: "platform \<Rightarrow> (platform \<Rightarrow> json \<Rightarrow> 'a option) \<Rightarrow> bytes \<Rightarrow> exn + 'a" where
  "model_validate_json pf model raw =
     (case Option.bind (pyd_parse pf raw) (model pf) of None \<Rightarrow> Inl PydanticError | Some m \<Rightarrow> Inr m)"

section \<open>Normalisation\<close>

definition of_github :: "platform \<Rightarrow> github_payload \<Rightarrow> pull_request_data" where
  "of_github pf p =
     \<lparr>pd_pr_id = py_str_int (gpr_number (ghp_pull_request p)),
      pd_repo_id = py_str_int (grp_id (ghp_repository p)),
      pd_repo_name = Some (grp_full_name (ghp_repository p)),
      pd_pr_title = gpr_title (ghp_pull_request p),
      pd_pr_author = py_str (py_repr pf) (dict_get_or (gpr_user (ghp_pull_request p)) ''login'' (JStr '''')),
      pd_pr_url = gpr_html_url (ghp_pull_request p),
      pd_commit_sha = py_str (py_repr pf) (dict_get_or (gpr_head (ghp_pull_request p)) ''sha'' (JStr '''')),
      pd_action = ghp_action p,
      pd_vcs_instance_id = ''github.com''\<rparr>"

definition of_gitlab :: "platform \<Rightarrow> gitlab_payload \<Rightarrow> pull_request_data" where
  "of_gitlab pf p =
     \<lparr>pd_pr_id = py_str_int (goa_iid (gl_object_attributes p)),
      pd_repo_id = py_str_int (glp_id (gl_project p)),
      pd_repo_name = Some (glp_path_with_namespace (gl_project p)),
      pd_pr_title = goa_title (gl_object_attributes p),
      pd_pr_author = py_str (py_repr pf) (dict_get_or (gl_user p) ''username'' (JStr '''')),
      pd_pr_url = goa_url (gl_object_attributes p),
      pd_commit_sha = py_str (py_repr pf)
        (dict_get_or (goa_last_commit (gl_object_attributes p)) ''id'' (JStr '''')),
      pd_action = goa_action (gl_object_attributes p),
      pd_vcs_instance_id = ''gitlab.com''\<rparr>"

definition parse_payload :: "platform \<Rightarrow> string \<Rightarrow> bytes \<Rightarrow> exn + pull_request_data" where
  "parse_payload pf vcs_provider raw_payload =
     (if vcs_provider = ''github'' then
        map_sum id (of_github pf) (model_validate_json pf github_payload raw_payload)
      else if vcs_provider = ''gitlab'' then
        map_sum id (of_gitlab pf) (model_validate_json pf gitlab_payload raw_payload)
      else Inl (ValueError (''Unsupported vcs_provider: '' @ vcs_provider)))"

section \<open>Event filter\<close>

definition is_event_allowed :: "string \<Rightarrow> string \<Rightarrow> whitelist_entry list \<Rightarrow> bool" where
  "is_event_allowed event_type action whitelist =
     list_ex (\<lambda>w. wl_event_type w = event_type \<and> wl_event_action w = action) whitelist"

text \<open>\<open>a or b\<close> where \<open>None\<close> and the empty string are false.\<close>

definition opt_or :: "string option \<Rightarrow> string option \<Rightarrow> string option" where
  "opt_or a b = (case a of None \<Rightarrow> b | Some s \<Rightarrow> if s \<noteq> [] then Some s else b)"

definition extract_event_type :: "(string \<times> string) list \<Rightarrow> string" where
  "extract_event_type headers =
     (case opt_or (dict_get headers ''X-GitHub-Event'') (dict_get headers ''X-Gitlab-Event'') of
        None \<Rightarrow> '''' | Some e \<Rightarrow> if e \<noteq> [] then e else '''')"

section \<open>Lemmas\<close>

lemma parse_payload_numeric_ids:
  assumes "parse_payload pf p raw = Inr d"
  shows "(\<exists>i. pd_repo_id d = py_str_int i) \<and> (\<exists>n. pd_pr_id d = py_str_int n)"
  using assms
  by (cases "p = ''github''"; cases "p = ''gitlab''")
     (auto simp: parse_payload_def of_github_def of_gitlab_def model_validate_json_def
           split: option.splits)

lemma parse_payload_instance:
  assumes "parse_payload pf p raw = Inr d"
  shows "(p = ''github'' \<and> pd_vcs_instance_id d = ''github.com'') \<or>
         (p = ''gitlab'' \<and> pd_vcs_instance_id d = ''gitlab.com'')"
  using assms
  by (auto simp: parse_payload_def of_github_def of_gitlab_def model_validate_json_def
           split: option.splits if_splits)

lemma parse_payload_repo_name:
  "parse_payload pf p raw = Inr d \<Longrightarrow> \<exists>r. pd_repo_name d = Some r"
  by (auto simp: parse_payload_def of_github_def of_gitlab_def model_validate_json_def
           split: option.splits if_splits)

end
