(* ===== verification/Webhook_Processor.thy ===== *)
theory Webhook_Processor
  imports Outbox Signature Requests
begin

text \<open>
  The components of \<open>src/vcs_gateway/services/webhook_processor/\<close> that do I/O:
  \<open>tenant_validator.py\<close>, \<open>idempotency_checker.py\<close> and \<open>webhook_persister.py\<close> (the parser
  and the event filter are in \<open>Requests\<close>). The transaction of \<open>persist\<close>
  is one action: its statements await the server one by one, but until \<open>COMMIT\<close> no other
  connection sees any of them, and a second webhook with the same key waits at the unique index
  until the first has ended.
\<close>

section \<open>TenantValidator\<close>

definition dump_tenant :: "tenant \<Rightarrow> json" where
  "dump_tenant t = JObj
     [(''tenant_id'', JStr (uuid_str (tn_tenant_id t))),
      (''customer_id'', JStr (uuid_str (tn_customer_id t))),
      (''name'', JStr (tn_name t)),
      (''is_active'', JBool (tn_is_active t)),
      (''webhook_secret'', JStr (tn_webhook_secret t)),
      (''plan_type'', JStr (tn_plan_type t)),
      (''customer_plan_type'', case tn_customer_plan_type t of None \<Rightarrow> JNull | Some p \<Rightarrow> JStr p)]"

definition tenant_inactive :: exn where
  "tenant_inactive =
     Service (service_error ValidationError ''Tenant inactive'' (Some [(''code'', JStr ''TENANT_INACTIVE'')]))"

definition tenant_not_found :: "uuid \<Rightarrow> exn" where
  "tenant_not_found tenant_id =
     Service (service_error NotFoundError ''Tenant not found''
       (Some [(''tenant_id'', JStr (uuid_str tenant_id))]))"

text \<open>What the code makes of a cached document.\<close>

definition cached_secret :: "platform \<Rightarrow> json \<Rightarrow> exn + string" where
  "cached_secret pf cached =
     (case cached of
        JObj d \<Rightarrow>
          if \<not> truthy (dict_get_or d ''is_active'' JNull) then Inl tenant_inactive
          else (case dict_get d ''webhook_secret'' of
              None \<Rightarrow> Inl (KeyError ''webhook_secret'')
            | Some s \<Rightarrow> Inr (py_str (py_repr pf) s))
      | _ \<Rightarrow> Inl AttributeError)"

definition tenant_cache_ttl_seconds :: int where
  "tenant_cache_ttl_seconds = 300"

definition get_webhook_secret :: "platform \<Rightarrow> uuid \<Rightarrow> string io" where
  "get_webhook_secret pf tenant_id =
     and_then (get_tenant_cache pf tenant_id) (\<lambda>cached. case cached of
         Some j \<Rightarrow> Done (cached_secret pf j)
       | None \<Rightarrow> and_then (get_by_id tenant_id) (\<lambda>row. case row of
             None \<Rightarrow> throw (tenant_not_found tenant_id)
           | Some t \<Rightarrow>
               if \<not> tn_is_active t then throw tenant_inactive
               else and_then (set_tenant_cache pf tenant_id (dump_tenant t) tenant_cache_ttl_seconds)
                      (\<lambda>_. ret (tn_webhook_secret t))))"

section \<open>IdempotencyChecker\<close>

definition check :: "platform \<Rightarrow> int \<Rightarrow> string \<Rightarrow> string option io" where
  "check pf ttl pr_hash_key =
     and_then (get_idempotency_cache pr_hash_key) (\<lambda>cached. case cached of
         Some _ \<Rightarrow> ret (Some ''redis_cache'')
       | None \<Rightarrow> and_then (get_by_pr_hash_key pf pr_hash_key) (\<lambda>existing. case existing of
             Some _ \<Rightarrow> and_then (set_idempotency_cache pr_hash_key ttl) (\<lambda>_. ret (Some ''db_lookup''))
           | None \<Rightarrow> ret None))"

definition mark_processed :: "int \<Rightarrow> string \<Rightarrow> unit io" where
  "mark_processed ttl pr_hash_key = set_idempotency_cache pr_hash_key ttl"

section \<open>WebhookPersister\<close>

definition relevant_headers :: "string set" where
  "relevant_headers = {''X-Hub-Signature-256'', ''X-GitHub-Event'', ''X-Gitlab-Event'', ''Content-Type''}"

definition stored_headers :: "(string \<times> string) list \<Rightarrow> pydict" where
  "stored_headers headers =
     map (\<lambda>(k, v). (k, JStr v)) (filter (\<lambda>(k, v). k \<in> relevant_headers) headers)"

definition received_message ::
    "uuid \<Rightarrow> uuid \<Rightarrow> uuid \<Rightarrow> time \<Rightarrow> string \<Rightarrow> pull_request_data \<Rightarrow> string \<Rightarrow> json \<Rightarrow> webhook_received_message" where
  "received_message event_id correlation_id tenant_id timestamp vcs_provider pr pr_hash_key raw_json =
     \<lparr>ev_event_id = event_id, ev_event_type = ''vcs.webhook.received'',
      ev_correlation_id = correlation_id, ev_tenant_id = tenant_id, ev_timestamp = timestamp,
      wr_vcs_provider = vcs_provider, wr_vcs_instance_id = pd_vcs_instance_id pr,
      wr_repo_id = pd_repo_id pr, wr_repo_name = pd_repo_name pr, wr_pr_id = pd_pr_id pr,
      wr_pr_title = Some (pd_pr_title pr), wr_pr_author = Some (pd_pr_author pr),
      wr_pr_url = Some (pd_pr_url pr), wr_commit_sha = pd_commit_sha pr, wr_pr_action = pd_action pr,
      wr_pr_hash_key = pr_hash_key, wr_pr_version = 1, wr_raw_payload = raw_json\<rparr>"

text \<open>The 18 arguments of the insert; the columns with defaults are overwritten by it.\<close>

definition inbound_values ::
    "uuid \<Rightarrow> uuid \<Rightarrow> uuid \<Rightarrow> string \<Rightarrow> pull_request_data \<Rightarrow> string \<Rightarrow> json \<Rightarrow> pydict \<Rightarrow> inbound_event" where
  "inbound_values event_id correlation_id tenant_id vcs_provider pr pr_hash_key raw_json hdrs =
     \<lparr>ie_event_id = event_id, ie_correlation_id = correlation_id, ie_tenant_id = tenant_id,
      ie_vcs_provider = vcs_provider, ie_vcs_instance_id = pd_vcs_instance_id pr,
      ie_repo_id = pd_repo_id pr, ie_repo_name = pd_repo_name pr, ie_pr_id = pd_pr_id pr,
      ie_pr_title = Some (pd_pr_title pr), ie_pr_author = Some (pd_pr_author pr),
      ie_pr_url = Some (pd_pr_url pr), ie_commit_sha = pd_commit_sha pr, ie_action = pd_action pr,
      ie_pr_hash_key = pr_hash_key, ie_pr_version = 1, ie_processing_status = ''accepted'',
      ie_rejection_reason = None, ie_raw_payload = raw_json, ie_webhook_headers = Some (JObj hdrs),
      ie_created_at = 0, ie_updated_at = 0\<rparr>"

definition already_persisted :: "string \<Rightarrow> exn" where
  "already_persisted pr_hash_key =
     Service (service_error DuplicateError ''Webhook already persisted''
       (Some [(''pr_hash_key'', JStr pr_hash_key)]))"

fun is_unique_violation :: "exn \<Rightarrow> bool" where
  "is_unique_violation (UniqueViolationError _) = True"
| "is_unique_violation _ = False"

definition persist_body ::
    "platform \<Rightarrow> int \<Rightarrow> inbound_event \<Rightarrow> json \<Rightarrow> uuid io" where
  "persist_body pf debounce values outbox_payload =
     and_then (insert_inbound pf values) (\<lambda>_.
       schedule_event ''vcs.webhook.received'' (ie_correlation_id values) (ie_pr_hash_key values) 1
         outbox_payload (JObj [(''correlation_id'', JStr (uuid_str (ie_correlation_id values)))]) debounce)"

definition persist ::
    "platform \<Rightarrow> settings \<Rightarrow> uuid \<Rightarrow> string \<Rightarrow> uuid \<Rightarrow> pull_request_data \<Rightarrow> string \<Rightarrow> bytes \<Rightarrow>
     (string \<times> string) list \<Rightarrow> (uuid \<times> uuid) io" where
  "persist pf st tenant_id vcs_provider correlation_id pr_data pr_hash_key raw_payload headers =
     and_then uuid4 (\<lambda>event_id.
       case json_loads pf raw_payload of
         None \<Rightarrow> throw JSONDecodeError
       | Some raw_json \<Rightarrow>
           and_then utc_now (\<lambda>timestamp.
             if \<not> is_dict raw_json then throw PydanticError
             else on_error
               (and_then (transaction (persist_body pf (outbox_debounce_seconds st)
                   (inbound_values event_id correlation_id tenant_id vcs_provider pr_data pr_hash_key
                      raw_json (stored_headers headers))
                   (dump_webhook_received pf (received_message event_id correlation_id tenant_id
                      timestamp vcs_provider pr_data pr_hash_key raw_json))))
                 (\<lambda>outbox_id. ret (event_id, outbox_id)))
               (\<lambda>e. if is_unique_violation e then throw (already_persisted pr_hash_key) else throw e)))"

end
