(* ===== verification/Outbox_Proofs.thy ===== *)
theory Outbox_Proofs
  imports Outbox
begin

text \<open>
  The dispatch transaction under interference: every action of a publisher keeps the
  invariant of the service and leaves the transactions, locked rows and channels of the other
  publishers alone.
\<close>

section \<open>Transactions as an association list\<close>

definition other_locks :: "nat \<Rightarrow> world \<Rightarrow> uuid list" where
  "other_locks p w = concat (map (tx_locks \<circ> snd) (filter (\<lambda>e. fst e \<noteq> p) (w_txs w)))"

lemma map_of_filter_other:
  "map_of (filter (\<lambda>e. fst e \<noteq> p) l) q = (if q = p then None else map_of l q)"
  by (induction l) auto

lemma tx_of_set_tx [simp]: "tx_of (set_tx p x w) q = (if q = p then Some x else tx_of w q)"
  by (simp add: tx_of_def set_tx_def map_of_filter_other)

lemma tx_of_end_tx [simp]: "tx_of (end_tx p w) q = (if q = p then None else tx_of w q)"
  by (simp add: tx_of_def end_tx_def map_of_filter_other)

lemma locked_ids_set_tx [simp]: "locked_ids (set_tx p x w) = tx_locks x @ other_locks p w"
  by (simp add: locked_ids_def set_tx_def other_locks_def)

lemma locked_ids_end_tx [simp]: "locked_ids (end_tx p w) = other_locks p w"
  by (simp add: locked_ids_def end_tx_def other_locks_def)

lemma other_locks_subset: "set (other_locks p w) \<subseteq> set (locked_ids w)"
  by (auto simp: other_locks_def locked_ids_def)

lemma distinct_other_locks: "distinct (locked_ids w) \<Longrightarrow> distinct (other_locks p w)"
proof -
  have "set (concat (map (tx_locks \<circ> snd) (filter (\<lambda>e. fst e \<noteq> p) l))) \<subseteq>
      set (concat (map (tx_locks \<circ> snd) l))" for l
    by auto
  then have "distinct (concat (map (tx_locks \<circ> snd) l)) \<Longrightarrow>
      distinct (concat (map (tx_locks \<circ> snd) (filter (\<lambda>e. fst e \<noteq> p) l)))" for l
    by (induction l) (simp_all, blast)
  then show "distinct (locked_ids w) \<Longrightarrow> distinct (other_locks p w)"
    unfolding other_locks_def locked_ids_def .
qed

lemma own_locks_disjoint:
  assumes "distinct (locked_ids w)" and "tx_of w p = Some x"
  shows "distinct (tx_locks x) \<and> set (tx_locks x) \<inter> set (other_locks p w) = {}"
proof -
  have "distinct (concat (map (tx_locks \<circ> snd) l)) \<Longrightarrow> map_of l p = Some x \<Longrightarrow>
      distinct (tx_locks x) \<and>
      set (tx_locks x) \<inter> set (concat (map (tx_locks \<circ> snd) (filter (\<lambda>e. fst e \<noteq> p) l))) = {}" for l
  proof (induction l)
    case (Cons e l)
    have "x \<in> snd ` set l" if "map_of l p = Some x"
      using that by (force dest: map_of_SomeD)
    with Cons show ?case by (fastforce split: if_splits)
  qed simp
  then show ?thesis using assms by (simp add: locked_ids_def tx_of_def other_locks_def)
qed

lemma tx_of_in_txs: "tx_of w p = Some x \<Longrightarrow> x \<in> snd ` set (w_txs w)"
  by (force simp: tx_of_def dest: map_of_SomeD)

section \<open>Steps of the owner\<close>

definition own :: "nat \<Rightarrow> tx \<Rightarrow> world \<Rightarrow> bool" where
  "own p x w \<longleftrightarrow> Inv w \<and> tx_of w p = Some x"

lemma own_stable: "own p x w \<Longrightarrow> rely (Pub p) w w' \<Longrightarrow> own p x w'"
  by (simp add: own_def rely_def frame_def)

lemma own_rows_stable:
  "own p x w \<Longrightarrow> rely (Pub p) w w' \<Longrightarrow> i \<in> set (tx_locks x) \<Longrightarrow> row_of w' i = row_of w i"
  by (simp add: own_def rely_def frame_def)

lemma own_facts:
  assumes "own p x w"
  shows "tx_ok w x" "distinct (tx_locks x)" "set (tx_locks x) \<inter> set (other_locks p w) = {}"
proof -
  have txs: "txs_ok w" and x: "tx_of w p = Some x" using assms by (simp_all add: own_def Inv_def)
  then show "tx_ok w x" using tx_of_in_txs [OF x] unfolding txs_ok_def by blast
  have "distinct (locked_ids w)" using txs by (simp add: txs_ok_def)
  from own_locks_disjoint [OF this x]
  show "distinct (tx_locks x)" "set (tx_locks x) \<inter> set (other_locks p w) = {}" by blast+
qed

text \<open>Replacing the own transaction, or dropping it.\<close>

lemma set_tx_views [simp]:
  "hash_keys (set_tx p x w) = hash_keys w" "tx_ok (set_tx p x w) = tx_ok w"
  "message_ok (set_tx p x w) = message_ok w" "row_of (set_tx p x w) = row_of w"
  "tables_ok (set_tx p x w) = tables_ok w" "w_published (set_tx p x w) = w_published w"
  "w_publishers (set_tx p x w) = w_publishers w" "cache_ok (set_tx p x w) = cache_ok w"
  "sent_ok (set_tx p x w) = sent_ok w"
  by (simp_all add: set_tx_def hash_keys_def tx_ok_def message_ok_def row_of_def tables_ok_def
      cache_ok_def sent_ok_def fun_eq_iff)

lemma set_tx_guarantee:
  assumes "Inv w" and "tx_ok w x" and "distinct (tx_locks x)"
    and "set (tx_locks x) \<inter> set (other_locks p w) = {}"
  shows "guarantee (Pub p) w (set_tx p x w)"
proof -
  have "distinct (map fst (w_txs (set_tx p x w)))"
    using assms(1) by (auto simp: set_tx_def Inv_def txs_ok_def distinct_map_filter)
  moreover have "distinct (locked_ids (set_tx p x w))"
    using assms distinct_other_locks by (simp add: Inv_def txs_ok_def)
  moreover have "\<forall>y \<in> snd ` set (w_txs (set_tx p x w)). tx_ok w y"
    using assms(1,2) by (auto simp: set_tx_def Inv_def txs_ok_def)
  ultimately have "Inv (set_tx p x w)"
    using assms(1) by (simp add: Inv_def txs_ok_def)
  moreover have "grows w (set_tx p x w)"
    using progress_self by (simp add: grows_def set_tx_def)
  ultimately show ?thesis by (simp add: guarantee_def frame_def)
qed

lemma set_tx_same_locks:
  assumes "own p x w" and "tx_ok w x'" and "tx_locks x' = tx_locks x"
  shows "guarantee (Pub p) w (set_tx p x' w)"
  by (rule set_tx_guarantee) (use assms own_facts [OF assms(1)] in \<open>simp_all add: own_def\<close>)

lemma abort_tx_guarantee:
  assumes "own p x w"
  shows "guarantee (Pub p) w (abort_tx p w)" "own p (x\<lparr>tx_aborted := True\<rparr>) (abort_tx p w)"
    "row_of (abort_tx p w) = row_of w"
proof -
  have eq: "abort_tx p w = set_tx p (x\<lparr>tx_aborted := True\<rparr>) w"
    using assms by (simp add: abort_tx_def own_def)
  show g: "guarantee (Pub p) w (abort_tx p w)"
    unfolding eq by (rule set_tx_guarantee) (use assms own_facts [OF assms] in \<open>simp_all add: own_def tx_ok_def\<close>)
  then show "own p (x\<lparr>tx_aborted := True\<rparr>) (abort_tx p w)"
    using assms by (simp add: own_def guarantee_def eq)
  show "row_of (abort_tx p w) = row_of w" by (simp add: eq)
qed

lemma Inv_bump [simp]: "Inv (w\<lparr>w_db_calls := n\<rparr>) = Inv w"
proof
  assume "Inv (w\<lparr>w_db_calls := n\<rparr>)"
  then show "Inv w" using quiet_step [of "w\<lparr>w_db_calls := n\<rparr>" w] by (simp add: quiet_def)
next
  assume "Inv w"
  then show "Inv (w\<lparr>w_db_calls := n\<rparr>)" using quiet_step [OF bump_quiet(1)] by blast
qed

lemma own_bump [simp]: "own p x (w\<lparr>w_db_calls := n\<rparr>) = own p x w"
  by (simp add: own_def tx_of_def)

lemma row_of_bump [simp]: "row_of (w\<lparr>w_db_calls := n\<rparr>) = row_of w"
  by (simp add: row_of_def fun_eq_iff)

lemma tx_of_bump [simp]: "tx_of (w\<lparr>w_db_calls := n\<rparr>) = tx_of w"
  by (simp add: tx_of_def fun_eq_iff)

text \<open>
  A statement of the own transaction. On an error the transaction is as it was, up to its
  aborted flag, and so are the rows it has locked.
\<close>

lemma spec_tx_stmt:
  assumes own: "own p x w"
    and good: "\<And>w' a x'. own p x w' \<Longrightarrow> (\<forall>i \<in> set (tx_locks x). row_of w' i = row_of w i) \<Longrightarrow>
      grows w w' \<Longrightarrow> f x w' = (Inr a, x') \<Longrightarrow> guarantee (Pub p) w' (set_tx p x' w')"
    and ok: "\<And>w' a x' w''. own p x w' \<Longrightarrow> (\<forall>i \<in> set (tx_locks x). row_of w' i = row_of w i) \<Longrightarrow>
      f x w' = (Inr a, x') \<Longrightarrow> own p x' w'' \<Longrightarrow>
      (\<forall>i \<in> set (tx_locks x'). row_of w'' i = row_of w' i) \<Longrightarrow> Q (Inr a) w''"
    and err: "\<And>e x' w''. x' = x \<or> x' = x\<lparr>tx_aborted := True\<rparr> \<Longrightarrow> own p x' w'' \<Longrightarrow>
      (\<forall>i \<in> set (tx_locks x). row_of w'' i = row_of w i) \<Longrightarrow> Q (Inl e) w''"
  shows "spec (Pub p) (atomic (tx_stmt p f)) Q w"
proof (rule wp_atomic)
  fix w' assume w': "rely (Pub p) w w'"
  define v where "v = w'\<lparr>w_db_calls := Suc (w_db_calls w')\<rparr>"
  have v: "own p x v" "guarantee (Pub p) w' v" "\<forall>i \<in> set (tx_locks x). row_of v i = row_of w i"
    using own_stable [OF own w'] own_rows_stable [OF own w']
    by (simp_all add: v_def neutral_guarantee quiet_neutral)
  have "Inv w" using own by (simp add: own_def)
  then have grows: "grows w v" using rely_grows [OF w'] by (simp add: v_def grows_def)
  note abort = abort_tx_guarantee [OF v(1)]
  consider (same) e where "tx_stmt p f w' = (Inl e, v)"
    | (abort) e where "tx_stmt p f w' = (Inl e, abort_tx p v)"
    | (ok) a x' where "f x v = (Inr a, x')" "tx_stmt p f w' = (Inr a, set_tx p x' v)"
  proof -
    have x: "tx_of v p = Some x" using v(1) by (simp add: own_def)
    note unfolded = tx_stmt_def Let_def v_def [symmetric] x
    show thesis
    proof (cases "tx_aborted x")
      case True
      then show thesis using same unfolding unfolded by simp
    next
      case False
      show thesis
      proof (cases "w_db_faults w' (w_db_calls w')")
        case NoFault
        with False abort ok show thesis
          unfolding unfolded by (cases "f x v"; cases "fst (f x v)") auto
      next
        case (Fault ap ca)
        with False abort show thesis unfolding unfolded by simp
      qed
    qed
  qed
  then have cases: "guarantee (Pub p) w' (snd (tx_stmt p f w')) \<and>
     (\<forall>w''. rely (Pub p) (snd (tx_stmt p f w')) w'' \<longrightarrow> Q (fst (tx_stmt p f w')) w'')"
  proof cases
    case same
    then show ?thesis
      using v own_stable [OF v(1)] own_rows_stable [OF v(1)] by (auto intro: err)
  next
    case abort': abort
    then show ?thesis
      using v abort guarantee_trans [OF v(2) abort(1)] own_stable [OF abort(2)] own_rows_stable [OF abort(2)]
      by (auto intro: err)
  next
    case ok': ok
    have g: "guarantee (Pub p) v (set_tx p x' v)" using v(1,3) grows ok'(1) by (rule good)
    then have own': "own p x' (set_tx p x' v)"
      using v(1) by (simp add: own_def guarantee_def)
    have "Q (Inr a) w''" if "rely (Pub p) (set_tx p x' v) w''" for w''
      by (rule ok [OF v(1) v(3) ok'(1) own_stable [OF own' that]])
         (use own_rows_stable [OF own' that] in simp)
    then show ?thesis using ok'(2) guarantee_trans [OF v(2) g] by simp
  qed
  then show "guarantee (Pub p) w' (snd (tx_stmt p f w'))" by blast
  fix w'' assume "rely (Pub p) (snd (tx_stmt p f w')) w''"
  with cases show "Q (fst (tx_stmt p f w')) w''" by blast
qed

section \<open>Actions outside the transaction\<close>

text \<open>What the publisher's own channel handling leaves as it was.\<close>

definition calm :: "nat \<Rightarrow> world \<Rightarrow> world \<Rightarrow> bool" where
  "calm p w w' \<longleftrightarrow> (Inv w \<longrightarrow> Inv w' \<and> grows w w' \<and> tx_of w' p = tx_of w p \<and>
     (\<forall>x. tx_of w p = Some x \<longrightarrow> (\<forall>i \<in> set (tx_locks x). row_of w' i = row_of w i)))"

lemma calm_trans: "calm p u v \<Longrightarrow> calm p v w \<Longrightarrow> calm p u w"
  unfolding calm_def using grows_trans by auto

lemma rely_calm: "rely (Pub p) w w' \<Longrightarrow> calm p w w'"
  by (simp add: rely_def calm_def frame_def)

definition tranquil :: "nat \<Rightarrow> 'a io \<Rightarrow> bool" where
  "tranquil p q \<longleftrightarrow> (\<forall>w. spec (Pub p) q (\<lambda>_. calm p w) w)"

lemma spec_tranquil:
  assumes "tranquil p q" and "\<And>r w'. calm p w w' \<Longrightarrow> Q r w'"
  shows "spec (Pub p) q Q w"
  by (rule wp_consequence [OF assms(1) [unfolded tranquil_def, rule_format]]) (rule assms(2))

lemma harmless_tranquil: "harmless q \<Longrightarrow> tranquil p q"
  unfolding tranquil_def by (blast intro: spec_harmless rely_calm)

lemma tranquil_attempt:
  assumes "tranquil p q" and "\<And>r. tranquil p (h r)"
  shows "tranquil p (attempt q h)"
  unfolding tranquil_def
proof (intro allI wp_attempt spec_tranquil [OF assms(1)] spec_tranquil [OF assms(2)])
qed (rule calm_trans)

lemma tranquil_Done: "tranquil p (Done r)"
  by (intro harmless_tranquil harmless_intros)

lemma tranquil_and_then: "tranquil p q \<Longrightarrow> (\<And>x. tranquil p (k x)) \<Longrightarrow> tranquil p (and_then q k)"
  unfolding and_then_def by (auto intro!: tranquil_attempt tranquil_Done split: sum.split)

lemma tranquil_set_publisher: "tranquil p (set_publisher p s)"
  unfolding tranquil_def set_publisher_def
proof (intro allI wp_atomic)
  fix w w' assume w': "rely (Pub p) w w'"
  let ?w = "w'\<lparr>w_publishers := (w_publishers w')(p := s)\<rparr>"
  have same: "hash_keys ?w = hash_keys w'" "locked_ids ?w = locked_ids w'" "tx_ok ?w = tx_ok w'"
    "message_ok ?w = message_ok w'" "tx_of ?w = tx_of w'" "row_of ?w = row_of w'"
    by (simp_all add: hash_keys_def locked_ids_def tx_ok_def message_ok_def tx_of_def row_of_def fun_eq_iff)
  then have Inv: "Inv ?w = Inv w'"
    by (simp add: Inv_def tables_ok_def cache_ok_def txs_ok_def sent_ok_def)
  have grows: "grows w' ?w" using progress_self by (simp add: grows_def)
  have "guarantee (Pub p) w' ?w"
    using Inv grows same by (simp add: guarantee_def frame_def)
  then show "guarantee (Pub p) w' (snd ((Inr (), ?w) :: (exn + unit) \<times> world))" by simp
  have "calm p w' ?w" using Inv grows same by (simp add: calm_def)
  then show "calm p w w''" if "rely (Pub p) (snd ((Inr (), ?w) :: (exn + unit) \<times> world)) w''" for w''
    using that w' calm_trans rely_calm by (metis snd_conv)
qed

lemma tranquil_reset_channel: "tranquil p (reset_channel p)"
  by (simp add: reset_channel_def tranquil_set_publisher)

lemma harmless_get_publisher [harmless_intros]: "harmless (get_publisher p)"
  unfolding get_publisher_def by (rule harmless_atomic) simp

lemma harmless_sleep [harmless_intros]: "harmless sleep"
  unfolding sleep_def by (rule harmless_atomic) (simp add: quiet_neutral quiet_def)

lemma tranquil_cached_exchange: "tranquil p (cached_exchange p name)"
  unfolding cached_exchange_def
  by (auto intro!: tranquil_and_then tranquil_set_publisher tranquil_Done
      harmless_tranquil [OF harmless_get_publisher] harmless_tranquil [OF harmless_open_channel]
      harmless_tranquil [OF harmless_get_exchange] split: option.split)

section \<open>Rows of a batch\<close>

text \<open>
  \<open>batch p rs x w\<close>: publisher \<open>p\<close> owns the transaction \<open>x\<close>, which has locked the rows
  \<open>rs\<close>, has read their current contents and has not written them yet.
\<close>

definition batch :: "nat \<Rightarrow> outbox_event list \<Rightarrow> tx \<Rightarrow> world \<Rightarrow> bool" where
  "batch p rs x w \<longleftrightarrow> own p x w \<and> distinct (map oe_outbox_id rs) \<and>
     (\<forall>r \<in> set rs. oe_outbox_id r \<in> set (tx_locks x) \<and> row_of w (oe_outbox_id r) = Some r \<and>
        oe_outbox_id r \<notin> fst ` set (tx_writes x))"

lemma batch_own: "batch p rs x w \<Longrightarrow> own p x w"
  by (simp add: batch_def)

lemma calm_own: "own p x w \<Longrightarrow> calm p w w' \<Longrightarrow> own p x w'"
  by (simp add: own_def calm_def)

lemma calm_batch: "batch p rs x w \<Longrightarrow> calm p w w' \<Longrightarrow> batch p rs x w'"
  by (auto simp: batch_def own_def calm_def)

lemma batch_stable: "batch p rs x w \<Longrightarrow> rely (Pub p) w w' \<Longrightarrow> batch p rs x w'"
  by (blast intro: calm_batch rely_calm)

lemma batch_aborted: "batch p rs x w \<Longrightarrow> own p x' w' \<Longrightarrow> x' = x \<or> x' = x\<lparr>tx_aborted := a\<rparr> \<Longrightarrow>
    (\<forall>i \<in> set (tx_locks x). row_of w' i = row_of w i) \<Longrightarrow> batch p rs x' w'"
  unfolding batch_def by (elim conjE disjE) simp_all

lemma row_of_Some: "row_of w i = Some r \<Longrightarrow> r \<in> set (w_outbox w) \<and> oe_outbox_id r = i"
  by (auto simp: row_of_def find_Some_iff in_set_conv_nth)

lemma row_of_unique:
  assumes "tables_ok w" and "r \<in> set (w_outbox w)" and "row_of w (oe_outbox_id r) = Some r'"
  shows "r' = r"
proof -
  have "inj_on oe_outbox_id (set (w_outbox w))"
    using assms(1) by (simp add: tables_ok_def distinct_map)
  then show ?thesis using row_of_Some [OF assms(3)] assms(2) by (auto dest: inj_onD)
qed

end
