(* ===== verification/Outbox_Batch.thy ===== *)
theory Outbox_Batch
  imports Outbox_Proofs
begin

text \<open>
  The publisher's programs keep the invariant under interference: the steps of a row, the
  commit of a batch, a turn of \<open>run\<close>.
\<close>

section \<open>Outcomes\<close>

text \<open>Publisher \<open>p\<close> owns a transaction; in it, the rows \<open>rs\<close> are still to be written.\<close>

definition owns :: "nat \<Rightarrow> world \<Rightarrow> bool" where
  "owns p w \<longleftrightarrow> (\<exists>x. own p x w)"

definition pending :: "nat \<Rightarrow> outbox_event list \<Rightarrow> world \<Rightarrow> bool" where
  "pending p rs w \<longleftrightarrow> (\<exists>x. batch p rs x w)"

definition outcome :: "(world \<Rightarrow> bool) \<Rightarrow> (world \<Rightarrow> bool) \<Rightarrow> exn + 'a \<Rightarrow> world \<Rightarrow> bool" where
  "outcome A B res w \<longleftrightarrow> (case res of Inl _ \<Rightarrow> A w | Inr _ \<Rightarrow> B w)"

lemma outcome_simps [simp]: "outcome A B (Inl e) w = A w" "outcome A B (Inr a) w = B w"
  by (simp_all add: outcome_def)

lemma owns_stable: "owns p w \<Longrightarrow> rely (Pub p) w w' \<Longrightarrow> owns p w'"
  unfolding owns_def using own_stable by blast

lemma pending_stable: "pending p rs w \<Longrightarrow> rely (Pub p) w w' \<Longrightarrow> pending p rs w'"
  unfolding pending_def using batch_stable by blast

lemma pending_calm: "pending p rs w \<Longrightarrow> calm p w w' \<Longrightarrow> pending p rs w'"
  unfolding pending_def using calm_batch by blast

lemma pending_owns: "pending p rs w \<Longrightarrow> owns p w"
  unfolding pending_def owns_def using batch_own by blast

lemma spec_then:
  assumes "spec a q (outcome A B) w"
    and "\<And>w'. B w' \<Longrightarrow> (\<And>x. spec a (k x) (outcome C D) w')" and "\<And>w'. A w' \<Longrightarrow> C w'"
  shows "spec a (and_then q k) (outcome C D) w"
proof (rule wp_and_then, rule wp_consequence [OF assms(1)], goal_cases)
  case (1 r w')
  then show ?case using assms(2,3) by (cases r) auto
qed

lemma spec_outcome:
  assumes "spec a q (outcome A B) w" and "\<And>w'. A w' \<Longrightarrow> C w'" and "\<And>w'. B w' \<Longrightarrow> D w'"
  shows "spec a q (outcome C D) w"
  by (rule wp_consequence [OF assms(1)]) (use assms(2,3) in \<open>auto simp: outcome_def split: sum.splits\<close>)

section \<open>Statements on a row\<close>

lemma tx_ok_append:
  assumes "tables_ok w" and x: "tx_ok w x" and "i \<in> set (tx_locks x)" "i \<notin> fst ` set (tx_writes x)"
    and "row_of w i = Some r" "write_ok (w_published w) wr r"
  shows "tx_ok w (x\<lparr>tx_writes := tx_writes x @ [(i, wr)]\<rparr>)"
proof -
  have "write_ok (w_published w) wr r'" if "r' \<in> set (w_outbox w)" "oe_outbox_id r' = i" for r'
    using row_of_unique [OF assms(1) that(1)] that(2) assms(5,6) by simp
  then show ?thesis using x assms(3,4) by (auto simp: tx_ok_def)
qed

lemma batch_written:
  assumes "batch p (r # rs) x w" and "own p (x\<lparr>tx_writes := tx_writes x @ [(oe_outbox_id r, wr)]\<rparr>) w'"
    and "\<forall>i \<in> set (tx_locks x). row_of w' i = row_of w i"
  shows "batch p rs (x\<lparr>tx_writes := tx_writes x @ [(oe_outbox_id r, wr)]\<rparr>) w'"
  using assms by (auto simp: batch_def image_iff)

lemma spec_mark:
  assumes p: "pending p (r # rs) w" and ok: "\<And>x. write_ok (w_published w) (wr x) r"
  shows "spec (Pub p) (mark p (oe_outbox_id r) wr) (outcome (pending p (r # rs)) (pending p rs)) w"
proof -
  obtain x where b: "batch p (r # rs) x w" using p by (auto simp: pending_def)
  show ?thesis
    unfolding mark_def
  proof (rule spec_tx_stmt [OF batch_own [OF b]], goal_cases)
    case (1 w' a x')
    have r: "oe_outbox_id r \<in> set (tx_locks x)" "oe_outbox_id r \<notin> fst ` set (tx_writes x)"
      "row_of w' (oe_outbox_id r) = Some r"
      using b 1(2) by (simp_all add: batch_def)
    have wr: "write_ok (w_published w') (wr x) r"
      using 1(3) ok write_ok_grows unfolding grows_def by metis
    have "tables_ok w'" using 1(1) by (simp add: own_def Inv_def)
    then have "tx_ok w' (x\<lparr>tx_writes := tx_writes x @ [(oe_outbox_id r, wr x)]\<rparr>)"
      by (rule tx_ok_append [OF _ own_facts(1) [OF 1(1)] r wr])
    then show ?case using 1 by (auto intro: set_tx_same_locks)
  next
    case (2 w' a x' w'')
    then have "batch p rs x' w''"
      using batch_written [OF b, of "wr x" w''] by auto
    then show ?case by (auto simp: pending_def)
  next
    case (3 e x' w'')
    then have "batch p (r # rs) x' w''"
      by (intro batch_aborted [OF b]) auto
    then show ?case by (auto simp: pending_def)
  qed
qed

text \<open>Publishing a locked row: the message on the wire is the row's, and it stays there.\<close>

definition sent :: "nat \<Rightarrow> outbox_event \<Rightarrow> outbox_event list \<Rightarrow> world \<Rightarrow> bool" where
  "sent p r rs w \<longleftrightarrow> pending p (r # rs) w \<and> on_broker (w_published w) r"

lemma pending_Inv: "pending p rs w \<Longrightarrow> Inv w"
  by (auto simp: pending_def batch_def own_def)

lemma sent_stable:
  assumes "sent p r rs w" and "rely (Pub p) w w'"
  shows "sent p r rs w'"
proof -
  have p: "pending p (r # rs) w" using assms(1) by (simp add: sent_def)
  have "grows w w'" by (rule rely_grows [OF assms(2) pending_Inv [OF p]])
  then show ?thesis
    using assms pending_stable [OF p] by (auto simp: sent_def grows_def)
qed

lemma spec_publish_row:
  assumes p: "pending p (r # rs) w"
  shows "spec (Pub p) (publish_row p exchange r) (outcome (pending p (r # rs)) (pending p rs)) w"
proof -
  have r: "r \<in> set (w_outbox w')" "Inv w'" if "rely (Pub p) w w'" for w'
    using pending_stable [OF p that] row_of_Some by (auto simp: pending_def batch_def own_def)
  obtain hs where hs: "oe_headers r = JObj hs"
    using r [OF R_refl] by (auto simp: Inv_def tables_ok_def list_all_iff outbox_ok_def)
  let ?f = "\<lambda>w. if fst exchange \<in> set (w_open_channels w)
     then (Inr (), w\<lparr>w_published := w_published w @
            [\<lparr>bm_exchange = snd exchange, bm_routing_key = oe_event_type r, bm_body = oe_payload r,
              bm_content_type = ''application/json'', bm_headers = hs\<rparr>]\<rparr>)
     else (Inl AmqpError, w)"
  have step: "neutral w' (snd (?f w'))" if "rely (Pub p) w w'" for w'
    using r [OF that] by (auto intro!: neutral_publish simp: message_ok_def)
  have kept: "pending p (r # rs) w''" if "rely (Pub p) w w'" "rely (Pub p) (snd (?f w')) w''" for w' w''
    using pending_stable [OF p] that step [OF that(1)] neutral_rely R_trans by blast
  have arrived: "sent p r rs w''" if "rely (Pub p) w w'" "rely (Pub p) (snd (?f w')) w''" "fst (?f w') = Inr u"
    for w' w'' and u :: unit
  proof (rule sent_stable [OF _ that(2)])
    have "on_broker (w_published (snd (?f w'))) r"
      using that(3) hs by (auto simp: on_broker_def split: if_splits)
    then show "sent p r rs (snd (?f w'))" using kept [OF that(1) R_refl] by (simp add: sent_def)
  qed
  have publish: "spec (Pub p) (exchange_publish exchange (oe_event_type r) (oe_payload r) hs)
      (outcome (pending p (r # rs)) (sent p r rs)) w"
    unfolding exchange_publish_def
  proof (rule spec_amqp_call, goal_cases)
    case (1 w')
    show ?case by (rule neutral_guarantee [OF step [OF 1]])
  next
    case (2 w' w'')
    then show ?case
      using kept [of w' w''] arrived [of w' w''] by (cases "fst (?f w')") simp_all
  next
    case (3 e w' w'')
    then show ?case using pending_stable [OF p] R_trans by auto
  next
    case (4 e w' w'')
    then have "pending p (r # rs) w''" by (rule kept)
    then show ?case by simp
  qed
  show ?thesis
    unfolding publish_row_def hs json.case mark_dispatched_def
    by (rule spec_then [OF publish]) (simp_all add: spec_mark sent_def)
qed

lemma spec_dispatch_failed:
  assumes p: "pending p (r # rs) w"
  shows "spec (Pub p) (dispatch_failed pf p r e) (outcome (owns p) (pending p rs)) w"
proof -
  have mark: "spec (Pub p) (mark p (oe_outbox_id r) wr) (outcome (owns p) (pending p rs)) w'"
    if "pending p (r # rs) w'" "\<And>x. write_ok (w_published w') (wr x) r" for wr w'
    by (rule spec_outcome [OF spec_mark [OF that]]) (simp_all add: pending_owns)
  have reset: "spec (Pub p) (reset_channel p) (outcome (owns p) (pending p rs)) w'"
    if "pending p rs w'" for w'
    by (rule spec_tranquil [OF tranquil_reset_channel])
       (use pending_calm [OF that] pending_owns in \<open>auto simp: outcome_def split: sum.split\<close>)
  have now: "spec (Pub p) utc_now (outcome (owns p) (pending p (r # rs))) w"
    by (rule spec_harmless [OF harmless_utc_now])
       (use pending_stable [OF p] pending_owns in \<open>auto simp: outcome_def split: sum.split\<close>)
  show ?thesis
    unfolding dispatch_failed_def mark_failed_def mark_retry_def
    by (rule spec_then [where A = "owns p" and B = "pending p rs"])
       (auto intro!: mark p spec_then [OF now] reset)
qed

section \<open>Savepoints\<close>

lemma spec_savepoint_stmt:
  assumes p: "pending p rs w" and f: "\<And>x w. \<exists>a. f x w = (Inr a, x)"
  shows "spec (Pub p) (atomic (tx_stmt p f)) (outcome (owns p) (pending p rs)) w"
proof -
  obtain x where b: "batch p rs x w" using p by (auto simp: pending_def)
  show ?thesis
  proof (rule spec_tx_stmt [OF batch_own [OF b]], goal_cases)
    case (1 w' a x')
    then have "x' = x" using f [of x w'] by auto
    then show ?case using own_facts [OF 1(1)] set_tx_same_locks [OF 1(1)] by simp
  next
    case (2 w' a x' w'')
    then have "x' = x" using f [of x w'] by auto
    then have "batch p rs x w''" using 2 by (intro batch_aborted [OF b]) auto
    then show ?case by (auto simp: pending_def)
  next
    case 3
    then show ?case by (auto simp: owns_def)
  qed
qed

lemma tx_ok_take: "tx_ok w x \<Longrightarrow> tx_ok w (x\<lparr>tx_writes := take n (tx_writes x), tx_aborted := a\<rparr>)"
proof -
  assume ok: "tx_ok w x"
  have sub: "set (take n (tx_writes x)) \<subseteq> set (tx_writes x)" by (rule set_take_subset)
  have "distinct (map fst (take n (tx_writes x)))"
    using ok by (simp add: tx_ok_def take_map [symmetric])
  then show ?thesis using ok sub by (fastforce simp: tx_ok_def)
qed

lemma spec_rollback_to:
  assumes "owns p w"
  shows "spec (Pub p) (rollback_to p n) (outcome (owns p) (owns p)) w"
  unfolding rollback_to_def
proof (rule wp_atomic)
  fix w' assume w': "rely (Pub p) w w'"
  define v where "v = w'\<lparr>w_db_calls := Suc (w_db_calls w')\<rparr>"
  obtain x where v: "own p x v" using owns_stable [OF assms w'] by (auto simp: owns_def v_def)
  have bump: "guarantee (Pub p) w' v" by (simp add: v_def neutral_guarantee quiet_neutral)
  let ?x = "x\<lparr>tx_writes := take n (tx_writes x), tx_aborted := False\<rparr>"
  have undone: "guarantee (Pub p) v (set_tx p ?x v)"
    by (rule set_tx_same_locks [OF v]) (simp_all add: tx_ok_take own_facts [OF v])
  then have own': "own p ?x (set_tx p ?x v)" using v by (simp add: own_def guarantee_def)
  note abort = abort_tx_guarantee [OF v]
  have cases: "snd (rollback_to_stmt p n w') = set_tx p ?x v \<or> snd (rollback_to_stmt p n w') = abort_tx p v"
    using v by (simp add: rollback_to_stmt_def own_def v_def Let_def split: fault.split)
  then show "guarantee (Pub p) w' (snd (rollback_to_stmt p n w'))"
    using guarantee_trans [OF bump undone] guarantee_trans [OF bump abort(1)] by metis
  fix w'' assume r: "rely (Pub p) (snd (rollback_to_stmt p n w')) w''"
  have "owns p (snd (rollback_to_stmt p n w'))" using cases own' abort(2) by (auto simp: owns_def)
  then show "outcome (owns p) (owns p) (fst (rollback_to_stmt p n w')) w''"
    using owns_stable [OF _ r] by (simp add: outcome_def split: sum.split)
qed

lemma spec_Done:
  assumes "outcome A B r w" and "\<And>w'. A w \<Longrightarrow> rely a w w' \<Longrightarrow> A w'" and "\<And>w'. B w \<Longrightarrow> rely a w w' \<Longrightarrow> B w'"
  shows "spec a (Done r) (outcome A B) w"
  using assms by (cases r) (simp_all add: wp_Done)

text \<open>One row: on success it is written, on an escaping error the transaction is still owned.\<close>

lemma spec_process_row:
  assumes p: "pending p (r # rs) w"
  shows "spec (Pub p) (process_row pf p exchange r) (outcome (owns p) (pending p rs)) w"
proof -
  have body: "spec (Pub p) (except_exception (publish_row p exchange r) (dispatch_failed pf p r))
      (outcome (owns p) (pending p rs)) w'" if "pending p (r # rs) w'" for w'
    unfolding except_exception_def
  proof (rule wp_on_error, rule wp_consequence [OF spec_publish_row [OF that]], goal_cases)
    case (1 res w'')
    then show ?case
    proof (cases res)
      case (Inl e)
      then have "pending p (r # rs) w''" using 1 by simp
      then show ?thesis
        using Inl by (cases "is_exception e")
          (auto intro!: spec_dispatch_failed spec_Done intro: pending_owns pending_stable owns_stable)
    qed simp
  qed
  have undo: "spec (Pub p) (and_then (rollback_to p n) (\<lambda>_. throw e)) (outcome (owns p) (pending p rs)) w'"
    if "owns p w'" for n e w'
    by (rule spec_then [OF spec_rollback_to [OF that]])
       (auto intro!: spec_Done intro: owns_stable pending_stable)
  have release: "spec (Pub p) (and_then (release_savepoint p) (\<lambda>_. ret ())) (outcome (owns p) (pending p rs)) w'"
    if "pending p rs w'" for w'
    unfolding release_savepoint_def
    by (rule spec_then [OF spec_savepoint_stmt [OF that]])
       (auto intro!: spec_Done intro: owns_stable pending_stable)
  show ?thesis
    unfolding process_row_def in_savepoint_def savepoint_def
  proof (rule spec_then [OF spec_savepoint_stmt [OF p]], simp, rule wp_attempt, goal_cases)
    case (1 w' n)
    show ?case
    proof (rule wp_consequence [OF body [OF 1]], goal_cases)
      case (1 res w'')
      then show ?case using undo release by (cases res) auto
    qed
  qed simp
qed

end
