(* ===== verification/Outbox_Run.thy ===== *)
theory Outbox_Run
  imports Outbox_Batch
begin

text \<open>
  The end of a dispatch transaction, and the publisher as a task: begin, select, commit and
  rollback, a batch, the turns of \<open>run\<close>; between batches it holds no rows.
\<close>

section \<open>The written rows\<close>

lemma apply_write_id [simp]: "oe_outbox_id (apply_write wr r) = oe_outbox_id r"
  by (cases wr) simp_all

lemma apply_writes_unwritten:
  "oe_outbox_id r \<notin> fst ` set ws \<Longrightarrow> apply_writes ws r = r"
  by (induction ws arbitrary: r) (auto simp: apply_writes_def)

lemma apply_writes_written:
  assumes "distinct (map fst ws)" and "(oe_outbox_id r, wr) \<in> set ws"
  shows "apply_writes ws r = apply_write wr r"
  using assms
proof (induction ws arbitrary: r)
  case (Cons e ws)
  obtain i wr' where e: "e = (i, wr')" by (cases e)
  show ?case
  proof (cases "i = oe_outbox_id r")
    case True
    then have "wr' = wr" "oe_outbox_id (apply_write wr r) \<notin> fst ` set ws"
      using Cons.prems e by force+
    then show ?thesis
      using True e apply_writes_unwritten [of "apply_write wr r" ws] by (simp add: apply_writes_def)
  next
    case False
    then show ?thesis using Cons e by (simp add: apply_writes_def)
  qed
qed simp

lemma apply_writes_cases:
  assumes "distinct (map fst ws)"
  shows "apply_writes ws r = r \<and> oe_outbox_id r \<notin> fst ` set ws \<or>
    (\<exists>wr. (oe_outbox_id r, wr) \<in> set ws \<and> apply_writes ws r = apply_write wr r)"
  using apply_writes_unwritten [of r ws] apply_writes_written [OF assms] by force

lemma apply_writes_id [simp]: "oe_outbox_id (apply_writes ws r) = oe_outbox_id r"
  by (induction ws arbitrary: r) (auto simp: apply_writes_def)

lemma progress_apply_write: "oe_status r = SCHEDULED \<Longrightarrow> progress r (apply_write wr r)"
  by (cases wr) (simp_all add: progress_def)

lemma outbox_ok_apply_write:
  "outbox_ok r \<Longrightarrow> oe_status r = SCHEDULED \<Longrightarrow> write_ok ms wr r \<Longrightarrow> outbox_ok (apply_write wr r)"
  by (cases wr) (auto simp: outbox_ok_def)

lemma on_broker_progress: "progress r r' \<Longrightarrow> on_broker ms r \<Longrightarrow> on_broker ms r'"
  by (simp add: progress_def on_broker_def)

lemma sent_apply_write:
  assumes "oe_status r = SCHEDULED" and "write_ok ms wr r" and "oe_status (apply_write wr r) = DISPATCHED"
  shows "on_broker ms (apply_write wr r)"
proof (rule on_broker_progress [OF progress_apply_write [OF assms(1)]])
  show "on_broker ms r" using assms by (cases wr) simp_all
qed

text \<open>Applying the writes of a transaction to a row of the table.\<close>

lemma written_row:
  assumes inv: "tables_ok w" "tx_ok w x" and r: "r \<in> set (w_outbox w)"
  shows "progress r (apply_writes (tx_writes x) r)" "outbox_ok (apply_writes (tx_writes x) r)"
    "oe_status r \<noteq> DISPATCHED \<Longrightarrow> oe_status (apply_writes (tx_writes x) r) = DISPATCHED \<Longrightarrow>
       on_broker (w_published w) (apply_writes (tx_writes x) r)"
proof -
  have rok: "outbox_ok r" using inv(1) r by (simp add: tables_ok_def list_all_iff)
  have "progress r (apply_writes (tx_writes x) r) \<and> outbox_ok (apply_writes (tx_writes x) r) \<and>
    (oe_status r \<noteq> DISPATCHED \<longrightarrow> oe_status (apply_writes (tx_writes x) r) = DISPATCHED \<longrightarrow>
      on_broker (w_published w) (apply_writes (tx_writes x) r))"
  proof (cases "oe_outbox_id r \<in> fst ` set (tx_writes x)")
    case True
    then obtain wr where wr: "(oe_outbox_id r, wr) \<in> set (tx_writes x)" by auto
    with inv(2) have "oe_outbox_id r \<in> set (tx_locks x)" by (force simp: tx_ok_def)
    then obtain r' where r': "r' \<in> set (w_outbox w)" "oe_outbox_id r' = oe_outbox_id r" "oe_status r' = SCHEDULED"
      using inv(2) unfolding tx_ok_def by blast
    have "inj_on oe_outbox_id (set (w_outbox w))"
      using inv(1) by (simp add: tables_ok_def distinct_map)
    then have "r' = r" using r' r by (auto dest: inj_onD)
    then have "oe_status r = SCHEDULED" using r' by simp
    moreover have "write_ok (w_published w) wr r" using inv(2) wr r by (fastforce simp: tx_ok_def)
    moreover have "apply_writes (tx_writes x) r = apply_write wr r"
      using inv(2) wr by (intro apply_writes_written) (simp_all add: tx_ok_def)
    ultimately show ?thesis using rok using outbox_ok_apply_write sent_apply_write by (simp add: progress_apply_write)
  next
    case False
    then show ?thesis using rok by (simp add: apply_writes_unwritten)
  qed
  then show "progress r (apply_writes (tx_writes x) r)" "outbox_ok (apply_writes (tx_writes x) r)"
    "oe_status r \<noteq> DISPATCHED \<Longrightarrow> oe_status (apply_writes (tx_writes x) r) = DISPATCHED \<Longrightarrow>
       on_broker (w_published w) (apply_writes (tx_writes x) r)"
    by blast+
qed

section \<open>Ending a transaction\<close>

lemma end_tx_views [simp]:
  "hash_keys (end_tx p w) = hash_keys w" "tx_ok (end_tx p w) = tx_ok w"
  "message_ok (end_tx p w) = message_ok w" "row_of (end_tx p w) = row_of w"
  "tables_ok (end_tx p w) = tables_ok w" "w_published (end_tx p w) = w_published w"
  "w_publishers (end_tx p w) = w_publishers w" "cache_ok (end_tx p w) = cache_ok w"
  "w_outbox (end_tx p w) = w_outbox w" "w_inbound (end_tx p w) = w_inbound w"
  "sent_ok (end_tx p w) = sent_ok w"
  by (simp_all add: end_tx_def hash_keys_def tx_ok_def message_ok_def row_of_def tables_ok_def
      cache_ok_def sent_ok_def fun_eq_iff)

lemma end_tx_guarantee:
  assumes "Inv w"
  shows "guarantee (Pub p) w (end_tx p w)"
proof -
  have "distinct (locked_ids (end_tx p w))"
    using assms distinct_other_locks by (simp add: Inv_def txs_ok_def)
  moreover have "set (w_txs (end_tx p w)) \<subseteq> set (w_txs w)" "distinct (map fst (w_txs (end_tx p w)))"
    using assms by (auto simp: end_tx_def Inv_def txs_ok_def distinct_map_filter)
  ultimately have "txs_ok (end_tx p w)"
    using assms unfolding Inv_def txs_ok_def end_tx_views(2) by blast
  then have "Inv (end_tx p w)" using assms by (simp add: Inv_def)
  moreover have "grows w (end_tx p w)"
    using progress_self by (simp add: grows_def end_tx_def)
  ultimately show ?thesis by (simp add: guarantee_def frame_def)
qed

definition committed :: "tx \<Rightarrow> world \<Rightarrow> world" where
  "committed x w = w\<lparr>w_outbox := map (apply_writes (tx_writes x)) (w_outbox w)\<rparr>"

lemma committed_tables:
  assumes "tables_ok w" and "tx_ok w x"
  shows "tables_ok (committed x w)"
proof -
  let ?a = "apply_writes (tx_writes x)"
  have pair: "paired i r \<Longrightarrow> r \<in> set (w_outbox w) \<Longrightarrow> paired i (?a r)" for i r
    using written_row(1) [OF assms, of r] by (simp add: paired_def progress_def)
  have "list_all2 paired (w_inbound w) (map ?a (w_outbox w))"
    using assms(1) pair by (auto simp: tables_ok_def list.rel_map intro: list.rel_mono_strong)
  moreover have "oe_outbox_id \<circ> ?a = oe_outbox_id" by (simp add: fun_eq_iff)
  moreover have "list_all outbox_ok (map ?a (w_outbox w))"
    using written_row(2) [OF assms] by (simp add: list_all_iff)
  ultimately show ?thesis
    using assms(1) unfolding tables_ok_def by (simp add: committed_def)
qed

lemma committed_sent:
  assumes "tables_ok w" and "tx_ok w x" and "sent_ok w"
  shows "sent_ok (committed x w)"
  unfolding sent_ok_def committed_def
proof (clarsimp)
  fix r assume r: "r \<in> set (w_outbox w)" and d: "oe_status (apply_writes (tx_writes x) r) = DISPATCHED"
  show "on_broker (w_published w) (apply_writes (tx_writes x) r)"
  proof (cases "oe_status r = DISPATCHED")
    case True
    then have "on_broker (w_published w) r" using assms(3) r by (simp add: sent_ok_def)
    then show ?thesis by (rule on_broker_progress [OF written_row(1) [OF assms(1,2) r]])
  next
    case False
    then show ?thesis by (rule written_row(3) [OF assms(1,2) r _ d])
  qed
qed

lemma find_map_id:
  "(\<And>r. oe_outbox_id (f r) = oe_outbox_id r) \<Longrightarrow>
   find (\<lambda>r. oe_outbox_id r = i) (map f rs) = map_option f (find (\<lambda>r. oe_outbox_id r = i) rs)"
  by (induction rs) auto

lemma row_of_committed: "row_of (committed x w) i = map_option (apply_writes (tx_writes x)) (row_of w i)"
  by (simp add: row_of_def committed_def find_map_id)

lemma committed_unlocked:
  "tx_ok w x \<Longrightarrow> oe_outbox_id r \<notin> set (tx_locks x) \<Longrightarrow> apply_writes (tx_writes x) r = r"
  by (rule apply_writes_unwritten) (auto simp: tx_ok_def)

lemma row_of_committed_unlocked:
  "tx_ok w x \<Longrightarrow> i \<notin> set (tx_locks x) \<Longrightarrow> row_of (committed x w) i = row_of w i"
  using committed_unlocked row_of_Some by (cases "row_of w i") (auto simp: row_of_committed)

lemma tx_ok_locked:
  "tx_ok w x \<Longrightarrow> i \<in> set (tx_locks x) \<Longrightarrow>
     \<exists>r \<in> set (w_outbox w). oe_outbox_id r = i \<and> oe_status r = SCHEDULED"
  by (simp add: tx_ok_def)

lemma committed_other_tx:
  assumes "tx_ok w x" and y: "tx_ok w y" and dis: "set (tx_locks x) \<inter> set (tx_locks y) = {}"
  shows "tx_ok (committed x w) y"
proof -
  have keep: "apply_writes (tx_writes x) r = r" if "oe_outbox_id r \<in> set (tx_locks y)" for r
    using committed_unlocked [OF assms(1)] that dis by blast
  have "\<exists>r \<in> set (w_outbox (committed x w)). oe_outbox_id r = i \<and> oe_status r = SCHEDULED"
    if locked: "i \<in> set (tx_locks y)" for i
  proof -
    obtain r where r: "r \<in> set (w_outbox w)" "oe_outbox_id r = i" "oe_status r = SCHEDULED"
      using tx_ok_locked [OF y locked] by blast
    have "apply_writes (tx_writes x) r \<in> set (w_outbox (committed x w))"
      using r(1) by (simp add: committed_def)
    then have "r \<in> set (w_outbox (committed x w))" using keep [of r] r(2) locked by simp
    then show ?thesis using r(2,3) by blast
  qed
  moreover have "write_ok (w_published (committed x w)) wr r"
    if written: "(i, wr) \<in> set (tx_writes y)" and r: "r \<in> set (w_outbox (committed x w))"
      and id: "oe_outbox_id r = i" for i wr r
  proof -
    obtain r0 where r0: "r0 \<in> set (w_outbox w)" "r = apply_writes (tx_writes x) r0"
      using r by (auto simp: committed_def)
    have "i \<in> set (tx_locks y)" using written y by (force simp: tx_ok_def)
    then have "r = r0" using keep [of r0] id r0(2) by simp
    then show ?thesis using written id r0(1) y by (fastforce simp: tx_ok_def committed_def)
  qed
  ultimately show ?thesis using y by (auto simp: tx_ok_def)
qed

lemma other_txs:
  "y \<in> snd ` set (w_txs (end_tx p w)) \<Longrightarrow> set (tx_locks y) \<subseteq> set (other_locks p w) \<and> y \<in> snd ` set (w_txs w)"
  by (force simp: end_tx_def other_locks_def)

lemma committed_views [simp]:
  "hash_keys (committed x w) = hash_keys w" "locked_ids (committed x w) = locked_ids w"
  "tx_of (committed x w) = tx_of w" "w_txs (committed x w) = w_txs w"
  "w_published (committed x w) = w_published w" "w_publishers (committed x w) = w_publishers w"
  "cache_ok (committed x w) = cache_ok w" "w_inbound (committed x w) = w_inbound w"
  by (simp_all add: committed_def hash_keys_def locked_ids_def tx_of_def cache_ok_def fun_eq_iff)

lemma commit_guarantee:
  assumes own: "own p x w"
  shows "guarantee (Pub p) w (committed x (end_tx p w))"
proof -
  note facts = own_facts [OF own]
  have inv: "Inv w" using own by (simp add: own_def)
  let ?e = "end_tx p w" and ?w = "committed x (end_tx p w)"
  have e: "Inv ?e" using end_tx_guarantee [OF inv, of p] inv by (simp add: guarantee_def)
  have xe: "tx_ok ?e x" using facts(1) by simp
  have te: "tables_ok ?e" using e by (simp add: Inv_def)
  have "tx_ok ?w y" if "y \<in> snd ` set (w_txs ?e)" for y
  proof (rule committed_other_tx [OF xe])
    show "tx_ok ?e y" using that e unfolding Inv_def txs_ok_def by blast
    show "set (tx_locks x) \<inter> set (tx_locks y) = {}" using other_txs [OF that] facts(3) by blast
  qed
  then have "txs_ok ?w" using e by (simp add: Inv_def txs_ok_def)
  moreover have "tables_ok ?w" by (rule committed_tables [OF te xe])
  moreover have "sent_ok ?w" using inv by (intro committed_sent [OF te xe]) (simp add: Inv_def)
  moreover have life: "\<exists>r' \<in> set (w_outbox ?w). progress r r'" if "r \<in> set (w_outbox w)" for r
    using written_row(1) [OF te xe, of r] that by (auto simp: committed_def)
  have "message_ok ?w m" if "message_ok w m" for m
    using that life unfolding message_ok_def progress_def by metis
  then have "list_all (message_ok ?w) (w_published ?w)"
    using inv by (simp add: Inv_def list_all_iff)
  moreover have "cache_ok ?w" using inv by (simp add: Inv_def)
  ultimately have "Inv ?w" by (simp add: Inv_def)
  moreover have "grows w ?w"
    using life by (simp add: grows_def committed_def end_tx_def)
  moreover have "frame q w ?w" if "q \<noteq> p" for q
  proof -
    have "row_of ?w i = row_of w i" if "tx_of w q = Some y" "i \<in> set (tx_locks y)" for y i
    proof -
      have "y \<in> snd ` set (w_txs ?e)"
        using that(1) \<open>q \<noteq> p\<close> by (intro tx_of_in_txs [of ?e q]) simp
      then have "i \<notin> set (tx_locks x)" using other_txs facts(3) that(2) by blast
      then show ?thesis using row_of_committed_unlocked [OF xe] by simp
    qed
    then show ?thesis using that by (simp add: frame_def)
  qed
  ultimately show ?thesis by (simp add: guarantee_def)
qed

section \<open>At rest\<close>

text \<open>A publisher between its batches holds no rows, even when the answer to a begin was lost.\<close>

definition idle :: "nat \<Rightarrow> world \<Rightarrow> bool" where
  "idle p w \<longleftrightarrow> (\<forall>x. tx_of w p = Some x \<longrightarrow> tx_locks x = [])"

definition settled :: "nat \<Rightarrow> world \<Rightarrow> bool" where
  "settled p w \<longleftrightarrow> Inv w \<and> idle p w"

lemma idle_stable: "Inv w \<Longrightarrow> idle p w \<Longrightarrow> rely (Pub p) w w' \<Longrightarrow> idle p w'"
  by (simp add: idle_def rely_def frame_def)

lemma settled_stable: "settled p w \<Longrightarrow> rely (Pub p) w w' \<Longrightarrow> settled p w'"
  unfolding settled_def using idle_stable rely_Inv by blast

lemma settled_calm: "settled p w \<Longrightarrow> calm p w w' \<Longrightarrow> settled p w'"
  by (simp add: settled_def idle_def calm_def)

lemma settled_end_tx: "Inv (end_tx p w) \<Longrightarrow> settled p (end_tx p w)"
  by (simp add: settled_def idle_def)

section \<open>Begin, select, commit, rollback\<close>

lemma owns_Inv: "owns p w \<Longrightarrow> Inv w"
  by (auto simp: owns_def own_def)

lemma spec_begin:
  assumes "settled p w"
  shows "spec (Pub p) (begin_tx p)
    (outcome (settled p) (\<lambda>w. \<exists>x. own p x w \<and> tx_locks x = [] \<and> tx_writes x = [])) w"
proof -
  let ?x = "\<lambda>w. \<lparr>tx_now = w_db_clock w, tx_locks = [], tx_writes = [], tx_aborted = False\<rparr>"
  have step: "guarantee (Pub p) w' (set_tx p (?x w') w')" "own p (?x w') (set_tx p (?x w') w')"
    if "rely (Pub p) w w'" for w'
  proof -
    have "Inv w'" using settled_stable [OF assms that] by (simp add: settled_def)
    then show "guarantee (Pub p) w' (set_tx p (?x w') w')" by (auto intro!: set_tx_guarantee simp: tx_ok_def)
    with \<open>Inv w'\<close> show "own p (?x w') (set_tx p (?x w') w')" by (simp add: own_def guarantee_def)
  qed
  show ?thesis
    unfolding begin_tx_def
  proof (rule spec_db_call, goal_cases)
    case (1 w')
    then show ?case using step(1) by simp
  next
    case (2 w' w'')
    have "own p (?x w') w''" by (rule own_stable [OF step(2) [OF 2(1)]]) (use 2(2) in simp)
    then show ?case by (auto intro!: exI [of _ "?x w'"])
  next
    case (3 e w' w'')
    then have "settled p w''" using settled_stable assms by blast
    then show ?case by simp
  next
    case (4 e w' w'')
    have "own p (?x w') w''" by (rule own_stable [OF step(2) [OF 4(1)]]) (use 4(2) in simp)
    then show ?case by (simp add: settled_def idle_def own_def)
  qed
qed

lemma due_rows_facts:
  assumes "tables_ok w"
  shows "distinct (map oe_outbox_id (due_rows n now w))"
    "r \<in> set (due_rows n now w) \<Longrightarrow> r \<in> set (w_outbox w) \<and> is_due now r \<and> oe_outbox_id r \<notin> set (locked_ids w)"
proof -
  let ?s = "sort_key oe_dispatch_at
      (filter (\<lambda>r. is_due now r \<and> oe_outbox_id r \<notin> set (locked_ids w)) (w_outbox w))"
  have "distinct (map oe_outbox_id (filter (\<lambda>r. is_due now r \<and> oe_outbox_id r \<notin> set (locked_ids w)) (w_outbox w)))"
    using assms by (simp add: tables_ok_def distinct_map_filter)
  then have "distinct (map oe_outbox_id ?s)" by (simp add: distinct_map)
  then show "distinct (map oe_outbox_id (due_rows n now w))"
    by (simp add: due_rows_def take_map [symmetric])
  show "r \<in> set (w_outbox w) \<and> is_due now r \<and> oe_outbox_id r \<notin> set (locked_ids w)"
    if "r \<in> set (due_rows n now w)"
    using that set_take_subset [of n ?s] by (auto simp: due_rows_def)
qed

lemma row_of_in: "tables_ok w \<Longrightarrow> r \<in> set (w_outbox w) \<Longrightarrow> row_of w (oe_outbox_id r) = Some r"
  using row_of_unique [of w r]
  by (cases "row_of w (oe_outbox_id r)") (auto simp: row_of_def find_None_iff)

lemma spec_select_due:
  assumes own: "own p x w" and fresh: "tx_locks x = []" "tx_writes x = []"
  shows "spec (Pub p) (select_due p limit)
    (\<lambda>res w'. case res of Inl _ \<Rightarrow> owns p w' | Inr rows \<Rightarrow> pending p rows w') w"
  unfolding select_due_def
proof (rule spec_tx_stmt [OF own], goal_cases)
  case (1 w' a x')
  have t: "tables_ok w'" using 1(1) by (simp add: own_def Inv_def)
  have x': "x' = x\<lparr>tx_locks := map oe_outbox_id a\<rparr>" and a: "a = due_rows (nat limit) (tx_now x) w'"
    using 1(4) fresh by (auto simp: Let_def split: if_splits)
  show ?case
  proof (rule set_tx_guarantee)
    show "Inv w'" using 1(1) by (simp add: own_def)
    show "distinct (tx_locks x')" using due_rows_facts(1) [OF t] by (simp add: x' a)
    show "tx_ok w' x'" using due_rows_facts(2) [OF t] fresh
      by (fastforce simp: x' a tx_ok_def is_due_def)
    show "set (tx_locks x') \<inter> set (other_locks p w') = {}"
      using due_rows_facts(2) [OF t] other_locks_subset by (fastforce simp: x' a)
  qed
next
  case (2 w' a x' w'')
  have t: "tables_ok w'" using 2(1) by (simp add: own_def Inv_def)
  have x': "x' = x\<lparr>tx_locks := map oe_outbox_id a\<rparr>" and a: "a = due_rows (nat limit) (tx_now x) w'"
    using 2(3) fresh by (auto simp: Let_def split: if_splits)
  have "row_of w'' (oe_outbox_id r) = Some r" if "r \<in> set a" for r
    using that due_rows_facts(2) [OF t, of r "nat limit" "tx_now x"] row_of_in [OF t, of r] 2(5) by (simp add: x' a)
  then have "batch p a x' w''"
    using 2(4) due_rows_facts(1) [OF t] fresh by (simp add: batch_def x' a)
  then show ?case by (auto simp: pending_def)
qed (auto simp: owns_def)

text \<open>Commit and rollback, whatever the answer, leave a world in order and no locks.\<close>

lemma spec_commit:
  assumes "owns p w"
  shows "spec (Pub p) (commit_tx p) (\<lambda>_. settled p) w"
proof -
  have step: "guarantee (Pub p) w' (snd (commit_stmt p w')) \<and> settled p (snd (commit_stmt p w'))"
    if w': "rely (Pub p) w w'" for w'
  proof -
    define v where "v = w'\<lparr>w_db_calls := Suc (w_db_calls w')\<rparr>"
    obtain x where v: "own p x v" using owns_stable [OF assms w'] by (auto simp: owns_def v_def)
    have bump: "guarantee (Pub p) w' v" by (simp add: v_def neutral_guarantee quiet_neutral)
    have inv: "Inv v" "Inv w'" using v by (simp_all add: own_def v_def)
    have cases: "snd (commit_stmt p w') = end_tx p v \<or> snd (commit_stmt p w') = committed x (end_tx p v)"
      unfolding commit_stmt_def Let_def v_def [symmetric]
      using v by (cases "w_db_faults w' (w_db_calls w')") (simp_all add: own_def committed_def)
    then have "guarantee (Pub p) v (snd (commit_stmt p w'))"
      using end_tx_guarantee [OF inv(1)] commit_guarantee [OF v] by metis
    then have g: "guarantee (Pub p) w' (snd (commit_stmt p w'))" using bump guarantee_trans by blast
    moreover have "idle p (snd (commit_stmt p w'))" using cases by (auto simp: idle_def)
    ultimately show ?thesis using inv(2) by (simp add: guarantee_def settled_def)
  qed
  show ?thesis
    unfolding commit_tx_def
  proof (rule wp_atomic, goal_cases)
    case (1 w')
    show ?case using step [OF 1] by (rule conjunct1)
  next
    case (2 w' w'')
    show ?case by (rule settled_stable [OF conjunct2 [OF step [OF 2(1)]] 2(2)])
  qed
qed

lemma spec_rollback:
  assumes "Inv w"
  shows "spec (Pub p) (rollback_tx p) (\<lambda>_. settled p) w"
  unfolding rollback_tx_def
proof (rule wp_atomic, goal_cases)
  have step: "guarantee (Pub p) w' (snd (served flt e (\<lambda>w'. (Inr (), w')) (end_tx p (w'\<lparr>w_db_calls := n\<rparr>)))) \<and>
    settled p (snd (served flt e (\<lambda>w'. (Inr (), w')) (end_tx p (w'\<lparr>w_db_calls := n\<rparr>))))"
    if "rely (Pub p) w w'" for w' flt e n
  proof -
    have inv: "Inv w'" using that assms rely_Inv by blast
    let ?v = "w'\<lparr>w_db_calls := n\<rparr>"
    have g: "guarantee (Pub p) w' (end_tx p ?v)"
      using guarantee_trans [OF neutral_guarantee [OF quiet_neutral [OF bump_quiet(1)]] end_tx_guarantee]
        inv by simp
    moreover have "snd (served flt e (\<lambda>w'. (Inr (), w')) (end_tx p ?v)) = end_tx p ?v"
      by (cases flt) simp_all
    moreover have "settled p (end_tx p ?v)" using g inv by (intro settled_end_tx) (simp add: guarantee_def)
    ultimately show ?thesis by simp
  qed
  {
    case (1 w')
    show ?case using step [OF 1] by blast
  next
    case (2 w' w'')
    show ?case by (rule settled_stable [OF conjunct2 [OF step [OF 2(1)]] 2(2)])
  }
qed

section \<open>The publisher as a task\<close>

lemma spec_rows:
  assumes "pending p rows w"
  shows "spec (Pub p) (for_each rows (process_row pf p exchange)) (\<lambda>_. owns p) w"
proof (rule wp_for_each [where J = "pending p"])
  show "spec (Pub p) (process_row pf p exchange r)
     (\<lambda>res. case res of Inl e \<Rightarrow> owns p | Inr _ \<Rightarrow> pending p rs) w" if "pending p (r # rs) w" for r rs w
    by (rule wp_consequence [OF spec_process_row [OF that]]) (simp add: outcome_def split: sum.splits)
qed (use assms pending_stable pending_owns in blast)+

text \<open>The body of the transaction keeps it.\<close>

lemma spec_batch_body:
  assumes own: "own p x w" and fresh: "tx_locks x = []" "tx_writes x = []"
  shows "spec (Pub p) (and_then (select_due p n) (\<lambda>rows. if rows = [] then ret ()
      else and_then (cached_exchange p name) (\<lambda>exchange. for_each rows (process_row pf p exchange))))
    (\<lambda>_. owns p) w"
proof (rule wp_and_then, rule wp_consequence [OF spec_select_due [OF own fresh]], goal_cases)
  case (1 res w')
  show ?case
  proof (cases res)
    case (Inl e)
    then show ?thesis using 1 by simp
  next
    case (Inr rows)
    then have p: "pending p rows w'" using 1 by simp
    have "spec (Pub p) (and_then (cached_exchange p name)
        (\<lambda>exchange. for_each rows (process_row pf p exchange))) (\<lambda>_. owns p) w'"
    proof (rule wp_and_then, rule spec_tranquil [OF tranquil_cached_exchange], goal_cases)
      case (1 res w'')
      then have "pending p rows w''" using pending_calm [OF p] by blast
      then show ?case using spec_rows pending_owns by (cases res) auto
    qed
    moreover have "owns p v" if "rely (Pub p) w' v" for v
      using pending_stable [OF p that] by (rule pending_owns)
    ultimately show ?thesis using Inr by (simp add: wp_Done)
  qed
qed

lemma spec_process_batch:
  assumes "settled p w"
  shows "spec (Pub p) (process_batch pf p name n) (\<lambda>_. settled p) w"
  unfolding process_batch_def in_transaction_def
proof (rule wp_and_then, rule wp_consequence [OF spec_begin [OF assms]], goal_cases)
  case (1 res w')
  show ?case
  proof (cases res)
    case (Inl e)
    then show ?thesis using 1 by simp
  next
    case (Inr u)
    then obtain x where x: "own p x w'" "tx_locks x = []" "tx_writes x = []" using 1 by auto
    have finish: "spec (Pub p) (and_then (commit_tx p) (\<lambda>_. ret a)) (\<lambda>_. settled p) v"
      "spec (Pub p) (and_then (rollback_tx p) (\<lambda>_. throw e)) (\<lambda>_. settled p) v" if "owns p v" for a :: unit and e v
      using that settled_stable owns_Inv
      by (auto intro!: wp_and_then wp_consequence [OF spec_commit] wp_consequence [OF spec_rollback]
          simp: wp_Done split: sum.split)
    show ?thesis
      unfolding Inr sum.case
    proof (rule wp_attempt, rule wp_consequence [OF spec_batch_body [OF x]], goal_cases)
      case (1 res v)
      then show ?case using finish by (cases res) auto
    qed
  qed
qed

definition maintains :: "nat \<Rightarrow> 'a io \<Rightarrow> bool" where
  "maintains p q \<longleftrightarrow> (\<forall>w. settled p w \<longrightarrow> spec (Pub p) q (\<lambda>_. settled p) w)"

lemma tranquil_keeps: "tranquil p q \<Longrightarrow> maintains p q"
  unfolding maintains_def by (auto intro: spec_tranquil settled_calm)

lemma turn_attempt: "maintains p q \<Longrightarrow> (\<And>r. maintains p (h r)) \<Longrightarrow> maintains p (attempt q h)"
  unfolding maintains_def by (blast intro: wp_attempt wp_consequence)

lemma turn_and_then: "maintains p q \<Longrightarrow> (\<And>x. maintains p (k x)) \<Longrightarrow> maintains p (and_then q k)"
  unfolding and_then_def
  by (auto intro!: turn_attempt tranquil_keeps [OF tranquil_Done] split: sum.split)

lemma keeps_run_turn: "maintains p (run_turn pf p name n)"
proof -
  have "maintains p (process_batch pf p name n)"
    by (simp add: maintains_def spec_process_batch)
  moreover have "tranquil p (and_then (get_publisher p) (\<lambda>(s, chans).
       if channel_usable s chans
       then and_then (case ps_channel s of None \<Rightarrow> ret () | Some ch \<Rightarrow> close_channel ch) (\<lambda>_. ret Stop)
       else ret Stop))"
    by (intro harmless_tranquil) (auto intro!: harmless_intros split: option.split)
  moreover have "tranquil p (and_then sleep (\<lambda>_. ret Continue))"
    by (intro harmless_tranquil harmless_intros)
  ultimately show ?thesis
    unfolding run_turn_def
    by (intro turn_attempt)
       (auto intro!: tranquil_keeps tranquil_and_then tranquil_reset_channel split: sum.split)
qed

lemma keeps_run_turns: "maintains p (run_turns pf p name n k)"
  by (induction k)
     (auto intro!: turn_and_then keeps_run_turn tranquil_keeps [OF tranquil_Done] split: loop.split)

end
