(* ===== verification/Persistence.thy ===== *)
theory Persistence
  imports Webhook_Processor Outbox_Run
begin

text \<open>
  The persist transaction keeps the invariant and stores either both rows of a webhook or
  none; what the tenant and idempotency components promise under interference.
\<close>

section \<open>Statements and rollback\<close>

text \<open>A statement that changes the tables and counters only; rolling back the tables hides it.\<close>

definition tables_only :: "world \<Rightarrow> world \<Rightarrow> bool" where
  "tables_only w w' \<longleftrightarrow>
     w_txs w' = w_txs w \<and> w_published w' = w_published w \<and> w_publishers w' = w_publishers w \<and>
     w_redis w' = w_redis w \<and> w_uuid_source w' = w_uuid_source w \<and> w_uuids_drawn w \<le> w_uuids_drawn w' \<and>
     w_db_clock w' = w_db_clock w \<and> w_db_faults w' = w_db_faults w \<and>
     w_tenants w' = w_tenants w \<and> w_customers w' = w_customers w \<and> w_whitelist w' = w_whitelist w"

lemma tables_only_refl [simp]: "tables_only w w"
  by (simp add: tables_only_def)

lemma tables_only_trans: "tables_only u v \<Longrightarrow> tables_only v w \<Longrightarrow> tables_only u w"
  by (simp add: tables_only_def)

lemma undo_quiet: "tables_only w w' \<Longrightarrow> quiet w (undo_tables w w')"
  by (simp add: tables_only_def quiet_def undo_tables_def)

lemma tables_only_undo [simp]: "tables_only w w' \<Longrightarrow> tables_only w (undo_tables v w')"
  by (simp add: tables_only_def undo_tables_def)

lemma tables_only_served:
  assumes "tables_only w b" and "tables_only b (snd (f b))"
  shows "tables_only w (snd (served flt e f b))"
  using assms served_cases [of flt e f b] tables_only_trans by metis

definition local_prog :: "'a io \<Rightarrow> bool" where
  "local_prog p \<longleftrightarrow> (\<forall>w. tables_only w (snd (run p w)))"

lemma local_run: "local_prog p \<Longrightarrow> run p w = (r, v) \<Longrightarrow> tables_only w v"
  unfolding local_prog_def by (drule spec [of _ w]) simp

lemma local_execute:
  assumes "\<And>w. tables_only w (snd (f w))"
  shows "local_prog (execute f)"
  unfolding local_prog_def execute_def db_call_def run_atomic
  by (intro allI tables_only_served assms) (simp add: tables_only_def)

lemma local_query: "local_prog (query q)"
  using local_execute [of "\<lambda>w. (Inr (q w), w)"] by (simp add: query_def execute_def)

lemma local_Done: "local_prog (Done r)"
  by (simp add: local_prog_def)

lemma local_and_then: "local_prog p \<Longrightarrow> (\<And>x. local_prog (k x)) \<Longrightarrow> local_prog (and_then p k)"
  unfolding local_prog_def run_and_then
proof (intro allI)
  fix w
  assume p: "\<forall>w. tables_only w (snd (run p w))" and k: "\<And>x. \<forall>w. tables_only w (snd (run (k x) w))"
  obtain r v where rv: "run p w = (r, v)" by (cases "run p w")
  have "tables_only w v" using p [rule_format, of w] by (simp add: rv)
  then have "tables_only w (snd (run (k a) v))" for a
    using k [of a, rule_format, of v] by (rule tables_only_trans)
  then show "tables_only w (snd (case run p w of (Inl e, w') \<Rightarrow> (Inl e, w') | (Inr a, w') \<Rightarrow> run (k a) w'))"
    using \<open>tables_only w v\<close> by (simp add: rv split: sum.split)
qed

lemma local_insert_inbound: "local_prog (insert_inbound pf v)"
  unfolding insert_inbound_def
  by (intro local_and_then local_execute local_Done)
     (auto simp: insert_inbound_stmt_def tables_only_def Let_def split: option.split)

lemma local_schedule_event: "local_prog (schedule_event et c k v pl hs d)"
  unfolding schedule_event_def
  by (intro local_and_then local_execute)
     (auto simp: cancel_previous_stmt_def insert_event_stmt_def tables_only_def Let_def split: option.split)

lemma local_persist_body: "local_prog (persist_body pf d v pl)"
  unfolding persist_body_def by (intro local_and_then local_insert_inbound local_schedule_event)

section \<open>The committed webhook\<close>

lemma run_execute_Inr:
  "run (execute f) w = (Inr a, w') \<Longrightarrow> f (w\<lparr>w_db_calls := Suc (w_db_calls w)\<rparr>) = (Inr a, w')"
  by (auto simp: execute_def db_call_def served_def split: fault.splits)

lemma run_and_then_Inr:
  "run (and_then p k) w = (Inr b, w') \<Longrightarrow> \<exists>a v. run p w = (Inr a, v) \<and> run (k a) v = (Inr b, w')"
  by (auto simp: run_and_then split: prod.splits sum.splits)

text \<open>The row that an insert adds, and the conditions under which it does.\<close>

lemma insert_inbound_Inr:
  assumes "run (insert_inbound pf v) w = (Inr row, w')"
  shows "\<exists>f n. jsonb_codec pf \<and> fit_inbound v = Some f \<and>
    row = f\<lparr>ie_rejection_reason := None, ie_created_at := w_db_clock w, ie_updated_at := w_db_clock w\<rparr> \<and>
    ie_event_id row \<notin> ie_event_id ` set (w_inbound w) \<and>
    ie_correlation_id row \<notin> ie_correlation_id ` set (w_inbound w) \<and>
    ie_pr_hash_key row \<notin> hash_keys w \<and>
    w' = w\<lparr>w_db_calls := n, w_inbound := w_inbound w @ [row]\<rparr>"
proof -
  obtain r v' where ex: "run (execute (insert_inbound_stmt pf v)) w = (Inr r, v')"
    and val: "validate_inbound pf r = Inr row" "w' = v'"
    using run_and_then_Inr [OF assms [unfolded insert_inbound_def]] by auto
  have "row = r" using val(1) by (rule validate_inbound_Inr)
  with run_execute_Inr [OF ex] val(2) show ?thesis
    by (auto simp: insert_inbound_stmt_def Let_def hash_keys_def split: if_splits option.splits)
qed

text \<open>Rows of version 1 are never cancelled by another event of version 1.\<close>

lemma cancel_none:
  assumes "list_all2 paired ins (w_outbox w)" and "list_all inbound_ok ins"
    and "no_nul k" and "no_nul reason"
  shows "cancel_previous_stmt k 1 reason w = (Inr (), w)"
proof -
  have "oe_pr_version r = Some 1" if "r \<in> set (w_outbox w)" for r
    using that assms(1,2) by (fastforce simp: list_all2_conv_all_nth list_all_length in_set_conv_nth
        paired_def inbound_ok_def)
  then have "map (\<lambda>r. if oe_pr_hash_key r = Some k \<and> oe_status r = SCHEDULED \<and>
      (case oe_pr_version r of None \<Rightarrow> False | Some v \<Rightarrow> v < 1)
      then r\<lparr>oe_status := CANCELLED, oe_cancel_reason := Some reason\<rparr> else r) (w_outbox w) = w_outbox w"
    by (intro map_idI) simp
  then show ?thesis using assms(3,4) by (simp add: cancel_previous_stmt_def fits_int4_def)
qed

definition scheduled_row :: "uuid \<Rightarrow> string \<Rightarrow> uuid \<Rightarrow> string \<Rightarrow> json \<Rightarrow> json \<Rightarrow> int \<Rightarrow> time \<Rightarrow> outbox_event" where
  "scheduled_row i et c key pl hs d now =
     \<lparr>oe_outbox_id = i, oe_event_type = et, oe_correlation_id = c,
      oe_pr_hash_key = Some key, oe_pr_version = Some 1, oe_payload = pl, oe_headers = hs,
      oe_status = SCHEDULED, oe_dispatch_at = now + seconds d, oe_cancel_reason = None,
      oe_retry_count = 0, oe_max_retries = 3, oe_next_retry_at = None, oe_error_message = None,
      oe_created_at = now, oe_published_at = None\<rparr>"

lemma schedule_event_Inr:
  assumes inv: "list_all2 paired ins (w_outbox w)" "list_all inbound_ok ins"
    and run: "run (schedule_event et c k 1 pl hs d) w = (Inr i, w')"
  shows "\<exists>key. varchar 64 k = Some key \<and> i \<notin> oe_outbox_id ` set (w_outbox w) \<and>
    w' = w\<lparr>w_db_calls := Suc (Suc (w_db_calls w)), w_uuids_drawn := Suc (w_uuids_drawn w),
           w_outbox := w_outbox w @ [scheduled_row i et c key pl hs d (w_db_clock w)]\<rparr>"
proof -
  obtain u v where cancel: "run (execute (cancel_previous_stmt k 1 ''superseded_by_newer_version'')) w = (Inr u, v)"
    and ins: "run (execute (insert_event_stmt et c k 1 pl hs d)) v = (Inr i, w')"
    using run_and_then_Inr [OF run [unfolded schedule_event_def]] by blast
  have "no_nul k" using run_execute_Inr [OF cancel] by (simp add: cancel_previous_stmt_def split: if_splits)
  then have "v = w\<lparr>w_db_calls := Suc (w_db_calls w)\<rparr>"
    using run_execute_Inr [OF cancel]
      cancel_none [of ins "w\<lparr>w_db_calls := Suc (w_db_calls w)\<rparr>" k "''superseded_by_newer_version''"] inv
    by simp
  then show ?thesis
    using run_execute_Inr [OF ins]
    by (auto simp: insert_event_stmt_def Let_def scheduled_row_def split: if_splits option.splits)
qed

text \<open>What a successful body has stored.\<close>

definition stored_pair :: "inbound_event \<Rightarrow> json \<Rightarrow> inbound_event \<Rightarrow> outbox_event \<Rightarrow> bool" where
  "stored_pair v pl row r \<longleftrightarrow>
     ie_event_id row = ie_event_id v \<and> ie_correlation_id row = ie_correlation_id v \<and>
     ie_tenant_id row = ie_tenant_id v \<and> ie_pr_version row = ie_pr_version v \<and>
     ie_raw_payload row = ie_raw_payload v \<and> ie_webhook_headers row = ie_webhook_headers v \<and>
     varchar 64 (ie_pr_hash_key v) = Some (ie_pr_hash_key row) \<and>
     varchar 50 (ie_processing_status v) = Some (ie_processing_status row) \<and>
     oe_correlation_id r = ie_correlation_id v \<and> oe_pr_hash_key r = Some (ie_pr_hash_key row) \<and>
     oe_pr_version r = Some 1 \<and> oe_payload r = pl \<and> oe_event_type r = ''vcs.webhook.received'' \<and>
     oe_headers r = JObj [(''correlation_id'', JStr (uuid_str (ie_correlation_id v)))] \<and>
     oe_status r = SCHEDULED \<and> oe_retry_count r = 0 \<and> oe_max_retries r = 3 \<and>
     oe_next_retry_at r = None \<and> oe_published_at r = None"

lemma persist_body_Inr:
  assumes inv: "Inv w" and v: "ie_pr_version v = 1" "ie_processing_status v = ''accepted''"
    "is_dict (ie_raw_payload v)" "\<exists>hd. ie_webhook_headers v = Some (JObj hd) \<and> ''X-Gitlab-Token'' \<notin> fst ` set hd"
    and run: "run (persist_body pf d v pl) w = (Inr i, w')"
  shows "\<exists>row r n m. jsonb_codec pf \<and> stored_pair v pl row r \<and> oe_outbox_id r = i \<and>
    oe_dispatch_at r = w_db_clock w + seconds d \<and>
    ie_event_id row \<notin> ie_event_id ` set (w_inbound w) \<and>
    ie_correlation_id row \<notin> ie_correlation_id ` set (w_inbound w) \<and>
    ie_pr_hash_key row \<notin> hash_keys w \<and> i \<notin> oe_outbox_id ` set (w_outbox w) \<and>
    inbound_ok row \<and> w_uuids_drawn w \<le> m \<and>
    w' = w\<lparr>w_db_calls := n, w_uuids_drawn := m, w_inbound := w_inbound w @ [row],
           w_outbox := w_outbox w @ [r]\<rparr>"
proof -
  obtain row u where ins: "run (insert_inbound pf v) w = (Inr row, u)"
    and sch: "run (schedule_event ''vcs.webhook.received'' (ie_correlation_id v) (ie_pr_hash_key v) 1 pl
      (JObj [(''correlation_id'', JStr (uuid_str (ie_correlation_id v)))]) d) u = (Inr i, w')"
    using run_and_then_Inr [OF run [unfolded persist_body_def]] by blast
  obtain f n where f: "jsonb_codec pf" "fit_inbound v = Some f"
    and row: "row = f\<lparr>ie_rejection_reason := None, ie_created_at := w_db_clock w, ie_updated_at := w_db_clock w\<rparr>"
    and new: "ie_event_id row \<notin> ie_event_id ` set (w_inbound w)"
      "ie_correlation_id row \<notin> ie_correlation_id ` set (w_inbound w)" "ie_pr_hash_key row \<notin> hash_keys w"
    and u: "u = w\<lparr>w_db_calls := n, w_inbound := w_inbound w @ [row]\<rparr>"
    using insert_inbound_Inr [OF ins] by blast
  have tables: "list_all2 paired (w_inbound w) (w_outbox u)" "list_all inbound_ok (w_inbound w)"
    using inv by (simp_all add: u Inv_def tables_ok_def)
  obtain key where key: "varchar 64 (ie_pr_hash_key v) = Some key"
    and i: "i \<notin> oe_outbox_id ` set (w_outbox u)"
    and w': "w' = u\<lparr>w_db_calls := Suc (Suc (w_db_calls u)), w_uuids_drawn := Suc (w_uuids_drawn u),
      w_outbox := w_outbox u @ [scheduled_row i ''vcs.webhook.received'' (ie_correlation_id v) key pl
        (JObj [(''correlation_id'', JStr (uuid_str (ie_correlation_id v)))]) d (w_db_clock u)]\<rparr>"
    using schedule_event_Inr [OF tables sch] by blast
  have fits: "varchar 64 (ie_pr_hash_key v) = Some (ie_pr_hash_key f)"
    "varchar 50 (ie_processing_status v) = Some (ie_processing_status f)"
    using f(2) by (auto simp: fit_inbound_def bind_eq_Some_conv split: if_splits)
  note same = fit_inbound_unchanged [OF f(2)]
  have status: "ie_processing_status f = ''accepted''"
    using fits(2) v(2) by (simp add: varchar_fits py_len_def is_continuation_def)
  have ok: "inbound_ok row"
    using v same status by (auto simp: inbound_ok_def row elim: is_dict.elims)
  let ?r = "scheduled_row i ''vcs.webhook.received'' (ie_correlation_id v) key pl
        (JObj [(''correlation_id'', JStr (uuid_str (ie_correlation_id v)))]) d (w_db_clock u)"
  have "stored_pair v pl row ?r"
    using same fits key by (simp add: stored_pair_def row scheduled_row_def)
  then show ?thesis
    using f(1) new ok i
    by (intro exI [of _ row] exI [of _ ?r] exI [of _ "Suc (Suc n)"] exI [of _ "Suc (w_uuids_drawn w)"])
       (simp add: w' u scheduled_row_def)
qed

section \<open>Storing a pair is a step anybody may take\<close>

lemma find_append_left: "find P xs = Some r \<Longrightarrow> find P (xs @ ys) = Some r"
  by (induction xs) auto

lemma neutral_store_pair:
  assumes pair: "paired row r" and ok: "inbound_ok row" "outbox_ok r"
    and new: "ie_event_id row \<notin> ie_event_id ` set (w_inbound w)"
      "ie_correlation_id row \<notin> ie_correlation_id ` set (w_inbound w)"
      "ie_pr_hash_key row \<notin> hash_keys w" "oe_outbox_id r \<notin> oe_outbox_id ` set (w_outbox w)"
    and new_row: "oe_status r = SCHEDULED"
  shows "neutral w (w\<lparr>w_inbound := w_inbound w @ [row], w_outbox := w_outbox w @ [r]\<rparr>)"
proof -
  let ?w = "w\<lparr>w_inbound := w_inbound w @ [row], w_outbox := w_outbox w @ [r]\<rparr>"
  have tables: "tables_ok ?w" if "tables_ok w"
    using that assms by (auto simp: tables_ok_def hash_keys_def list_all2_appendI)
  have cache: "cache_ok ?w" if "cache_ok w"
    using that by (auto simp: cache_ok_def hash_keys_def)
  have tx: "tx_ok ?w x" if x: "tx_ok w x" for x
  proof -
    have "i \<noteq> oe_outbox_id r" if written: "(i, wr) \<in> set (tx_writes x)" for i wr
    proof -
      have "i \<in> set (tx_locks x)" using written x by (force simp: tx_ok_def)
      then have "i \<in> oe_outbox_id ` set (w_outbox w)" using x by (force simp: tx_ok_def)
      then show ?thesis using new(4) by blast
    qed
    then show ?thesis using x by (fastforce simp: tx_ok_def)
  qed
  have "txs_ok ?w" if "txs_ok w"
    using that tx by (simp add: txs_ok_def locked_ids_def)
  moreover have "list_all (message_ok ?w) (w_published ?w)" if "list_all (message_ok w) (w_published w)"
    using that by (fastforce simp: list_all_iff message_ok_def)
  moreover have "grows w ?w" using progress_self by (auto simp: grows_def)
  moreover have "frame p w ?w" if "Inv w" for p
  proof -
    have "row_of ?w i = row_of w i" if x: "tx_of w p = Some x" and i: "i \<in> set (tx_locks x)" for x i
    proof -
      have "tx_ok w x" using \<open>Inv w\<close> tx_of_in_txs [OF x] unfolding Inv_def txs_ok_def by blast
      then obtain r' where r': "r' \<in> set (w_outbox w)" "oe_outbox_id r' = i"
        using i by (auto simp: tx_ok_def)
      then have "row_of w i = Some r'" using row_of_in [of w r'] \<open>Inv w\<close> by (simp add: Inv_def)
      then show ?thesis using find_append_left [of _ "w_outbox w" r' "[r]"] by (simp add: row_of_def)
    qed
    then show ?thesis by (simp add: frame_def tx_of_def)
  qed
  moreover have "sent_ok ?w" if "sent_ok w"
    using that new_row by (simp add: sent_ok_def)
  ultimately show ?thesis using tables cache by (simp add: neutral_def Inv_def)
qed

section \<open>Unique violations\<close>

text \<open>
  What a unique violation means: the key is stored, or one of the request's UUIDs (its
  correlation id, or one drawn since the draw number \<open>n\<close>) is in use already.
\<close>

definition clash :: "nat \<Rightarrow> string \<Rightarrow> uuid \<Rightarrow> world \<Rightarrow> bool" where
  "clash n h cid w \<longleftrightarrow> h \<in> hash_keys w \<or> cid \<in> ie_correlation_id ` set (w_inbound w) \<or>
     (\<exists>k \<ge> n. w_uuid_source w k \<in> ie_event_id ` set (w_inbound w) \<union> oe_outbox_id ` set (w_outbox w))"

lemma grows_outbox_ids: "grows w w' \<Longrightarrow> oe_outbox_id ` set (w_outbox w) \<subseteq> oe_outbox_id ` set (w_outbox w')"
  unfolding grows_def progress_def by (smt (verit) image_iff subsetI)

lemma grows_clash:
  assumes "grows w w'" and "clash n h cid w"
  shows "clash n h cid w'"
proof -
  have "w_uuid_source w' = w_uuid_source w" "set (w_inbound w) \<subseteq> set (w_inbound w')"
    using assms(1) by (simp_all add: grows_def)
  then have "w_uuid_source w' = w_uuid_source w" "ie_event_id ` set (w_inbound w) \<subseteq> ie_event_id ` set (w_inbound w')"
    "ie_correlation_id ` set (w_inbound w) \<subseteq> ie_correlation_id ` set (w_inbound w')"
    by (simp_all add: image_mono)
  with grows_outbox_ids [OF assms(1)] grows_hash_keys [OF assms(1)] assms(2)
  show ?thesis unfolding clash_def by (metis (no_types, lifting) Un_iff subsetD)
qed

lemma run_execute_Inl:
  "run (execute f) w = (Inl e, w') \<Longrightarrow> is_unique_violation e \<Longrightarrow>
     f (w\<lparr>w_db_calls := Suc (w_db_calls w)\<rparr>) = (Inl e, w')"
  by (auto simp: execute_def db_call_def served_def split: fault.splits if_splits)

lemma run_and_then_Inl:
  "run (and_then p k) w = (Inl e, w') \<Longrightarrow>
     run p w = (Inl e, w') \<or> (\<exists>a v. run p w = (Inr a, v) \<and> run (k a) v = (Inl e, w'))"
  by (auto simp: run_and_then split: prod.splits sum.splits)

lemma insert_inbound_unique:
  assumes "run (insert_inbound pf v) w = (Inl e, w')" "is_unique_violation e"
    and h: "py_len (ie_pr_hash_key v) \<le> 64"
  shows "ie_event_id v \<in> ie_event_id ` set (w_inbound w) \<or>
    ie_correlation_id v \<in> ie_correlation_id ` set (w_inbound w) \<or> ie_pr_hash_key v \<in> hash_keys w"
proof -
  have "\<not> is_unique_violation x" if "validate_inbound pf r = Inl x" for r x
    using that by (auto simp: validate_inbound_def split: if_splits)
  then have "run (execute (insert_inbound_stmt pf v)) w = (Inl e, w')"
    using run_and_then_Inl [OF assms(1) [unfolded insert_inbound_def]] assms(2) by auto
  from run_execute_Inl [OF this assms(2)] show ?thesis
    using fit_inbound_unchanged [of v] fit_inbound_short(1) [of v] h assms(2)
    by (auto simp: insert_inbound_stmt_def Let_def hash_keys_def split: if_splits option.splits)
qed

lemma schedule_event_unique:
  assumes "run (schedule_event et c k v pl hs d) w = (Inl e, w')" "is_unique_violation e"
  shows "w_uuid_source w (w_uuids_drawn w) \<in> oe_outbox_id ` set (w_outbox w)"
proof -
  let ?cancel = "cancel_previous_stmt k v ''superseded_by_newer_version''"
  have no: "run (execute ?cancel) w \<noteq> (Inl e, w')"
    using run_execute_Inl [of ?cancel w e w'] assms(2) by (auto simp: cancel_previous_stmt_def split: if_splits)
  then obtain u x where u: "run (execute ?cancel) w = (Inr u, x)"
    and ins: "run (execute (insert_event_stmt et c k v pl hs d)) x = (Inl e, w')"
    using run_and_then_Inl [OF assms(1) [unfolded schedule_event_def]] by blast
  have "w_uuid_source x = w_uuid_source w" "w_uuids_drawn x = w_uuids_drawn w"
    "map oe_outbox_id (w_outbox x) = map oe_outbox_id (w_outbox w)"
    using run_execute_Inr [OF u] by (auto simp: cancel_previous_stmt_def split: if_splits)
  then have "w_uuid_source x = w_uuid_source w" "w_uuids_drawn x = w_uuids_drawn w"
    "oe_outbox_id ` set (w_outbox x) = oe_outbox_id ` set (w_outbox w)"
    by (simp_all flip: set_map)
  then show ?thesis
    using run_execute_Inl [OF ins assms(2)] assms(2)
    by (auto simp: insert_event_stmt_def Let_def split: if_splits option.splits)
qed

lemma persist_body_unique:
  assumes run: "run (persist_body pf d v pl) w = (Inl e, w')" "is_unique_violation e"
    and h: "py_len (ie_pr_hash_key v) \<le> 64" and n: "n \<le> w_uuids_drawn w"
    and eid: "n \<le> k" "ie_event_id v = w_uuid_source w k"
  shows "clash n (ie_pr_hash_key v) (ie_correlation_id v) w"
proof -
  consider (ins) "run (insert_inbound pf v) w = (Inl e, w')"
    | (sch) a u where "run (insert_inbound pf v) w = (Inr a, u)"
        "run (schedule_event ''vcs.webhook.received'' (ie_correlation_id v) (ie_pr_hash_key v) 1 pl
          (JObj [(''correlation_id'', JStr (uuid_str (ie_correlation_id v)))]) d) u = (Inl e, w')"
    using run_and_then_Inl [OF run(1) [unfolded persist_body_def]] by blast
  then show ?thesis
  proof cases
    case ins
    then show ?thesis
      using insert_inbound_unique [OF ins run(2) h] eid by (auto simp: clash_def)
  next
    case sch
    have "tables_only w u" by (rule local_run [OF local_insert_inbound sch(1)])
    moreover have "w_outbox u = w_outbox w" using insert_inbound_Inr [OF sch(1)] by auto
    ultimately show ?thesis
      using schedule_event_unique [OF sch(2) run(2)] le_trans [OF n, of "w_uuids_drawn u"]
      unfolding clash_def tables_only_def by (metis UnI2)
  qed
qed

section \<open>The persister under interference\<close>

text \<open>Both rows of an accepted webhook.\<close>

definition stored :: "uuid \<Rightarrow> uuid \<Rightarrow> uuid \<Rightarrow> string \<Rightarrow> json option \<Rightarrow> uuid \<Rightarrow> world \<Rightarrow> bool" where
  "stored eid cid tid h doc oid w \<longleftrightarrow> (\<exists>i \<in> set (w_inbound w). \<exists>r \<in> set (w_outbox w).
     ie_event_id i = eid \<and> ie_correlation_id i = cid \<and> ie_tenant_id i = tid \<and> ie_pr_hash_key i = h \<and>
     Some (ie_raw_payload i) = doc \<and>
     oe_outbox_id r = oid \<and> paired i r)"

lemma grows_stored:
  assumes "grows w w'" and "stored eid cid tid h doc oid w"
  shows "stored eid cid tid h doc oid w'"
proof -
  obtain i r where ir: "i \<in> set (w_inbound w)" "r \<in> set (w_outbox w)" "paired i r"
    "ie_event_id i = eid \<and> ie_correlation_id i = cid \<and> ie_tenant_id i = tid \<and> ie_pr_hash_key i = h"
    "Some (ie_raw_payload i) = doc" "oe_outbox_id r = oid"
    using assms(2) by (auto simp: stored_def)
  obtain r' where r': "r' \<in> set (w_outbox w')" "progress r r'"
    using ir(2) assms(1) by (auto simp: grows_def)
  have "i \<in> set (w_inbound w')" using ir(1) assms(1) by (auto simp: grows_def)
  moreover have "paired i r'" "oe_outbox_id r' = oid"
    using ir r'(2) by (simp_all add: paired_def progress_def)
  ultimately show ?thesis using ir r'(1) unfolding stored_def by blast
qed

lemma stored_key: "stored eid cid tid h doc oid w \<Longrightarrow> h \<in> hash_keys w"
  by (auto simp: stored_def hash_keys_def)

text \<open>What a request hands to the transaction.\<close>

definition proper_values :: "inbound_event \<Rightarrow> json \<Rightarrow> bool" where
  "proper_values v pl \<longleftrightarrow>
     ie_pr_version v = 1 \<and> ie_processing_status v = ''accepted'' \<and> is_dict (ie_raw_payload v) \<and>
     (\<exists>hd. ie_webhook_headers v = Some (JObj hd) \<and> ''X-Gitlab-Token'' \<notin> fst ` set hd) \<and>
     py_len (ie_pr_hash_key v) \<le> 64 \<and> describes pl v"

lemma transaction_cases:
  obtains (failed) e v where "run (and_then (query (\<lambda>_. ())) (\<lambda>_. body)) w = (Inl e, v)"
      "transaction_stmt body w = (Inl e, undo_tables w v)"
  | (committed) a v where "run (and_then (query (\<lambda>_. ())) (\<lambda>_. body)) w = (Inr a, v)"
      "transaction_stmt body w = (Inr a, v\<lparr>w_db_calls := Suc (w_db_calls v)\<rparr>)"
  | (unanswered) a v e u where "run (and_then (query (\<lambda>_. ())) (\<lambda>_. body)) w = (Inr a, v)"
      "transaction_stmt body w = (Inl e, u)" "\<not> is_unique_violation e"
      "u = v\<lparr>w_db_calls := Suc (w_db_calls v)\<rparr> \<or> u = undo_tables w (v\<lparr>w_db_calls := Suc (w_db_calls v)\<rparr>)"
proof (cases "run (and_then (query (\<lambda>_. ())) (\<lambda>_. body)) w")
  case (Pair r v)
  show ?thesis
  proof (cases r)
    case (Inl e)
    then show ?thesis using Pair by (intro failed) (simp_all add: transaction_stmt_def)
  next
    case (Inr a)
    show ?thesis
    proof (cases "w_db_faults v (w_db_calls v)")
      case NoFault
      then show ?thesis using Pair Inr by (intro committed) (simp_all add: transaction_stmt_def commit_def)
    next
      case (Fault ap ca)
      then show ?thesis
        using Pair Inr
        by (intro unanswered [of a v "if ca then Cancelled else PostgresError ''connection''"
            "if ap then v\<lparr>w_db_calls := Suc (w_db_calls v)\<rparr>
             else undo_tables w (v\<lparr>w_db_calls := Suc (w_db_calls v)\<rparr>)"])
           (simp_all add: transaction_stmt_def commit_def Let_def)
    qed
  qed
qed

lemma query_then_body:
  assumes "run (and_then (query (\<lambda>_. ())) (\<lambda>_. body)) w = (r, v)"
  shows "(\<exists>e. r = Inl e \<and> \<not> is_unique_violation e) \<or> run body (w\<lparr>w_db_calls := Suc (w_db_calls w)\<rparr>) = (r, v)"
  using assms
  by (auto simp: run_and_then query_def db_call_def served_def split: fault.splits if_splits)

lemma persist_step:
  assumes inv: "Inv w" and v: "proper_values v pl"
    and n: "n \<le> w_uuids_drawn w" "n \<le> k" "ie_event_id v = w_uuid_source w k"
    and t: "transaction_stmt (persist_body pf d v pl) w = (res, w')"
  shows "neutral w w' \<and> (case res of
      Inl e \<Rightarrow> is_unique_violation e \<longrightarrow> clash n (ie_pr_hash_key v) (ie_correlation_id v) w'
    | Inr oid \<Rightarrow> jsonb_codec pf \<and>
        stored (ie_event_id v) (ie_correlation_id v) (ie_tenant_id v) (ie_pr_hash_key v) (Some (ie_raw_payload v)) oid w')"
proof -
  let ?b = "persist_body pf d v pl" and ?w = "w\<lparr>w_db_calls := Suc (w_db_calls w)\<rparr>"
  have w: "Inv ?w" using inv by simp
  have local_b: "tables_only w v'" if "run (and_then (query (\<lambda>_. ())) (\<lambda>_. ?b)) w = (r, v')" for r v'
    by (rule local_run [OF local_and_then [OF local_query local_persist_body] that])
  have bump: "neutral x (x\<lparr>w_db_calls := m\<rparr>)" for x m by (simp add: quiet_neutral)
  have good: "neutral w x \<and> jsonb_codec pf \<and>
      stored (ie_event_id v) (ie_correlation_id v) (ie_tenant_id v) (ie_pr_hash_key v) (Some (ie_raw_payload v)) oid x"
    if run: "run (and_then (query (\<lambda>_. ())) (\<lambda>_. ?b)) w = (Inr oid, x)" for oid x
  proof -
    have body: "run ?b ?w = (Inr oid, x)" using query_then_body [OF run] by simp
    have props: "ie_pr_version v = 1" "ie_processing_status v = ''accepted''" "is_dict (ie_raw_payload v)"
      "\<exists>hd. ie_webhook_headers v = Some (JObj hd) \<and> ''X-Gitlab-Token'' \<notin> fst ` set hd"
      using v unfolding proper_values_def by blast+
    obtain row r n m where codec: "jsonb_codec pf" and pair: "stored_pair v pl row r" and i: "oe_outbox_id r = oid"
      and new: "ie_event_id row \<notin> ie_event_id ` set (w_inbound ?w)"
        "ie_correlation_id row \<notin> ie_correlation_id ` set (w_inbound ?w)"
        "ie_pr_hash_key row \<notin> hash_keys ?w" "oid \<notin> oe_outbox_id ` set (w_outbox ?w)"
      and ok: "inbound_ok row" and m: "w_uuids_drawn ?w \<le> m"
      and x: "x = ?w\<lparr>w_db_calls := n, w_uuids_drawn := m, w_inbound := w_inbound ?w @ [row],
        w_outbox := w_outbox ?w @ [r]\<rparr>"
      using persist_body_Inr [OF w props body] by (elim exE conjE) (rule that; assumption)
    have key: "ie_pr_hash_key row = ie_pr_hash_key v"
      using pair v by (simp add: stored_pair_def proper_values_def varchar_fits)
    have paired: "paired row r"
      using pair v ok key by (simp add: paired_def stored_pair_def proper_values_def describes_def inbound_ok_def)
    let ?u = "?w\<lparr>w_db_calls := n, w_uuids_drawn := m\<rparr>"
    have "quiet w ?u" using m by (simp add: quiet_def)
    moreover have "neutral ?u (?u\<lparr>w_inbound := w_inbound ?u @ [row], w_outbox := w_outbox ?u @ [r]\<rparr>)"
    proof (rule neutral_store_pair [OF _ ok])
      show "paired row r" by (rule paired)
      show "outbox_ok r" "oe_status r = SCHEDULED" using pair by (simp_all add: outbox_ok_def stored_pair_def)
    qed (use new i in \<open>simp_all add: hash_keys_def\<close>)
    ultimately have "neutral w x" using x neutral_trans [OF quiet_neutral] by simp
    moreover have "stored (ie_event_id v) (ie_correlation_id v) (ie_tenant_id v) (ie_pr_hash_key v) (Some (ie_raw_payload v)) oid x"
      using pair key paired i unfolding stored_def x
      by (intro bexI [of _ row] bexI [of _ r]) (simp_all add: stored_pair_def)
    ultimately show ?thesis using codec by blast
  qed
  show ?thesis
    using t
  proof (cases rule: transaction_cases [where body = ?b and w = w])
    case (failed e u)
    then have w': "w' = undo_tables w u" "res = Inl e" using t by simp_all
    have q: "neutral w w'" unfolding w' by (intro quiet_neutral undo_quiet local_b [OF failed(1)])
    have "clash n (ie_pr_hash_key v) (ie_correlation_id v) w'" if "is_unique_violation e"
    proof -
      have "run ?b ?w = (Inl e, u)" using query_then_body [OF failed(1)] that by simp
      then have "clash n (ie_pr_hash_key v) (ie_correlation_id v) ?w"
        by (rule persist_body_unique [OF _ that])
          (use v n in \<open>simp_all add: proper_values_def\<close>)
      then show ?thesis
        using q inv grows_clash [of w w'] by (simp add: neutral_def clash_def hash_keys_def)
    qed
    then show ?thesis using q w' by simp
  next
    case (committed oid u)
    then have w': "w' = u\<lparr>w_db_calls := Suc (w_db_calls u)\<rparr>" "res = Inr oid" using t by simp_all
    have q: "neutral w w'" unfolding w' using good [OF committed(1)] bump neutral_trans by blast
    have "stored (ie_event_id v) (ie_correlation_id v) (ie_tenant_id v) (ie_pr_hash_key v) (Some (ie_raw_payload v)) oid w'"
      using good [OF committed(1)] by (simp add: stored_def w')
    then show ?thesis using q good [OF committed(1)] w'(2) by simp
  next
    case (unanswered oid u e x)
    have "neutral w x"
      using unanswered(4)
    proof
      assume "x = u\<lparr>w_db_calls := Suc (w_db_calls u)\<rparr>"
      then show ?thesis using good [OF unanswered(1)] bump neutral_trans by blast
    next
      assume "x = undo_tables w (u\<lparr>w_db_calls := Suc (w_db_calls u)\<rparr>)"
      moreover have "tables_only w (u\<lparr>w_db_calls := Suc (w_db_calls u)\<rparr>)"
        using local_b [OF unanswered(1)] by (simp add: tables_only_def)
      ultimately show ?thesis by (simp add: quiet_neutral undo_quiet)
    qed
    then show ?thesis using unanswered t by simp
  qed
qed

text \<open>The drivers' errors are not the service's own.\<close>

definition foreign_errors :: "'a io \<Rightarrow> bool" where
  "foreign_errors p \<longleftrightarrow> (\<forall>w e. fst (run p w) = Inl e \<longrightarrow> \<not> is_service_error e)"

lemma foreign_execute: "(\<And>w e. fst (f w) = Inl e \<Longrightarrow> \<not> is_service_error e) \<Longrightarrow> foreign_errors (execute f)"
  by (auto simp: foreign_errors_def execute_def db_call_def served_def split: fault.splits if_splits)

lemma foreign_and_then:
  "foreign_errors p \<Longrightarrow> (\<And>x. foreign_errors (k x)) \<Longrightarrow> foreign_errors (and_then p k)"
  unfolding foreign_errors_def run_and_then
  by (auto split: prod.splits sum.splits) (metis fst_conv)

lemma foreign_persist_body: "foreign_errors (persist_body pf d v pl)"
  unfolding persist_body_def insert_inbound_def schedule_event_def
  by (intro foreign_and_then foreign_execute)
     (auto simp: insert_inbound_stmt_def insert_event_stmt_def cancel_previous_stmt_def Let_def
        foreign_errors_def validate_inbound_def split: if_splits option.splits)

lemma transaction_foreign:
  assumes "foreign_errors body" and "transaction_stmt body w = (Inl e, w')"
  shows "\<not> is_service_error e"
proof -
  have "foreign_errors (and_then (query (\<lambda>_. ())) (\<lambda>_. body))"
    by (intro foreign_and_then assms(1))
       (auto simp: foreign_errors_def query_def db_call_def served_def split: fault.splits if_splits)
  then show ?thesis
    using assms(2) unfolding foreign_errors_def transaction_stmt_def commit_def served_def
    by (auto simp: Let_def split: prod.splits sum.splits fault.splits if_splits) (metis fst_conv)
qed

definition is_duplicate_error :: "exn \<Rightarrow> bool" where
  "is_duplicate_error e \<longleftrightarrow> (\<exists>se. e = Service se \<and> se_kind se = DuplicateError)"

definition persisted ::
    "platform \<Rightarrow> nat \<Rightarrow> uuid \<Rightarrow> uuid \<Rightarrow> string \<Rightarrow> json option \<Rightarrow> exn + uuid \<times> uuid \<Rightarrow> world \<Rightarrow> bool" where
  "persisted pf n cid tid h doc res w \<longleftrightarrow>
     (case res of
        Inr (eid, oid) \<Rightarrow> jsonb_codec pf \<and> stored eid cid tid h doc oid w
      | Inl e \<Rightarrow> is_duplicate_error e \<longrightarrow> clash n h cid w)"

lemma stored_headers_keys: "fst ` set (stored_headers hs) \<subseteq> relevant_headers"
  by (auto simp: stored_headers_def)

lemma proper_inbound_values:
  assumes "is_dict j" and "py_len h \<le> 64"
  shows "proper_values (inbound_values eid cid tid p pr h j (stored_headers hs))
    (dump_webhook_received pf (received_message eid cid tid t p pr h j))"
proof -
  have "''X-Gitlab-Token'' \<notin> fst ` set (stored_headers hs)"
    using stored_headers_keys [of hs] by (auto simp: relevant_headers_def)
  then show ?thesis
    using assms by (simp add: proper_values_def inbound_values_def dump_webhook_received_def
        dump_base_def received_message_def describes_def message_field_def)
qed

lemma persisted_stable:
  "persisted pf n cid tid h doc res w \<Longrightarrow> Inv w \<Longrightarrow> rely a w w' \<Longrightarrow> persisted pf n cid tid h doc res w'"
  using rely_grows [of a w w'] grows_clash [of w w'] grows_stored [of w w']
  by (auto simp: persisted_def split: sum.splits)

lemma spec_persist_transaction:
  assumes inv: "Inv w" and v: "proper_values v pl"
    and n: "n \<le> w_uuids_drawn w" "n \<le> k" "ie_event_id v = w_uuid_source w k"
  shows "spec a (transaction (persist_body pf d v pl)) (\<lambda>res w'. case res of
      Inr oid \<Rightarrow> jsonb_codec pf \<and>
        stored (ie_event_id v) (ie_correlation_id v) (ie_tenant_id v) (ie_pr_hash_key v) (Some (ie_raw_payload v)) oid w'
    | Inl e \<Rightarrow> \<not> is_service_error e \<and>
        (is_unique_violation e \<longrightarrow> clash n (ie_pr_hash_key v) (ie_correlation_id v) w')) w"
  unfolding transaction_def
proof (rule wp_atomic)
  have step: "neutral w' (snd (transaction_stmt (persist_body pf d v pl) w')) \<and> Inv w' \<and>
    (case fst (transaction_stmt (persist_body pf d v pl) w') of
      Inl e \<Rightarrow> is_unique_violation e \<longrightarrow>
        clash n (ie_pr_hash_key v) (ie_correlation_id v) (snd (transaction_stmt (persist_body pf d v pl) w'))
    | Inr oid \<Rightarrow> jsonb_codec pf \<and> stored (ie_event_id v) (ie_correlation_id v) (ie_tenant_id v)
        (ie_pr_hash_key v) (Some (ie_raw_payload v)) oid (snd (transaction_stmt (persist_body pf d v pl) w')))"
    if "rely a w w'" for w'
  proof -
    have "Inv w'" "grows w w'" using that inv rely_Inv rely_grows by blast+
    then have "n \<le> w_uuids_drawn w'" "ie_event_id v = w_uuid_source w' k"
      using n by (auto simp: grows_def)
    with \<open>Inv w'\<close> show ?thesis
      using persist_step [OF _ v _ n(2) _ prod.collapse [symmetric]] by blast
  qed
  {
    fix w' assume "rely a w w'"
    then show "guarantee a w' (snd (transaction_stmt (persist_body pf d v pl) w'))"
      using step neutral_guarantee by blast
  next
    fix w' w'' assume w': "rely a w w'" "rely a (snd (transaction_stmt (persist_body pf d v pl) w')) w''"
    let ?t = "transaction_stmt (persist_body pf d v pl) w'"
    have "Inv (snd ?t)" using step [OF w'(1)] by (simp add: neutral_def)
    then have g: "grows (snd ?t) w''" using w'(2) rely_grows by blast
    show "case fst ?t of
      Inr oid \<Rightarrow> jsonb_codec pf \<and>
        stored (ie_event_id v) (ie_correlation_id v) (ie_tenant_id v) (ie_pr_hash_key v) (Some (ie_raw_payload v)) oid w''
    | Inl e \<Rightarrow> \<not> is_service_error e \<and>
        (is_unique_violation e \<longrightarrow> clash n (ie_pr_hash_key v) (ie_correlation_id v) w'')"
      using step [OF w'(1)] grows_stored [OF g] grows_clash [OF g]
        transaction_foreign [OF foreign_persist_body, of pf d v pl w']
      by (cases ?t) (auto split: sum.splits)
  }
qed

lemma spec_utc_now:
  assumes "\<And>t w'. rely a w w' \<Longrightarrow> Q (Inr t) w'"
  shows "spec a utc_now Q w"
  unfolding utc_now_def by (rule wp_atomic) (use assms R_trans in \<open>auto simp: neutral_guarantee\<close>)

lemma spec_persist:
  assumes inv: "Inv w" and h: "py_len h \<le> 64" and n: "n \<le> w_uuids_drawn w"
  shows "spec a (persist pf st tid p cid pr h raw hs) (persisted pf n cid tid h (json_loads pf raw)) w"
  unfolding persist_def
proof (rule wp_and_then, unfold uuid4_def, rule wp_atomic, goal_cases)
  case (1 w')
  show ?case by (simp add: neutral_guarantee quiet_neutral quiet_def)
next
  case (2 w' w'')
  let ?u = "w'\<lparr>w_uuids_drawn := Suc (w_uuids_drawn w')\<rparr>" and ?k = "w_uuids_drawn w'"
  have w': "Inv w'" "grows w w'" using 2(1) inv rely_Inv rely_grows by blast+
  have u: "neutral w' ?u" by (simp add: quiet_neutral quiet_def)
  then have w'': "Inv w''" "grows ?u w''"
    using 2(2) w'(1) rely_Inv [of a ?u w''] rely_grows [of a ?u w''] by (simp_all add: neutral_def)
  define eid where "eid = w_uuid_source w' ?k"
  have k: "n \<le> ?k" "n \<le> w_uuids_drawn w''" "eid = w_uuid_source w'' ?k"
    using n w' w''(2) by (auto simp: grows_def eid_def)
  have failed: "spec a (Done (Inl e)) (persisted pf n cid tid h (json_loads pf raw)) x" if "\<not> is_duplicate_error e" for e x
    using that by (simp add: wp_Done persisted_def)
  have body: "spec a (on_error
      (and_then (transaction (persist_body pf (outbox_debounce_seconds st)
         (inbound_values eid cid tid p pr h j (stored_headers hs))
         (dump_webhook_received pf (received_message eid cid tid t p pr h j))))
        (\<lambda>oid. ret (eid, oid)))
      (\<lambda>e. if is_unique_violation e then throw (already_persisted h) else throw e))
     (persisted pf n cid tid h (json_loads pf raw)) x"
    if j: "is_dict j" and loaded: "json_loads pf raw = Some j" and x: "rely a w'' x" for j t x
  proof -
    have x': "Inv x" "grows w'' x" using x w''(1) rely_Inv rely_grows by blast+
    have kx: "n \<le> w_uuids_drawn x" "eid = w_uuid_source x ?k"
      using k x'(2) by (auto simp: grows_def)
    let ?v = "inbound_values eid cid tid p pr h j (stored_headers hs)"
    have ids: "ie_event_id ?v = eid" "ie_correlation_id ?v = cid" "ie_tenant_id ?v = tid" "ie_pr_hash_key ?v = h"
      "Some (ie_raw_payload ?v) = json_loads pf raw"
      using loaded by (simp_all add: inbound_values_def)
    show ?thesis
    proof (rule wp_on_error, rule wp_and_then,
        rule wp_consequence [OF wp_closed [OF spec_persist_transaction [OF x'(1) proper_inbound_values [OF j h] kx(1) k(1)]]],
        goal_cases)
      case 1
      show ?case using kx(2) ids by simp
    next
      case (2 res y)
      then show ?case
        unfolding ids
        by (cases res)
          (auto simp: wp_Done persisted_def is_duplicate_error_def already_persisted_def intro: R_refl)
    qed
  qed
  show ?case
    unfolding eid_def [symmetric]
    using failed body
    by (auto simp: is_duplicate_error_def intro!: wp_and_then spec_utc_now split: option.split)
qed

end
