(* ===== verification/Gateway_Service.thy ===== *)
theory Gateway_Service
  imports Webhook_Processor
begin

text \<open>
  \<open>src/vcs_gateway/services/vcs_gateway.py\<close>: the orchestrator. \<open>process_webhook\<close> is the
  pipeline of a webhook request; \<open>check_duplicate\<close> and \<open>check_stale\<close> serve the internal API.
  The dependencies that \<open>VcsGatewayService.__init__\<close> stores (pool, Redis client, broker
  connection, settings) are the world, the \<open>platform\<close> and the \<open>settings\<close> arguments.
\<close>

section \<open>Results\<close>

datatype webhook_result =
    WebhookAccepted (wa_correlation_id: uuid) (wa_event_id: uuid) (wa_outbox_id: uuid)
  | WebhookDuplicate (wd_correlation_id: uuid) (wd_pr_hash_key: string) (wd_detection_method: string)
  | WebhookIgnored (wi_correlation_id: uuid) (wi_event_type: string) (wi_code: string)

definition event_type_not_allowed :: string where
  "event_type_not_allowed = ''EVENT_TYPE_NOT_ALLOWED''"

definition supported_providers :: "string set" where
  "supported_providers = {''github'', ''gitlab''}"

section \<open>Journey events\<close>

definition journey_event ::
    "uuid \<Rightarrow> time \<Rightarrow> journey_step_type \<Rightarrow> journey_step_status \<Rightarrow> uuid \<Rightarrow> uuid \<Rightarrow> pydict option \<Rightarrow> journey_step_event" where
  "journey_event event_id timestamp step_type status correlation_id tenant_id metadata =
     \<lparr>ev_event_id = event_id, ev_event_type = ''journey.step.created'',
      ev_correlation_id = correlation_id, ev_tenant_id = tenant_id, ev_timestamp = timestamp,
      js_service_name = ''vcs-gateway'', js_step_type = step_type, js_status = status,
      js_pr_hash_key = None, js_pr_id = None, js_repo_id = None,
      js_metadata = (case metadata of None \<Rightarrow> [] | Some m \<Rightarrow> m)\<rparr>"

text \<open>\<open>_emit\<close>: fire and forget.\<close>

definition emit ::
    "platform \<Rightarrow> settings \<Rightarrow> journey_step_type \<Rightarrow> journey_step_status \<Rightarrow> uuid \<Rightarrow> uuid \<Rightarrow> pydict option \<Rightarrow> unit io" where
  "emit pf st step_type status correlation_id tenant_id metadata =
     except_exception
       (and_then uuid4 (\<lambda>event_id. and_then utc_now (\<lambda>timestamp.
          publish (rabbitmq_exchange_journey st) ''journey.step.created''
            (dump_journey_step pf
              (journey_event event_id timestamp step_type status correlation_id tenant_id metadata))
            (uuid_str correlation_id))))
       (\<lambda>_. ret ())"

section \<open>The pipeline\<close>

definition invalid_signature :: exn where
  "invalid_signature =
     Service (service_error ValidationError ''Invalid webhook signature''
       (Some [(''code'', JStr ''INVALID_SIGNATURE'')]))"

definition unsupported_provider :: "platform \<Rightarrow> string \<Rightarrow> exn" where
  "unsupported_provider pf vcs_provider =
     Service (service_error ValidationError (''Unsupported vcs_provider: '' @ py_repr pf (JStr vcs_provider))
       (Some [(''code'', JStr ''UNSUPPORTED_PROVIDER'')]))"

definition signature_valid ::
    "string \<Rightarrow> bytes \<Rightarrow> (string \<times> string) list \<Rightarrow> string \<Rightarrow> exn + bool" where
  "signature_valid vcs_provider raw_payload headers webhook_secret =
     (if vcs_provider = ''github'' then
        validate_github_signature raw_payload webhook_secret
          (dict_get_or headers ''X-Hub-Signature-256'' '''')
      else if vcs_provider = ''gitlab'' then
        Inr (validate_gitlab_token (dict_get_or headers ''X-Gitlab-Token'' '''') webhook_secret)
      else Inr False)"

definition validate_signature ::
    "platform \<Rightarrow> settings \<Rightarrow> string \<Rightarrow> bytes \<Rightarrow> (string \<times> string) list \<Rightarrow> string \<Rightarrow> uuid \<Rightarrow> uuid \<Rightarrow> unit io" where
  "validate_signature pf st vcs_provider raw_payload headers webhook_secret correlation_id tenant_id =
     and_then (Done (signature_valid vcs_provider raw_payload headers webhook_secret)) (\<lambda>valid.
     and_then (emit pf st signature_verified (if valid then completed else failed)
                 correlation_id tenant_id None) (\<lambda>_.
       if valid then ret () else throw invalid_signature))"

definition hash_key_of :: "string \<Rightarrow> uuid \<Rightarrow> pull_request_data \<Rightarrow> string" where
  "hash_key_of vcs_provider tenant_id pr_data =
     compute_pr_hash_key vcs_provider (uuid_str tenant_id) (pd_repo_id pr_data) (pd_pr_id pr_data)
       (pd_vcs_instance_id pr_data) (pd_action pr_data) (pd_commit_sha pr_data)"

text \<open>Step 6: persist, and what follows it.\<close>

definition persist_and_report ::
    "platform \<Rightarrow> settings \<Rightarrow> uuid \<Rightarrow> string \<Rightarrow> uuid \<Rightarrow> pull_request_data \<Rightarrow> string \<Rightarrow> bytes \<Rightarrow>
     (string \<times> string) list \<Rightarrow> webhook_result io" where
  "persist_and_report pf st tenant_id vcs_provider correlation_id pr_data pr_hash_key raw_payload headers =
     attempt (persist pf st tenant_id vcs_provider correlation_id pr_data pr_hash_key raw_payload headers)
       (\<lambda>r. case r of
          Inl e \<Rightarrow>
            (case e of
               Service se \<Rightarrow>
                 if se_kind se = DuplicateError
                 then ret (WebhookDuplicate correlation_id pr_hash_key ''db_constraint'')
                 else throw e
             | _ \<Rightarrow> throw e)
        | Inr (event_id, outbox_id) \<Rightarrow>
            and_then (mark_processed (redis_idempotency_ttl_seconds st) pr_hash_key) (\<lambda>_.
            and_then (emit pf st outbox_scheduled completed correlation_id tenant_id
                (Some [(''outbox_id'', JStr (uuid_str outbox_id)), (''pr_hash_key'', JStr pr_hash_key)])) (\<lambda>_.
              ret (WebhookAccepted correlation_id event_id outbox_id))))"

text \<open>Steps 4 to 6: after the signature has been verified.\<close>

definition process_verified ::
    "platform \<Rightarrow> settings \<Rightarrow> uuid \<Rightarrow> string \<Rightarrow> uuid \<Rightarrow> string \<Rightarrow> whitelist_entry list \<Rightarrow> bytes \<Rightarrow>
     (string \<times> string) list \<Rightarrow> webhook_result io" where
  "process_verified pf st tenant_id vcs_provider correlation_id event_type whitelist raw_payload headers =
     and_then (Done (parse_payload pf vcs_provider raw_payload)) (\<lambda>pr_data.
       let action = pd_action pr_data in
       if \<not> is_event_allowed event_type action whitelist
       then and_then (emit pf st event_type_validated info correlation_id tenant_id
                (Some [(''event_type'', JStr event_type), (''action'', JStr action)]))
              (\<lambda>_. ret (WebhookIgnored correlation_id event_type event_type_not_allowed))
       else let pr_hash_key = hash_key_of vcs_provider tenant_id pr_data in
         and_then (check pf (redis_idempotency_ttl_seconds st) pr_hash_key) (\<lambda>detection.
           case detection of
             Some method \<Rightarrow>
               and_then (emit pf st idempotency_checked info correlation_id tenant_id
                   (Some [(''detection_method'', JStr method)]))
                 (\<lambda>_. ret (WebhookDuplicate correlation_id pr_hash_key method))
           | None \<Rightarrow>
               and_then (emit pf st idempotency_checked completed correlation_id tenant_id None) (\<lambda>_.
                 persist_and_report pf st tenant_id vcs_provider correlation_id pr_data pr_hash_key
                   raw_payload headers)))"

definition process_webhook ::
    "platform \<Rightarrow> settings \<Rightarrow> uuid \<Rightarrow> string \<Rightarrow> bytes \<Rightarrow> (string \<times> string) list \<Rightarrow> webhook_result io" where
  "process_webhook pf st tenant_id vcs_provider raw_payload headers =
     and_then uuid4 (\<lambda>correlation_id.
       if vcs_provider \<notin> supported_providers then throw (unsupported_provider pf vcs_provider)
       else
         and_then (get_webhook_secret pf tenant_id) (\<lambda>webhook_secret.
           let event_type = extract_event_type headers in
           and_then (get_event_whitelist vcs_provider) (\<lambda>whitelist.
           and_then (validate_signature pf st vcs_provider raw_payload headers webhook_secret
                       correlation_id tenant_id) (\<lambda>_.
           and_then (emit pf st webhook_received in_progress correlation_id tenant_id None) (\<lambda>_.
             process_verified pf st tenant_id vcs_provider correlation_id event_type whitelist
               raw_payload headers)))))"

section \<open>The internal checks\<close>

definition check_duplicate :: "platform \<Rightarrow> settings \<Rightarrow> string \<Rightarrow> json io" where
  "check_duplicate pf st pr_hash_key =
     and_then (check pf (redis_idempotency_ttl_seconds st) pr_hash_key) (\<lambda>detection.
       if detection = Some ''redis_cache'' then
         ret (JObj [(''is_duplicate'', JBool True), (''cache_hit'', JBool True),
                    (''pr_hash_key'', JStr pr_hash_key)])
       else if detection = Some ''db_lookup'' then
         and_then (get_by_pr_hash_key pf pr_hash_key) (\<lambda>event.
           ret (JObj [(''is_duplicate'', JBool True), (''cache_hit'', JBool False),
             (''pr_hash_key'', JStr pr_hash_key),
             (''existing_event_id'', case event of None \<Rightarrow> JNull | Some e \<Rightarrow> JStr (uuid_str (ie_event_id e))),
             (''existing_correlation_id'',
                case event of None \<Rightarrow> JNull | Some e \<Rightarrow> JStr (uuid_str (ie_correlation_id e)))]))
       else ret (JObj [(''is_duplicate'', JBool False), (''cache_hit'', JBool False),
                       (''pr_hash_key'', JStr pr_hash_key)]))"

definition check_stale :: "platform \<Rightarrow> string \<Rightarrow> int \<Rightarrow> json io" where
  "check_stale pf pr_hash_key pr_version =
     and_then (get_by_pr_hash_key pf pr_hash_key) (\<lambda>event.
       case event of
         Some e \<Rightarrow>
           if pr_version < ie_pr_version e then
             ret (JObj [(''is_stale'', JBool True), (''pr_hash_key'', JStr pr_hash_key),
                        (''provided_version'', JInt pr_version), (''latest_version'', JInt (ie_pr_version e))])
           else ret (JObj [(''is_stale'', JBool False), (''pr_hash_key'', JStr pr_hash_key)])
       | None \<Rightarrow> ret (JObj [(''is_stale'', JBool False), (''pr_hash_key'', JStr pr_hash_key)]))"

end
