(* ===== verification/Api.thy ===== *)
theory Api
  imports Gateway_Service
begin

text \<open>
  The HTTP layer: \<open>src/vcs_gateway/api/v1/webhooks.py\<close>, \<open>api/internal/endpoints.py\<close>,
  \<open>api/health.py\<close>, the middleware of \<open>core/middleware.py\<close> and the stack that \<open>create_app\<close>
  (\<open>main.py\<close>) builds. Routing and the parsing of path and header parameters are the
  framework's; an endpoint takes the parsed values. Starlette puts its own middleware around
  that of the application: an exception without a registered handler passes the application's
  middleware and becomes a plain 500.
\<close>

section \<open>Webhook endpoints\<close>

definition max_body_bytes :: nat where
  "max_body_bytes = 5 * 1024 * 1024"

definition payload_too_large :: http_response where
  "payload_too_large =
     \<lparr>hr_status = 413, hr_headers = [],
      hr_content = JObj [(''code'', JStr ''PAYLOAD_TOO_LARGE''),
                         (''message'', JStr ''Request body exceeds 5 MB limit'')]\<rparr>"

definition check_body_size :: "bytes \<Rightarrow> http_response option" where
  "check_body_size raw_payload =
     (if max_body_bytes < length raw_payload then Some payload_too_large else None)"

fun response_body :: "webhook_result \<Rightarrow> json" where
  "response_body (WebhookAccepted cid eid oid) =
     JObj [(''status'', JStr ''accepted''), (''correlation_id'', JStr (uuid_str cid)),
           (''event_id'', JStr (uuid_str eid)),
           (''message'', JStr ''Webhook accepted and scheduled for processing''),
           (''dispatch_in'', JStr ''30s'')]"
| "response_body (WebhookDuplicate cid h method) =
     JObj [(''status'', JStr ''ignored''), (''code'', JStr ''DUPLICATE_WEBHOOK''),
           (''correlation_id'', JStr (uuid_str cid)), (''pr_hash_key'', JStr h),
           (''detection_method'', JStr method)]"
| "response_body (WebhookIgnored cid event_type code) =
     JObj [(''status'', JStr ''ignored''), (''code'', JStr code),
           (''correlation_id'', JStr (uuid_str cid)), (''event_type'', JStr event_type)]"

definition to_response :: "webhook_result \<Rightarrow> http_response" where
  "to_response result =
     \<lparr>hr_status = (case result of WebhookAccepted _ _ _ \<Rightarrow> 202 | _ \<Rightarrow> 200), hr_headers = [],
      hr_content = response_body result\<rparr>"

definition receive_webhook ::
    "platform \<Rightarrow> settings \<Rightarrow> uuid \<Rightarrow> string \<Rightarrow> bytes \<Rightarrow> (string \<times> string) list \<Rightarrow> http_response io" where
  "receive_webhook pf st tenant_id vcs_provider raw_payload headers =
     (case check_body_size raw_payload of
        Some err \<Rightarrow> ret err
      | None \<Rightarrow> and_then (process_webhook pf st tenant_id vcs_provider raw_payload headers)
                  (\<lambda>result. ret (to_response result)))"

definition receive_github_webhook ::
    "platform \<Rightarrow> settings \<Rightarrow> uuid \<Rightarrow> bytes \<Rightarrow> string \<Rightarrow> string \<Rightarrow> http_response io" where
  "receive_github_webhook pf st tenant_id raw_payload x_hub_signature_256 x_github_event =
     receive_webhook pf st tenant_id ''github'' raw_payload
       [(''X-Hub-Signature-256'', x_hub_signature_256), (''X-GitHub-Event'', x_github_event)]"

definition receive_gitlab_webhook ::
    "platform \<Rightarrow> settings \<Rightarrow> uuid \<Rightarrow> bytes \<Rightarrow> string \<Rightarrow> string \<Rightarrow> http_response io" where
  "receive_gitlab_webhook pf st tenant_id raw_payload x_gitlab_token x_gitlab_event =
     receive_webhook pf st tenant_id ''gitlab'' raw_payload
       [(''X-Gitlab-Token'', x_gitlab_token), (''X-Gitlab-Event'', x_gitlab_event)]"

section \<open>Internal endpoints\<close>

text \<open>The constraints of the query parameters; the framework rejects other requests.\<close>

definition hash_key_query :: "string \<Rightarrow> bool" where
  "hash_key_query pr_hash_key \<longleftrightarrow> py_len pr_hash_key = 64"

definition version_query :: "int \<Rightarrow> bool" where
  "version_query pr_version \<longleftrightarrow> 1 \<le> pr_version"

definition json_response :: "json \<Rightarrow> http_response" where
  "json_response j = \<lparr>hr_status = 200, hr_headers = [], hr_content = j\<rparr>"

definition check_duplicate_endpoint :: "platform \<Rightarrow> settings \<Rightarrow> string \<Rightarrow> http_response io" where
  "check_duplicate_endpoint pf st pr_hash_key =
     and_then (check_duplicate pf st pr_hash_key) (\<lambda>j. ret (json_response j))"

definition check_stale_endpoint :: "platform \<Rightarrow> string \<Rightarrow> int \<Rightarrow> http_response io" where
  "check_stale_endpoint pf pr_hash_key pr_version =
     and_then (check_stale pf pr_hash_key pr_version) (\<lambda>j. ret (json_response j))"

section \<open>Health\<close>

definition liveness :: http_response where
  "liveness = json_response (JObj [(''status'', JStr ''ok'')])"

text \<open>\<open>amqp_closed\<close> is what reading \<open>is_closed\<close> of the AMQP connection yields.\<close>

definition readiness_response :: "string \<Rightarrow> string \<Rightarrow> string \<Rightarrow> http_response" where
  "readiness_response database rabbitmq redis =
     json_response (JObj
       [(''status'', JStr (if list_all (\<lambda>v. v \<in> {''ok'', ''degraded''}) [database, rabbitmq, redis]
                           then ''ready'' else ''not_ready'')),
        (''checks'', JObj [(''database'', JStr database), (''rabbitmq'', JStr rabbitmq),
                           (''redis'', JStr redis)])])"

definition readiness :: "exn + bool \<Rightarrow> http_response io" where
  "readiness amqp_closed =
     and_then (except_exception (and_then (query (\<lambda>_. ())) (\<lambda>_. ret ''ok'')) (\<lambda>_. ret ''error'')) (\<lambda>database.
     and_then (except_exception
         (and_then (Done amqp_closed) (\<lambda>closed. ret (if \<not> closed then ''ok'' else ''error'')))
         (\<lambda>_. ret ''error'')) (\<lambda>rabbitmq.
     and_then check_redis_health (\<lambda>redis_healthy.
       ret (readiness_response database rabbitmq (if redis_healthy then ''ok'' else ''degraded'')))))"

section \<open>The application\<close>

definition exception_middleware :: "http_response io \<Rightarrow> http_response io" where
  "exception_middleware endpoint = on_error endpoint (\<lambda>e. case e of
       Service se \<Rightarrow>
         (case registered_handler (se_kind se) of None \<Rightarrow> throw e | Some h \<Rightarrow> ret (h se))
     | _ \<Rightarrow> throw e)"

definition server_error_middleware :: "http_response io \<Rightarrow> http_response io" where
  "server_error_middleware p = except_exception p (\<lambda>_. ret internal_server_error)"

definition correlation_header :: string where
  "correlation_header = ''X-Correlation-ID''"

definition correlation_id_middleware :: "string option \<Rightarrow> http_response io \<Rightarrow> http_response io" where
  "correlation_id_middleware header call_next =
     and_then (case opt_or header None of
         Some s \<Rightarrow> ret s
       | None \<Rightarrow> and_then uuid4 (\<lambda>u. ret (uuid_str u))) (\<lambda>correlation_id.
     and_then call_next (\<lambda>response.
       ret (response\<lparr>hr_headers := dict_set (hr_headers response) correlation_header correlation_id\<rparr>)))"

definition application :: "string option \<Rightarrow> http_response io \<Rightarrow> http_response io" where
  "application header endpoint =
     server_error_middleware (correlation_id_middleware header (exception_middleware endpoint))"

section \<open>Lemmas\<close>

lemma github_headers [simp]:
  "dict_get_or [(''X-Hub-Signature-256'', s), (''X-GitHub-Event'', e)] ''X-Hub-Signature-256'' d = s"
  "extract_event_type [(''X-Hub-Signature-256'', s), (''X-GitHub-Event'', e)] = e"
  by (simp_all add: dict_get_or_def extract_event_type_def opt_or_def split: option.split)

lemma gitlab_headers [simp]:
  "dict_get_or [(''X-Gitlab-Token'', s), (''X-Gitlab-Event'', e)] ''X-Gitlab-Token'' d = s"
  "extract_event_type [(''X-Gitlab-Token'', s), (''X-Gitlab-Event'', e)] = e"
  by (simp_all add: dict_get_or_def extract_event_type_def opt_or_def split: option.split)

lemma to_response_status:
  "hr_status (to_response r) = 202 \<longleftrightarrow> (\<exists>c e i. r = WebhookAccepted c e i)"
  "hr_status (to_response r) \<in> {200, 202}"
  by (cases r; simp add: to_response_def)+

end
