(* ===== verification/Gateway_Proofs.thy ===== *)
theory Gateway_Proofs
  imports Persistence Api
begin

text \<open>
  The pipeline under interference: what the answer to a webhook means for the tables,
  whatever the other requests and the outbox publishers do meanwhile.
\<close>

section \<open>Components that only read or report\<close>

lemma harmless_uncurry [harmless_intros]:
  "(\<And>a b. harmless (f a b)) \<Longrightarrow> harmless (case x of (a, b) \<Rightarrow> f a b)"
  by (cases x) simp

lemma harmless_emit [harmless_intros]: "harmless (emit pf st s t c tid md)"
  unfolding emit_def by (intro harmless_intros)

lemma harmless_get_webhook_secret [harmless_intros]: "harmless (get_webhook_secret pf tid)"
  unfolding get_webhook_secret_def
  by (auto intro!: harmless_intros split: option.split)

lemma harmless_validate_signature [harmless_intros]: "harmless (validate_signature pf st p raw hs s c tid)"
  unfolding validate_signature_def by (auto intro!: harmless_intros)

text \<open>A key that the checker reports is persisted.\<close>

definition detected :: "string \<Rightarrow> exn + string option \<Rightarrow> world \<Rightarrow> bool" where
  "detected h res w \<longleftrightarrow>
     (\<forall>m. res = Inr (Some m) \<longrightarrow> m \<in> {''redis_cache'', ''db_lookup''} \<and> h \<in> hash_keys w)"

lemma hash_keys_stable:
  "h \<in> hash_keys w \<Longrightarrow> Inv w \<Longrightarrow> rely a w w' \<Longrightarrow> h \<in> hash_keys w'"
  using rely_grows grows_hash_keys by blast

lemma spec_check:
  assumes inv: "Inv w"
  shows "spec a (check pf ttl h) (\<lambda>res w'. Inv w' \<and> detected h res w') w"
  unfolding check_def
proof (rule wp_and_then, rule wp_consequence [OF spec_get_idempotency_cache [OF inv]], goal_cases)
  case (1 res w1)
  then have w1: "Inv w1" using inv rely_Inv by blast
  have db: "spec a (and_then (get_by_pr_hash_key pf h) (\<lambda>existing. case existing of
        Some _ \<Rightarrow> and_then (set_idempotency_cache h ttl) (\<lambda>_. ret (Some ''db_lookup''))
      | None \<Rightarrow> ret None)) (\<lambda>res w'. Inv w' \<and> detected h res w') w1"
  proof (rule wp_and_then, rule wp_consequence [OF spec_get_by_pr_hash_key [OF w1]], goal_cases)
    case (1 res w2)
    then have w2: "Inv w2" using w1 rely_Inv by blast
    show ?case
    proof (cases res)
      case (Inl e)
      then show ?thesis using w2 by (simp add: detected_def)
    next
      case (Inr x)
      show ?thesis
      proof (cases x)
        case None
        then show ?thesis using Inr w2 rely_Inv by (auto simp: wp_Done detected_def)
      next
        case (Some i)
        then have h: "h \<in> hash_keys w2" using 1 Inr by (auto simp: hash_keys_def)
        have "spec a (and_then (set_idempotency_cache h ttl) (\<lambda>_. ret (Some ''db_lookup'')))
            (\<lambda>res w'. Inv w' \<and> detected h res w') w2"
        proof (rule wp_and_then, rule spec_set_idempotency_cache [OF h w2], goal_cases)
          case (1 r w3)
          then have "Inv w3" "h \<in> hash_keys w3"
            using w2 h rely_Inv hash_keys_stable by blast+
          then show ?case
            using rely_Inv hash_keys_stable by (cases r) (auto simp: wp_Done detected_def)
        qed
        then show ?thesis using Inr Some by simp
      qed
    qed
  qed
  show ?case
  proof (cases res)
    case (Inl e)
    then show ?thesis using w1 by (simp add: detected_def)
  next
    case (Inr x)
    show ?thesis
    proof (cases x)
      case None
      then show ?thesis using Inr db by simp
    next
      case (Some v)
      then have "h \<in> hash_keys w1" using 1 Inr by blast
      then show ?thesis
        using Inr Some w1 rely_Inv hash_keys_stable by (auto simp: wp_Done detected_def)
    qed
  qed
qed

section \<open>The pipeline\<close>

text \<open>
  The meaning of an answer; \<open>n\<close> is the number of UUIDs drawn when the request began.
\<close>

definition answered ::
    "platform \<Rightarrow> nat \<Rightarrow> uuid \<Rightarrow> string \<Rightarrow> bytes \<Rightarrow> exn + webhook_result \<Rightarrow> world \<Rightarrow> bool" where
  "answered pf n tid p raw res w \<longleftrightarrow> Inv w \<and>
     (case res of
        Inl e \<Rightarrow> True
      | Inr (WebhookAccepted cid eid oid) \<Rightarrow>
          \<exists>pr. parse_payload pf p raw = Inr pr \<and> jsonb_codec pf \<and>
            stored eid cid tid (hash_key_of p tid pr) (json_loads pf raw) oid w
      | Inr (WebhookDuplicate cid h m) \<Rightarrow>
          \<exists>pr. parse_payload pf p raw = Inr pr \<and> h = hash_key_of p tid pr \<and>
            (m \<in> {''redis_cache'', ''db_lookup''} \<and> h \<in> hash_keys w \<or>
             m = ''db_constraint'' \<and> clash n h cid w)
      | Inr (WebhookIgnored cid et code) \<Rightarrow> code = event_type_not_allowed)"

lemma answered_stable:
  "answered pf n tid p raw res w \<Longrightarrow> rely a w w' \<Longrightarrow> answered pf n tid p raw res w'"
  using rely_grows [of a w w'] rely_Inv [of a w w'] grows_clash [of w w'] grows_stored [of w w']
    grows_hash_keys [of w w']
  by (fastforce simp: answered_def split: sum.splits webhook_result.splits)

lemma spec_harmless_then:
  assumes "harmless q" and "Inv w" and "n \<le> w_uuids_drawn w"
    and "\<And>e w'. Inv w' \<Longrightarrow> Q (Inl e) w'"
    and "\<And>x w'. Inv w' \<Longrightarrow> n \<le> w_uuids_drawn w' \<Longrightarrow> spec a (k x) Q w'"
  shows "spec a (and_then q k) Q w"
proof (rule wp_and_then, rule spec_harmless [OF assms(1)], goal_cases)
  case (1 r w')
  then have "Inv w'" "n \<le> w_uuids_drawn w'"
    using assms(2,3) rely_Inv rely_grows [of a w w'] by (auto simp: grows_def)
  then show ?case using assms(4,5) by (cases r) auto
qed

lemma answered_Inl [simp]: "answered pf n tid p raw (Inl e) w = Inv w"
  by (simp add: answered_def)

lemma spec_Done_answered:
  "answered pf n tid p raw r w \<Longrightarrow> spec a (Done r) (answered pf n tid p raw) w"
  unfolding wp_Done using answered_stable by blast

lemma py_len_hash_key: "py_len (hash_key_of p tid pr) = 64"
  by (simp add: hash_key_of_def compute_pr_hash_key_def sha.digest_py_len)

lemma no_nul_hash_key [simp]: "no_nul (hash_key_of p tid pr)"
  by (simp add: hash_key_of_def compute_pr_hash_key_def sha.digest_no_nul)

text \<open>Reporting after the decision changes nothing of what the answer means.\<close>

lemma spec_report:
  assumes "harmless q" and "answered pf n tid p raw (Inr res) w"
  shows "spec a (and_then q (\<lambda>_. ret res)) (answered pf n tid p raw) w"
proof (rule wp_and_then, rule spec_harmless [OF assms(1)], goal_cases)
  case (1 r w')
  then have "answered pf n tid p raw (Inr res) w'" using assms(2) answered_stable by blast
  then show ?case
    by (cases r) (auto intro: spec_Done_answered simp: answered_def)
qed

lemma spec_persist_and_report:
  assumes inv: "Inv w" and n: "n \<le> w_uuids_drawn w" and pr: "parse_payload pf p raw = Inr pr"
  shows "spec a (persist_and_report pf st tid p cid pr (hash_key_of p tid pr) raw hs)
    (answered pf n tid p raw) w"
proof -
  let ?h = "hash_key_of p tid pr"
  have len: "py_len ?h \<le> 64" by (simp add: py_len_hash_key)
  have finish: "spec a (and_then (mark_processed (redis_idempotency_ttl_seconds st) ?h) (\<lambda>_.
        and_then (emit pf st outbox_scheduled completed cid tid md) (\<lambda>_. ret (WebhookAccepted cid eid oid))))
      (answered pf n tid p raw) w'"
    if "Inv w'" and stored: "jsonb_codec pf" "stored eid cid tid ?h (json_loads pf raw) oid w'" for w' eid oid md
  proof -
    have ans: "answered pf n tid p raw (Inr (WebhookAccepted cid eid oid)) w'"
      using that pr by (simp add: answered_def)
    show ?thesis
      unfolding mark_processed_def
    proof (rule wp_and_then, rule spec_set_idempotency_cache [OF stored_key [OF stored(2)] \<open>Inv w'\<close>], goal_cases)
      case (1 r w'')
      then have "answered pf n tid p raw (Inr (WebhookAccepted cid eid oid)) w''"
        using ans answered_stable by blast
      then show ?case
        using spec_report [OF harmless_emit] by (cases r) (auto simp: answered_def)
    qed
  qed
  show ?thesis
    unfolding persist_and_report_def
  proof (rule wp_attempt,
      rule wp_consequence [OF spec_evolves [OF spec_persist [OF inv len n, of a pf st tid p cid pr raw hs]]], goal_cases)
    case (1 r w')
    then have w': "Inv w'" using inv by (simp add: evolves_def)
    show ?case
    proof (cases r)
      case (Inr ids)
      then show ?thesis
        using 1 w' finish by (cases ids) (simp add: persisted_def)
    next
      case (Inl e)
      show ?thesis
      proof (cases "is_duplicate_error e")
        case True
        then have "clash n ?h cid w'" using 1 Inl by (simp add: persisted_def)
        then have "answered pf n tid p raw (Inr (WebhookDuplicate cid ?h ''db_constraint'')) w'"
          using w' pr by (auto simp: answered_def)
        then show ?thesis
          using Inl True spec_Done_answered by (auto simp: is_duplicate_error_def)
      next
        case False
        have "spec a (throw e) (answered pf n tid p raw) w'"
          by (rule spec_Done_answered) (simp add: w')
        then show ?thesis
          using Inl False by (auto simp: is_duplicate_error_def split: exn.split)
      qed
    qed
  qed
qed

lemma and_then_Done: "and_then (Done r) k = (case r of Inl e \<Rightarrow> throw e | Inr a \<Rightarrow> k a)"
  by (simp add: and_then_def)

lemma spec_process_verified:
  assumes inv: "Inv w" and n: "n \<le> w_uuids_drawn w"
  shows "spec a (process_verified pf st tid p cid et wl raw hs) (answered pf n tid p raw) w"
proof (cases "parse_payload pf p raw")
  case (Inl e)
  have "spec a (throw e) (answered pf n tid p raw) w" by (rule spec_Done_answered) (simp add: inv)
  then show ?thesis by (simp add: process_verified_def Inl and_then_Done)
next
  case (Inr pr)
  let ?h = "hash_key_of p tid pr"
  have ignored: "answered pf n tid p raw (Inr (WebhookIgnored cid et event_type_not_allowed)) w'"
    if "Inv w'" for w'
    using that by (simp add: answered_def)
  have duplicate: "answered pf n tid p raw (Inr (WebhookDuplicate cid ?h m)) w'"
    if "Inv w'" "detected ?h (Inr (Some m)) w'" for m w'
    using that Inr by (auto simp: answered_def detected_def)
  have checked: "spec a (and_then (check pf ttl ?h) (\<lambda>detection. case detection of
        Some method \<Rightarrow> and_then (emit pf st idempotency_checked info cid tid
            (Some [(''detection_method'', JStr method)])) (\<lambda>_. ret (WebhookDuplicate cid ?h method))
      | None \<Rightarrow> and_then (emit pf st idempotency_checked completed cid tid None)
          (\<lambda>_. persist_and_report pf st tid p cid pr ?h raw hs))) (answered pf n tid p raw) w'"
    if w': "Inv w'" "n \<le> w_uuids_drawn w'" for ttl w'
  proof (rule wp_and_then, rule wp_consequence [OF spec_evolves [OF spec_check [OF w'(1)]]], goal_cases)
    case (1 r w'')
    then have w'': "Inv w''" "n \<le> w_uuids_drawn w''"
      using w' by (auto simp: evolves_def grows_def)
    show ?case
    proof (cases r)
      case (Inl e)
      then show ?thesis using w'' by simp
    next
      case r: (Inr x)
      show ?thesis
      proof (cases x)
        case None
        then show ?thesis
          unfolding r by (auto intro!: spec_harmless_then [OF harmless_emit w''] spec_persist_and_report Inr)
      next
        case (Some m)
        then show ?thesis
          using r 1 w'' duplicate spec_report [OF harmless_emit] by simp
      qed
    qed
  qed
  show ?thesis
    unfolding process_verified_def Inr
    using checked [OF inv n] ignored [OF inv] spec_report [OF harmless_emit]
    by (simp add: Let_def and_then_Done)
qed

theorem spec_process_webhook:
  assumes inv: "Inv w" and n: "n \<le> w_uuids_drawn w"
  shows "spec a (process_webhook pf st tid p raw hs) (answered pf n tid p raw) w"
proof -
  have failed: "spec a (throw e) (answered pf n tid p raw) w'" if "Inv w'" for e w'
    by (rule spec_Done_answered) (simp add: that)
  show ?thesis
    unfolding process_webhook_def Let_def
    by (intro spec_harmless_then [OF harmless_uuid4 inv n])
      (auto intro!: failed spec_harmless_then [OF harmless_get_webhook_secret]
        spec_harmless_then [OF harmless_get_event_whitelist]
        spec_harmless_then [OF harmless_validate_signature]
        spec_harmless_then [OF harmless_emit] spec_process_verified)
qed

end
