(* ===== verification/System.thy ===== *)
theory System
  imports Gateway_Proofs Outbox_Run
begin

text \<open>
  The running service: any number of webhook and internal requests and of outbox publishers,
  interleaved action by action, while the environment moves clocks, expires or evicts cache
  entries, edits tenants, closes channels and decides which calls fail.
\<close>

section \<open>Requests and tasks\<close>

datatype request =
    GithubWebhook uuid bytes string string
  | GitlabWebhook uuid bytes string string
  | CheckDuplicate string
  | CheckStale string int
  | Readiness "exn + bool"

fun endpoint :: "platform \<Rightarrow> settings \<Rightarrow> request \<Rightarrow> http_response io" where
  "endpoint pf st (GithubWebhook tid raw sig event) = receive_github_webhook pf st tid raw sig event"
| "endpoint pf st (GitlabWebhook tid raw token event) = receive_gitlab_webhook pf st tid raw token event"
| "endpoint pf st (CheckDuplicate h) = check_duplicate_endpoint pf st h"
| "endpoint pf st (CheckStale h v) = check_stale_endpoint pf h v"
| "endpoint pf st (Readiness amqp_closed) = readiness amqp_closed"

datatype task_result = Responded http_response | PublisherStopped

definition web_task :: "platform \<Rightarrow> settings \<Rightarrow> string option \<times> request \<Rightarrow> task_result io" where
  "web_task pf st rq = and_then (application (fst rq) (endpoint pf st (snd rq))) (\<lambda>resp. ret (Responded resp))"

definition publisher_task :: "platform \<Rightarrow> settings \<Rightarrow> nat \<Rightarrow> nat \<Rightarrow> task_result io" where
  "publisher_task pf st p turns =
     and_then (run_turns pf p (rabbitmq_exchange_webhook st) (outbox_batch_size st) turns)
       (\<lambda>_. ret PublisherStopped)"

text \<open>Which programs a task runs: \<open>rq n\<close> is the request that \<open>Web n\<close> serves.\<close>

fun task_of ::
    "platform \<Rightarrow> settings \<Rightarrow> (nat \<Rightarrow> string option \<times> request) \<Rightarrow> actor \<Rightarrow> task_result io \<Rightarrow> bool" where
  "task_of pf st rq (Web n) p \<longleftrightarrow> p = web_task pf st (rq n)"
| "task_of pf st rq (Pub q) p \<longleftrightarrow> (\<exists>turns. p = publisher_task pf st q turns)"

definition service_step ::
    "platform \<Rightarrow> settings \<Rightarrow> (nat \<Rightarrow> string option \<times> request) \<Rightarrow>
     (actor \<rightharpoonup> task_result io) \<times> world \<Rightarrow> (actor \<rightharpoonup> task_result io) \<times> world \<Rightarrow> bool" where
  "service_step pf st rq = pool_step quiet (task_of pf st rq)"

definition fresh_world :: "world \<Rightarrow> bool" where
  "fresh_world w \<longleftrightarrow> w_inbound w = [] \<and> w_outbox w = [] \<and> w_txs w = [] \<and> w_published w = [] \<and>
     (\<forall>h. w_redis w (idempotency_key h) = None)"

definition reachable ::
    "platform \<Rightarrow> settings \<Rightarrow> (nat \<Rightarrow> string option \<times> request) \<Rightarrow>
     (actor \<rightharpoonup> task_result io) \<Rightarrow> world \<Rightarrow> bool" where
  "reachable pf st rq ps w \<longleftrightarrow>
     (\<exists>w0. fresh_world w0 \<and> (service_step pf st rq)\<^sup>*\<^sup>* (Map.empty, w0) (ps, w))"

lemma Inv_fresh: "fresh_world w \<Longrightarrow> Inv w"
  by (simp add: fresh_world_def Inv_def tables_ok_def cache_ok_def txs_ok_def sent_ok_def locked_ids_def)

section \<open>What the responses promise\<close>

text \<open>A promise about the status and body of a response and the tables.\<close>

definition lasting :: "(int \<Rightarrow> json \<Rightarrow> world \<Rightarrow> bool) \<Rightarrow> bool" where
  "lasting P \<longleftrightarrow> (\<forall>s c a w w'. P s c w \<longrightarrow> Inv w \<longrightarrow> rely a w w' \<longrightarrow> P s c w') \<and>
     (\<forall>s c w. s \<notin> {200, 202} \<longrightarrow> P s c w)"

definition keeps_promise ::
    "(int \<Rightarrow> json \<Rightarrow> world \<Rightarrow> bool) \<Rightarrow> exn + http_response \<Rightarrow> world \<Rightarrow> bool" where
  "keeps_promise P res w \<longleftrightarrow> Inv w \<and>
     (\<forall>resp. res = Inr resp \<longrightarrow> P (hr_status resp) (hr_content resp) w)"

lemma keeps_promise_Inl [simp]: "keeps_promise P (Inl e) w = Inv w"
  by (simp add: keeps_promise_def)

lemma spec_Done_promise:
  "lasting P \<Longrightarrow> keeps_promise P r w \<Longrightarrow> spec a (Done r) (keeps_promise P) w"
  unfolding wp_Done keeps_promise_def lasting_def using rely_Inv by blast

lemma handler_status: "registered_handler k = Some h \<Longrightarrow> hr_status (h e) \<notin> {200, 202}"
  by (auto simp: registered_handler_def not_found_handler_def validation_handler_def
      business_rule_handler_def database_handler_def queue_handler_def unavailable_response_def Let_def
      split: if_splits)

lemma spec_exception_middleware:
  assumes P: "lasting P" and p: "spec a p (keeps_promise P) w"
  shows "spec a (exception_middleware p) (keeps_promise P) w"
  unfolding exception_middleware_def
proof (rule wp_on_error, rule wp_consequence [OF p], goal_cases)
  case (1 r w')
  have handled: "keeps_promise P (Inr (h se)) w'"
    if "registered_handler k = Some h" "Inv w'" for k h se
    using that handler_status [OF that(1)] P by (simp add: keeps_promise_def lasting_def)
  show ?case
    using 1 handled
    by (cases r) (auto intro!: spec_Done_promise [OF P] split: exn.split option.split)
qed

lemma spec_server_error_middleware:
  assumes P: "lasting P" and p: "spec a p (keeps_promise P) w"
  shows "spec a (server_error_middleware p) (keeps_promise P) w"
  unfolding server_error_middleware_def except_exception_def
proof (rule wp_on_error, rule wp_consequence [OF p], goal_cases)
  case (1 r w')
  have "keeps_promise P (Inr internal_server_error) w'" if "Inv w'"
    using that P by (simp add: keeps_promise_def lasting_def internal_server_error_def)
  then show ?case
    using 1 by (cases r) (auto intro!: spec_Done_promise [OF P])
qed

lemma spec_correlation_id_middleware:
  assumes P: "lasting P" and inv: "Inv w" and p: "\<And>w. Inv w \<Longrightarrow> spec a p (keeps_promise P) w"
  shows "spec a (correlation_id_middleware hdr p) (keeps_promise P) w"
  unfolding correlation_id_middleware_def
proof (rule spec_harmless_then [OF _ inv order_refl])
  show "harmless (case opt_or hdr None of Some s \<Rightarrow> ret s | None \<Rightarrow> and_then uuid4 (\<lambda>u. ret (uuid_str u)))"
    by (auto intro!: harmless_intros split: option.split)
  show "keeps_promise P (Inl e) w'" if "Inv w'" for e w' using that by simp
  fix cid w' assume w': "Inv w'"
  show "spec a (and_then p (\<lambda>response. ret (response\<lparr>hr_headers :=
      dict_set (hr_headers response) correlation_header cid\<rparr>))) (keeps_promise P) w'"
  proof (rule wp_and_then, rule wp_consequence [OF p [OF w']], goal_cases)
    case (1 r w'')
    then show ?case
      by (cases r) (auto intro!: spec_Done_promise [OF P] simp: keeps_promise_def)
  qed
qed

lemma spec_application:
  assumes "lasting P" and "Inv w" and "\<And>w. Inv w \<Longrightarrow> spec a p (keeps_promise P) w"
  shows "spec a (application hdr p) (keeps_promise P) w"
  unfolding application_def
  by (intro spec_server_error_middleware spec_correlation_id_middleware spec_exception_middleware assms)

section \<open>The endpoints keep their promises\<close>

definition webhook_promise ::
    "platform \<Rightarrow> string \<Rightarrow> uuid \<Rightarrow> bytes \<Rightarrow> int \<Rightarrow> json \<Rightarrow> world \<Rightarrow> bool" where
  "webhook_promise pf p tid raw status content w \<longleftrightarrow>
     (status = 202 \<longrightarrow> (\<exists>cid eid oid pr. content = response_body (WebhookAccepted cid eid oid) \<and>
        parse_payload pf p raw = Inr pr \<and> jsonb_codec pf \<and>
        stored eid cid tid (hash_key_of p tid pr) (json_loads pf raw) oid w)) \<and>
     (status = 200 \<longrightarrow>
        (\<exists>cid event_type. content = response_body (WebhookIgnored cid event_type event_type_not_allowed)) \<or>
        (\<exists>cid m pr. content = response_body (WebhookDuplicate cid (hash_key_of p tid pr) m) \<and>
           parse_payload pf p raw = Inr pr \<and>
           (m \<noteq> ''db_constraint'' \<longrightarrow> hash_key_of p tid pr \<in> hash_keys w)))"

definition duplicate_promise :: "string \<Rightarrow> int \<Rightarrow> json \<Rightarrow> world \<Rightarrow> bool" where
  "duplicate_promise h status content w \<longleftrightarrow>
     (status = 200 \<longrightarrow> (\<exists>d b. content = JObj d \<and> dict_get d ''is_duplicate'' = Some (JBool b) \<and>
        (b \<longrightarrow> h \<in> hash_keys w)))"

definition stale_promise :: "string \<Rightarrow> int \<Rightarrow> int \<Rightarrow> json \<Rightarrow> world \<Rightarrow> bool" where
  "stale_promise h v status content w \<longleftrightarrow>
     (status = 200 \<longrightarrow> version_query v \<longrightarrow>
        content = JObj [(''is_stale'', JBool False), (''pr_hash_key'', JStr h)])"

fun promise :: "platform \<Rightarrow> request \<Rightarrow> int \<Rightarrow> json \<Rightarrow> world \<Rightarrow> bool" where
  "promise pf (GithubWebhook tid raw sig event) = webhook_promise pf ''github'' tid raw"
| "promise pf (GitlabWebhook tid raw token event) = webhook_promise pf ''gitlab'' tid raw"
| "promise pf (CheckDuplicate h) = duplicate_promise h"
| "promise pf (CheckStale h v) = stale_promise h v"
| "promise pf (Readiness amqp_closed) = (\<lambda>status content w. True)"

text \<open>The provider, tenant and body of a webhook request.\<close>

fun webhook_of :: "request \<Rightarrow> (string \<times> uuid \<times> bytes) option" where
  "webhook_of (GithubWebhook tid raw sig event) = Some (''github'', tid, raw)"
| "webhook_of (GitlabWebhook tid raw token event) = Some (''gitlab'', tid, raw)"
| "webhook_of _ = None"

lemma promise_webhook: "webhook_of r = Some (p, tid, raw) \<Longrightarrow> promise pf r = webhook_promise pf p tid raw"
  by (cases r) auto

lemma lasting_promise: "lasting (promise pf rq)"
proof -
  have stored: "Inv w \<Longrightarrow> rely a w w' \<Longrightarrow> stored eid cid tid h doc oid w \<Longrightarrow> stored eid cid tid h doc oid w'"
    for a w w' eid cid tid h doc oid
    using rely_grows grows_stored by blast
  show ?thesis
    by (cases rq)
      (auto simp: lasting_def webhook_promise_def duplicate_promise_def stale_promise_def
        dest: stored hash_keys_stable; blast dest: stored hash_keys_stable)+
qed

lemma spec_receive_webhook:
  assumes inv: "Inv w" and P: "lasting (webhook_promise pf p tid raw)"
  shows "spec a (receive_webhook pf st tid p raw hs) (keeps_promise (webhook_promise pf p tid raw)) w"
proof (cases "check_body_size raw")
  case (Some err)
  then have "hr_status err = 413"
    by (auto simp: check_body_size_def payload_too_large_def split: if_splits)
  then have "keeps_promise (webhook_promise pf p tid raw) (Inr err) w"
    using inv by (simp add: keeps_promise_def webhook_promise_def)
  then show ?thesis
    using Some spec_Done_promise [OF P] by (simp add: receive_webhook_def)
next
  case None
  have ok: "keeps_promise (webhook_promise pf p tid raw) (Inr (to_response r)) w'"
    if "answered pf n tid p raw (Inr r) w'" for n r w'
    using that by (cases r) (auto simp: answered_def keeps_promise_def webhook_promise_def to_response_def)
  have "spec a (and_then (process_webhook pf st tid p raw hs) (\<lambda>result. ret (to_response result)))
      (keeps_promise (webhook_promise pf p tid raw)) w"
  proof (rule wp_and_then, rule wp_consequence [OF spec_process_webhook [OF inv order_refl]], goal_cases)
    case (1 r w')
    then show ?case
      using ok by (cases r) (auto intro!: spec_Done_promise [OF P])
  qed
  then show ?thesis using None by (simp add: receive_webhook_def)
qed

lemma spec_check_duplicate_endpoint:
  assumes inv: "Inv w"
  shows "spec a (check_duplicate_endpoint pf st h) (keeps_promise (duplicate_promise h)) w"
proof -
  have P: "lasting (duplicate_promise h)" using lasting_promise [of undefined "CheckDuplicate h"] by simp
  have no: "keeps_promise (duplicate_promise h) (Inr (json_response (JObj
      [(''is_duplicate'', JBool False), (''cache_hit'', JBool False), (''pr_hash_key'', JStr h)]))) w'"
    if "Inv w'" for w'
    using that by (auto simp: keeps_promise_def duplicate_promise_def json_response_def)
  have yes: "keeps_promise (duplicate_promise h) (Inr (json_response (JObj ((''is_duplicate'', JBool True) # d)))) w'"
    if "Inv w'" "h \<in> hash_keys w'" for w' d
    using that by (auto simp: keeps_promise_def duplicate_promise_def json_response_def)
  have "spec a (check_duplicate pf st h) (\<lambda>r w'. Inv w' \<and>
      (\<forall>j. r = Inr j \<longrightarrow> keeps_promise (duplicate_promise h) (Inr (json_response j)) w')) w"
    unfolding check_duplicate_def
  proof (rule wp_and_then, rule wp_consequence [OF spec_check [OF inv]], goal_cases)
    case (1 r w')
    have keep: "Inv w'' \<and> keeps_promise (duplicate_promise h) (Inr (json_response j)) w''"
      if "keeps_promise (duplicate_promise h) (Inr (json_response j)) w'" "rely a w' w''" for j w''
      using that P rely_Inv unfolding keeps_promise_def lasting_def by blast
    show ?case
    proof (cases r)
      case (Inl e)
      then show ?thesis using 1 by simp
    next
      case (Inr x)
      have w': "Inv w'" "x \<noteq> None \<Longrightarrow> h \<in> hash_keys w'"
        using 1 Inr by (auto simp: detected_def)
      have db: "spec a (and_then (get_by_pr_hash_key pf h) (\<lambda>event. ret (JObj ((''is_duplicate'', JBool True) # d event))))
        (\<lambda>r w'. Inv w' \<and> (\<forall>j. r = Inr j \<longrightarrow> keeps_promise (duplicate_promise h) (Inr (json_response j)) w')) w'"
        if "h \<in> hash_keys w'" for d
      proof (rule wp_and_then, rule spec_harmless [OF harmless_get_by_pr_hash_key], goal_cases)
        case (1 r w'')
        then have "Inv w''" "h \<in> hash_keys w''" using w'(1) that rely_Inv hash_keys_stable by blast+
        then show ?case
          using yes rely_Inv hash_keys_stable by (cases r) (auto simp: wp_Done)
      qed
      have final: "spec a (ret j) (\<lambda>r w'. Inv w' \<and>
          (\<forall>j. r = Inr j \<longrightarrow> keeps_promise (duplicate_promise h) (Inr (json_response j)) w')) w'"
        if "keeps_promise (duplicate_promise h) (Inr (json_response j)) w'" for j
        using keep [OF that] by (simp add: wp_Done)
      show ?thesis
        unfolding Inr sum.case
        using w' by (auto intro!: final yes no db)
    qed
  qed
  then show ?thesis
    unfolding check_duplicate_endpoint_def
    by (intro wp_and_then, elim wp_consequence)
      (auto intro!: spec_Done_promise [OF P] split: sum.split)
qed

lemma stored_version:
  "Inv w \<Longrightarrow> i \<in> set (w_inbound w) \<Longrightarrow> ie_pr_version i = 1"
  by (auto simp: Inv_def tables_ok_def list_all_iff inbound_ok_def)

lemma spec_check_stale_endpoint:
  assumes inv: "Inv w"
  shows "spec a (check_stale_endpoint pf h v) (keeps_promise (stale_promise h v)) w"
proof -
  have P: "lasting (stale_promise h v)" using lasting_promise [of undefined "CheckStale h v"] by simp
  have "spec a (check_stale pf h v) (\<lambda>r w'. Inv w' \<and>
      (\<forall>j. r = Inr j \<longrightarrow> keeps_promise (stale_promise h v) (Inr (json_response j)) w')) w"
    unfolding check_stale_def
  proof (rule wp_and_then, rule wp_consequence [OF spec_get_by_pr_hash_key [OF inv]], goal_cases)
    case (1 r w')
    then have w': "Inv w'" using inv rely_Inv by blast
    show ?case
    proof (cases r)
      case (Inl e)
      then show ?thesis using w' by simp
    next
      case (Inr x)
      have "ie_pr_version i = 1" if "x = Some i" for i
        using that 1 Inr stored_version [OF w'] by blast
      then show ?thesis
        using Inr w' rely_Inv
        by (auto simp: wp_Done keeps_promise_def stale_promise_def json_response_def version_query_def
            split: option.split)
    qed
  qed
  then show ?thesis
    unfolding check_stale_endpoint_def
    by (intro wp_and_then, elim wp_consequence)
      (auto intro!: spec_Done_promise [OF P] split: sum.split)
qed

lemma harmless_readiness: "harmless (readiness amqp_closed)"
  unfolding readiness_def check_redis_health_def
  by (auto intro!: harmless_intros)

lemma spec_endpoint:
  assumes inv: "Inv w"
  shows "spec a (endpoint pf st rq) (keeps_promise (promise pf rq)) w"
proof (cases rq)
  case (GithubWebhook tid raw sig event)
  then show ?thesis
    using spec_receive_webhook [OF inv] lasting_promise [of pf rq] by (simp add: receive_github_webhook_def)
next
  case (GitlabWebhook tid raw token event)
  then show ?thesis
    using spec_receive_webhook [OF inv] lasting_promise [of pf rq] by (simp add: receive_gitlab_webhook_def)
next
  case (CheckDuplicate h)
  then show ?thesis using spec_check_duplicate_endpoint [OF inv] by simp
next
  case (CheckStale h v)
  then show ?thesis using spec_check_stale_endpoint [OF inv] by simp
next
  case (Readiness c)
  then show ?thesis
    using rely_Inv inv
    by (auto intro!: spec_harmless [OF harmless_readiness] simp: keeps_promise_def)
qed

section \<open>Every execution of the service\<close>

text \<open>While a publisher does not run it holds no rows.\<close>

fun at_rest :: "actor \<Rightarrow> world \<Rightarrow> bool" where
  "at_rest (Web n) w = True"
| "at_rest (Pub p) w = idle p w"

lemma at_rest_stable: "Inv w \<Longrightarrow> at_rest i w \<Longrightarrow> rely i w w' \<Longrightarrow> at_rest i w'"
  by (cases i) (auto intro: idle_stable)

lemma at_rest_fresh: "fresh_world w \<Longrightarrow> at_rest i w"
  by (cases i) (simp_all add: fresh_world_def idle_def tx_of_def)

text \<open>The outcome of a task: a response carries a promise, and a publisher has released its rows.\<close>

definition task_outcome ::
    "platform \<Rightarrow> (nat \<Rightarrow> string option \<times> request) \<Rightarrow> actor \<Rightarrow> task_result io \<Rightarrow> exn + task_result \<Rightarrow> world \<Rightarrow> bool" where
  "task_outcome pf rq i p0 res w \<longleftrightarrow>
     (\<forall>n resp. i = Web n \<longrightarrow> res = Inr (Responded resp) \<longrightarrow>
        promise pf (snd (rq n)) (hr_status resp) (hr_content resp) w) \<and> at_rest i w"

lemma spec_task:
  assumes "Inv w" and "at_rest i w" and "task_of pf st rq i p"
  shows "spec i p (task_outcome pf rq i p) w"
proof (cases i)
  case (Web n)
  have P: "lasting (promise pf (snd (rq n)))" by (rule lasting_promise)
  have "spec i (application (fst (rq n)) (endpoint pf st (snd (rq n)))) (keeps_promise (promise pf (snd (rq n)))) w"
    by (rule spec_application [OF P assms(1) spec_endpoint])
  then have "spec i (web_task pf st (rq n)) (task_outcome pf rq i p) w"
    unfolding web_task_def
  proof (intro wp_and_then, elim wp_consequence, goal_cases)
    case (1 r w')
    have "promise pf (snd (rq n)) s c w''"
      if "promise pf (snd (rq n)) s c w'" "Inv w'" "rely i w' w''" for s c w''
      using that P unfolding lasting_def by blast
    then show ?case
      using 1 Web by (cases r) (auto simp: wp_Done task_outcome_def keeps_promise_def)
  qed
  then show ?thesis using Web assms(3) by simp
next
  case (Pub q)
  obtain turns where p: "p = publisher_task pf st q turns" using assms(3) Pub by auto
  have "spec i (run_turns pf q (rabbitmq_exchange_webhook st) (outbox_batch_size st) turns) (\<lambda>_. settled q) w"
    using keeps_run_turns assms(1,2) Pub by (simp add: maintains_def settled_def)
  then show ?thesis
    unfolding p publisher_task_def
  proof (intro wp_and_then, elim wp_consequence, goal_cases)
    case (1 r w')
    have "idle q w''" if "rely (Pub q) w' w''" for w''
      using settled_stable [OF 1(2) that] by (simp add: settled_def)
    moreover have "idle q w'" using 1 by (simp add: settled_def)
    ultimately show ?case by (simp add: wp_Done task_outcome_def Pub split: sum.split)
  qed
qed

lemma reachable_sound:
  assumes "reachable pf st rq ps w"
  shows "Inv w \<and> pool_ok (task_of pf st rq) at_rest (task_outcome pf rq) ps w"
proof -
  obtain w0 where w0: "fresh_world w0"
    and steps: "(pool_step quiet (task_of pf st rq))\<^sup>*\<^sup>* (Map.empty, w0) (ps, w)"
    using assms by (auto simp: reachable_def service_step_def [abs_def])
  have "Inv (snd (ps, w)) \<and> pool_ok (task_of pf st rq) at_rest (task_outcome pf rq) (fst (ps, w)) (snd (ps, w))"
  proof (rule pool_execution_sound [OF steps])
    show "quiet v v' \<Longrightarrow> rely i v v'" for i v v' using quiet_neutral neutral_rely by blast
    show "Inv v \<Longrightarrow> quiet v v' \<Longrightarrow> Inv v'" for v v' using quiet_step by blast
    show "Inv v \<Longrightarrow> guarantee i v v' \<Longrightarrow> Inv v'" for i v v' by (simp add: guarantee_def)
    show "Inv v \<Longrightarrow> at_rest i v \<Longrightarrow> task_of pf st rq i p \<Longrightarrow> spec i p (task_outcome pf rq i p) v" for i p v
      by (rule spec_task)
    show "Inv v \<Longrightarrow> at_rest i v \<Longrightarrow> rely i v v' \<Longrightarrow> at_rest i v'" for i v v' by (rule at_rest_stable)
    show "task_outcome pf rq i p r v \<Longrightarrow> at_rest i v" for i p r v by (simp add: task_outcome_def)
    show "Inv (snd (Map.empty, w0))" using Inv_fresh [OF w0] by simp
    show "pool_ok (task_of pf st rq) at_rest (task_outcome pf rq) (fst (Map.empty, w0)) (snd (Map.empty, w0))"
      using at_rest_fresh [OF w0] by (simp add: pool_ok_def)
  qed
  then show ?thesis by simp
qed

text \<open>The sequential case: one request alone is an execution of the service.\<close>

lemma reachable_run:
  assumes "fresh_world w" and "task_of pf st rq i p"
  shows "reachable pf st rq (Map.empty(i \<mapsto> Done (fst (run p w)))) (snd (run p w))"
proof -
  have "service_step pf st rq (Map.empty, w) (Map.empty(i \<mapsto> p), w)"
    unfolding service_step_def by (rule pool_step.spawn) (simp_all add: assms(2))
  moreover have "(service_step pf st rq)\<^sup>*\<^sup>* (Map.empty(i \<mapsto> p), w)
      (Map.empty(i \<mapsto> p, i \<mapsto> Done (fst (run p w))), snd (run p w))"
    unfolding service_step_def [abs_def] by (rule run_is_pool_execution) simp
  ultimately show ?thesis
    using assms(1) unfolding reachable_def by (auto intro: converse_rtranclp_into_rtranclp)
qed

text \<open>Whatever is reached later has grown from what was reached before.\<close>

lemma reachable_grows:
  assumes "reachable pf st rq ps w" and steps: "(service_step pf st rq)\<^sup>*\<^sup>* (ps, w) (ps', w')"
  shows "grows w w'"
proof -
  note sound = reachable_sound [OF assms(1)]
  have "(Inv (snd (ps', w')) \<and> grows w (snd (ps', w'))) \<and>
      pool_ok (task_of pf st rq) at_rest (task_outcome pf rq) (fst (ps', w')) (snd (ps', w'))"
  proof (rule pool_execution_sound [OF steps [unfolded service_step_def [abs_def]]])
    show "quiet v v' \<Longrightarrow> rely i v v'" for i v v' using quiet_neutral neutral_rely by blast
    show "Inv v \<and> grows w v \<Longrightarrow> quiet v v' \<Longrightarrow> Inv v' \<and> grows w v'" for v v'
      using quiet_step grows_trans by blast
    show "Inv v \<and> grows w v \<Longrightarrow> guarantee i v v' \<Longrightarrow> Inv v' \<and> grows w v'" for i v v'
      unfolding guarantee_def using grows_trans by blast
    show "Inv v \<and> grows w v \<Longrightarrow> at_rest i v \<Longrightarrow> task_of pf st rq i p \<Longrightarrow> spec i p (task_outcome pf rq i p) v" for i p v
      using spec_task by blast
    show "Inv v \<and> grows w v \<Longrightarrow> at_rest i v \<Longrightarrow> rely i v v' \<Longrightarrow> at_rest i v'" for i v v'
      using at_rest_stable by blast
    show "task_outcome pf rq i p r v \<Longrightarrow> at_rest i v" for i p r v by (simp add: task_outcome_def)
    show "Inv (snd (ps, w)) \<and> grows w (snd (ps, w))" using sound by simp
    show "pool_ok (task_of pf st rq) at_rest (task_outcome pf rq) (fst (ps, w)) (snd (ps, w))" using sound by simp
  qed
  then show ?thesis by simp
qed

text \<open>The promise of a finished request.\<close>

lemma reachable_promise:
  assumes "reachable pf st rq ps w" and "ps (Web n) = Some (Done (Inr (Responded resp)))"
  shows "promise pf (snd (rq n)) (hr_status resp) (hr_content resp) w"
proof -
  obtain p0 where "task_outcome pf rq (Web n) p0 (Inr (Responded resp)) w"
    using pool_finished [OF conjunct2 [OF reachable_sound [OF assms(1)]] assms(2)] by blast
  then show ?thesis by (simp add: task_outcome_def)
qed

lemma reachable_webhook:
  assumes "reachable pf st rq ps w" and "ps (Web n) = Some (Done (Inr (Responded resp)))"
    and "webhook_of (snd (rq n)) = Some (p, tid, raw)"
  shows "webhook_promise pf p tid raw (hr_status resp) (hr_content resp) w"
  using reachable_promise [OF assms(1,2)] by (simp add: promise_webhook [OF assms(3)])

text \<open>An execution goes on with one more task run to its end, or with a step of the environment.\<close>

lemma reachable_more:
  assumes "reachable pf st rq ps w" and "ps i = None" and "task_of pf st rq i p"
  shows "reachable pf st rq (ps(i \<mapsto> Done (fst (run p w)))) (snd (run p w))"
proof -
  obtain w0 where w0: "fresh_world w0" "(service_step pf st rq)\<^sup>*\<^sup>* (Map.empty, w0) (ps, w)"
    using assms(1) by (auto simp: reachable_def)
  have "service_step pf st rq (ps, w) (ps(i \<mapsto> p), w)"
    unfolding service_step_def by (rule pool_step.spawn) (simp_all add: assms(2,3))
  with w0(2) have "(service_step pf st rq)\<^sup>*\<^sup>* (Map.empty, w0) (ps(i \<mapsto> p), w)"
    by (rule rtranclp.rtrancl_into_rtrancl)
  moreover have "(service_step pf st rq)\<^sup>*\<^sup>* (ps(i \<mapsto> p), w)
      (ps(i \<mapsto> p, i \<mapsto> Done (fst (run p w))), snd (run p w))"
    unfolding service_step_def [abs_def] by (rule run_is_pool_execution) simp
  ultimately show ?thesis
    using w0(1) unfolding reachable_def fun_upd_upd by (blast intro: rtranclp_trans)
qed

lemma reachable_environment:
  assumes "reachable pf st rq ps w" and "quiet w w'"
  shows "reachable pf st rq ps w'"
proof -
  obtain w0 where w0: "fresh_world w0" "(service_step pf st rq)\<^sup>*\<^sup>* (Map.empty, w0) (ps, w)"
    using assms(1) by (auto simp: reachable_def)
  have "service_step pf st rq (ps, w) (ps, w')"
    unfolding service_step_def by (rule pool_step.environment) (rule assms(2))
  with w0 show ?thesis unfolding reachable_def by (blast intro: rtranclp.rtrancl_into_rtrancl)
qed

section \<open>Consequences of the invariant\<close>

lemma nth_same_key: "distinct (map f xs) \<Longrightarrow> i < length xs \<Longrightarrow> j < length xs \<Longrightarrow> f (xs ! i) = f (xs ! j) \<Longrightarrow> i = j"
  using nth_eq_iff_index_eq [of "map f xs" i j] by simp

text \<open>A stored key determines its event.\<close>

lemma stored_functional:
  assumes ok: "tables_ok w" and s: "stored eid cid tid h doc oid w" "stored eid' cid' tid' h doc' oid' w"
  shows "eid = eid' \<and> cid = cid' \<and> tid = tid' \<and> oid = oid' \<and> doc = doc'"
proof -
  obtain i r where i: "i \<in> set (w_inbound w)" "r \<in> set (w_outbox w)" "paired i r" "ie_pr_hash_key i = h"
    "eid = ie_event_id i" "cid = ie_correlation_id i" "tid = ie_tenant_id i" "oid = oe_outbox_id r" "doc = Some (ie_raw_payload i)"
    using s(1) by (auto simp: stored_def)
  obtain i' r' where i': "i' \<in> set (w_inbound w)" "r' \<in> set (w_outbox w)" "paired i' r'" "ie_pr_hash_key i' = h"
    "eid' = ie_event_id i'" "cid' = ie_correlation_id i'" "tid' = ie_tenant_id i'" "oid' = oe_outbox_id r'"
    "doc' = Some (ie_raw_payload i')"
    using s(2) by (auto simp: stored_def)
  have same: "i = i'"
    using ok i(1,4) i'(1,4) by (auto simp: tables_ok_def distinct_map dest: inj_onD)
  obtain k where k: "k < length (w_outbox w)" "r = w_outbox w ! k" using i(2) by (auto simp: in_set_conv_nth)
  obtain k' where k': "k' < length (w_outbox w)" "r' = w_outbox w ! k'" using i'(2) by (auto simp: in_set_conv_nth)
  have pairs: "length (w_inbound w) = length (w_outbox w)"
    "j < length (w_outbox w) \<Longrightarrow> paired (w_inbound w ! j) (w_outbox w ! j)" for j
    using ok by (auto simp: tables_ok_def list_all2_conv_all_nth)
  have "ie_correlation_id (w_inbound w ! k) = ie_correlation_id (w_inbound w ! k')"
    using pairs(2) [OF k(1)] pairs(2) [OF k'(1)] k(2) k'(2) i(3) i'(3) same by (simp add: paired_def)
  then have "k = k'"
    using ok k(1) k'(1) pairs(1) by (intro nth_same_key [of ie_correlation_id "w_inbound w"]) (simp_all add: tables_ok_def)
  then show ?thesis using same i i' k k' by simp
qed

lemma locks_of_others:
  "tx_of w q = Some y \<Longrightarrow> q \<noteq> p \<Longrightarrow> set (tx_locks y) \<subseteq> set (other_locks p w)"
  by (force simp: tx_of_def other_locks_def dest: map_of_SomeD)

end
