(* ===== verification/Preservation.thy ===== *)
theory Preservation
  imports World
begin

text \<open>
  Relations between the states before and after an execution that every action of a program
  respects: a preorder \<open>R\<close> is kept by a program when every run of it stays within \<open>R\<close>. The
  locale gives one rule per control structure; a client interprets it with its relation and
  adds the rules of the actions it cares about.
\<close>

locale preserved =
  fixes R :: "'w \<Rightarrow> 'w \<Rightarrow> bool"
  assumes R_refl: "R w w" and R_trans: "R u v \<Longrightarrow> R v w \<Longrightarrow> R u w"
begin

definition keeps :: "(exn, 'w, 'a) prog \<Rightarrow> bool" where
  "keeps p \<longleftrightarrow> (\<forall>w. R w (snd (run p w)))"

lemma keeps_run: "keeps p \<Longrightarrow> run p w = (r, w') \<Longrightarrow> R w w'"
  unfolding keeps_def by (drule spec [of _ w]) simp

lemma keeps_atomic: "(\<And>w. R w (snd (f w))) \<Longrightarrow> keeps (atomic f)"
  by (simp add: keeps_def)

lemma keeps_Done: "keeps (Done r)"
  by (simp add: keeps_def R_refl)

lemma keeps_attempt:
  assumes "keeps p" and "\<And>r. keeps (h r)"
  shows "keeps (attempt p h)"
  unfolding keeps_def run_attempt
proof
  fix w
  obtain r v where rv: "run p w = (r, v)" by (cases "run p w")
  have "R v (snd (run (h r) v))" using assms(2) [of r] by (simp add: keeps_def)
  with keeps_run [OF assms(1) rv] show "R w (snd (case run p w of (r, w') \<Rightarrow> run (h r) w'))"
    unfolding rv by (simp, blast intro: R_trans)
qed

lemma keeps_and_then: "keeps p \<Longrightarrow> (\<And>x. keeps (k x)) \<Longrightarrow> keeps (and_then p k)"
  unfolding and_then_def by (auto intro!: keeps_attempt keeps_Done split: sum.split)

lemma keeps_on_error: "keeps p \<Longrightarrow> (\<And>e. keeps (h e)) \<Longrightarrow> keeps (on_error p h)"
  unfolding on_error_def by (auto intro!: keeps_attempt keeps_Done split: sum.split)

lemma keeps_except_exception: "keeps p \<Longrightarrow> (\<And>e. keeps (h e)) \<Longrightarrow> keeps (except_exception p h)"
  unfolding except_exception_def by (auto intro!: keeps_on_error keeps_Done)

lemma keeps_finally_do: "keeps p \<Longrightarrow> keeps q \<Longrightarrow> keeps (finally_do p q)"
  unfolding finally_do_def by (auto intro!: keeps_attempt keeps_and_then keeps_Done)

lemma keeps_for_each: "(\<And>x. keeps (body x)) \<Longrightarrow> keeps (for_each xs body)"
  by (induction xs) (auto intro!: keeps_and_then keeps_Done)

lemmas keeps_control = keeps_Done keeps_attempt keeps_and_then keeps_on_error keeps_except_exception
  keeps_finally_do keeps_for_each

end

end
