(* ===== verification/Authorisation.thy ===== *)
theory Authorisation
  imports Api Preservation
begin

text \<open>
  Who may change the tables: the executions of one request, for every schedule of faults. A
  request changes a table only when the tenant's secret verifies its signature and the
  tenant's event whitelist allows its event.
\<close>

section \<open>Programs that leave the tables alone\<close>

definition same_tables :: "world \<Rightarrow> world \<Rightarrow> bool" where
  "same_tables w w' \<longleftrightarrow>
     w_inbound w' = w_inbound w \<and> w_outbox w' = w_outbox w \<and> w_vcs_configs w' = w_vcs_configs w \<and>
     w_tenants w' = w_tenants w \<and> w_customers w' = w_customers w \<and> w_whitelist w' = w_whitelist w"

lemma same_tables_refl [simp]: "same_tables w w"
  by (simp add: same_tables_def)

lemma same_tables_trans: "same_tables u v \<Longrightarrow> same_tables v w \<Longrightarrow> same_tables u w"
  by (simp add: same_tables_def)

interpretation tables: preserved same_tables
  by unfold_locales (simp, erule same_tables_trans)

abbreviation read_only :: "'a io \<Rightarrow> bool" where
  "read_only \<equiv> tables.keeps"

named_theorems read_only_intros \<open>introduction rules for programs that write no table\<close>

lemmas read_only_def = tables.keeps_def

lemmas read_only_run = tables.keeps_run

lemmas read_only_control [read_only_intros] = tables.keeps_control

lemma read_only_served:
  assumes "\<And>w. same_tables w (b w)" and "\<And>w. same_tables w (snd (f w))"
  shows "read_only (atomic (\<lambda>w. served (flt w) e f (b w)))"
  unfolding read_only_def run_atomic
proof
  fix w
  have "same_tables w (snd (f (b w)))" using assms same_tables_trans by blast
  then show "same_tables w (snd (served (flt w) e f (b w)))"
    using assms(1) served_cases [of "flt w" e f "b w"] by auto
qed

lemma read_only_db: "(\<And>w. same_tables w (snd (f w))) \<Longrightarrow> read_only (atomic (db_call f))"
  unfolding db_call_def by (rule read_only_served) (simp_all add: same_tables_def)

lemma read_only_redis: "(\<And>w. same_tables w (snd (f w))) \<Longrightarrow> read_only (atomic (redis_call f))"
  unfolding redis_call_def by (rule read_only_served) (simp_all add: same_tables_def)

lemma read_only_amqp: "(\<And>w. same_tables w (snd (f w))) \<Longrightarrow> read_only (atomic (amqp_call f))"
  unfolding amqp_call_def by (rule read_only_served) (simp_all add: same_tables_def)

lemma read_only_leaves [read_only_intros]:
  "read_only (query q)" "read_only uuid4" "read_only utc_now" "read_only (redis_get k)"
  "read_only (redis_setex k ttl v)" "read_only open_channel" "read_only (get_exchange c name)"
  "read_only (close_channel c)" "read_only (exchange_publish x rk body hs)"
  unfolding query_def redis_get_def redis_setex_def open_channel_def get_exchange_def
    close_channel_def exchange_publish_def
  by (rule read_only_db read_only_redis read_only_amqp | simp add: read_only_def | simp add: same_tables_def redis_store_def)+

lemma read_only_emit [read_only_intros]: "read_only (emit pf st s t c tid md)"
  unfolding emit_def publish_def by (intro read_only_intros)

lemma read_only_get_webhook_secret [read_only_intros]: "read_only (get_webhook_secret pf tid)"
  unfolding get_webhook_secret_def get_tenant_cache_def set_tenant_cache_def suppress_def
    get_by_id_query
  by (auto intro!: read_only_intros split: option.split)

lemma read_only_get_event_whitelist [read_only_intros]: "read_only (get_event_whitelist p)"
  unfolding get_event_whitelist_def fetch_def by (intro read_only_intros)

lemma read_only_validate_signature [read_only_intros]: "read_only (validate_signature pf st p raw hs s c tid)"
  unfolding validate_signature_def by (auto intro!: read_only_intros)

lemma read_only_check [read_only_intros]: "read_only (check pf ttl h)"
  unfolding check_def get_idempotency_cache_def get_by_pr_hash_key_def fetchrow_def
    set_idempotency_cache_def suppress_def
  by (auto intro!: read_only_intros split: option.split)

section \<open>The gates of the pipeline\<close>

text \<open>An execution that had a result or wrote a table.\<close>

definition effective :: "'a io \<Rightarrow> world \<Rightarrow> bool" where
  "effective p w \<longleftrightarrow> (\<exists>x. fst (run p w) = Inr x) \<or> \<not> same_tables w (snd (run p w))"

lemma effective_and_then:
  assumes "effective (and_then q k) w" and "read_only q"
  obtains a v where "run q w = (Inr a, v)" "same_tables w v" "effective (k a) v" "run (and_then q k) w = run (k a) v"
proof -
  obtain r v where rv: "run q w = (r, v)" by (cases "run q w")
  have same: "same_tables w v" by (rule read_only_run [OF assms(2) rv])
  show ?thesis
  proof (cases r)
    case (Inl e)
    then show ?thesis using assms(1) same by (simp add: effective_def run_and_then rv)
  next
    case (Inr a)
    then have "effective (k a) v"
      using assms(1) same same_tables_trans [OF same] by (auto simp: effective_def run_and_then rv)
    moreover have "run (and_then q k) w = run (k a) v" using Inr by (simp add: run_and_then rv)
    ultimately show ?thesis using that rv Inr same by blast
  qed
qed

lemma effective_throw [simp]: "effective (throw e) w = False"
  by (simp add: effective_def)

lemma writes_and_then:
  assumes "\<not> same_tables w (snd (run (and_then q k) w))" and "read_only q"
  obtains a v where "run q w = (Inr a, v)" "same_tables w v" "\<not> same_tables v (snd (run (k a) v))"
proof -
  obtain r v where rv: "run q w = (r, v)" by (cases "run q w")
  have same: "same_tables w v" by (rule read_only_run [OF assms(2) rv])
  show ?thesis
  proof (cases r)
    case (Inl e)
    then show ?thesis using assms(1) same by (simp add: run_and_then rv)
  next
    case (Inr a)
    then have "\<not> same_tables v (snd (run (k a) v))"
      using assms(1) same_tables_trans [OF same] by (auto simp: run_and_then rv)
    then show ?thesis using that rv Inr same by blast
  qed
qed

lemma run_query_Inr: "run (query q) w = (Inr a, v) \<Longrightarrow> \<exists>n. a = q (w\<lparr>w_db_calls := n\<rparr>) \<and> v = w\<lparr>w_db_calls := n\<rparr>"
  by (auto simp: query_def db_call_def served_def split: fault.splits)

lemma run_get_event_whitelist:
  "run (get_event_whitelist p) w = (Inr wl, v) \<Longrightarrow> wl = select_whitelist p w"
  unfolding get_event_whitelist_def fetch_def
  by (drule run_query_Inr) (auto simp: select_whitelist_def)

text \<open>The verified part of the request, and what it was verified with.\<close>

lemma effective_verified:
  assumes "effective (process_webhook pf st tid p raw hs) w"
  obtains s w1 v cid where "run (get_webhook_secret pf tid) (w\<lparr>w_uuids_drawn := Suc (w_uuids_drawn w)\<rparr>) = (Inr s, w1)"
    and "p \<in> supported_providers" and "signature_valid p raw hs s = Inr True"
    and "same_tables w v"
    and "run (process_webhook pf st tid p raw hs) w =
      run (process_verified pf st tid p cid (extract_event_type hs) (select_whitelist p w) raw hs) v"
proof -
  let ?w = "w\<lparr>w_uuids_drawn := Suc (w_uuids_drawn w)\<rparr>"
  obtain cid v0 where r0: "run uuid4 w = (Inr cid, v0)" "same_tables w v0"
    and e0: "effective (if p \<notin> supported_providers then throw (unsupported_provider pf p)
       else and_then (get_webhook_secret pf tid) (\<lambda>s. let et = extract_event_type hs in
         and_then (get_event_whitelist p) (\<lambda>wl. and_then (validate_signature pf st p raw hs s cid tid) (\<lambda>_.
           and_then (emit pf st webhook_received in_progress cid tid None) (\<lambda>_.
             process_verified pf st tid p cid et wl raw hs))))) v0"
    using effective_and_then [OF assms [unfolded process_webhook_def] read_only_leaves(2)] by blast
  have v0: "v0 = ?w" using r0(1) by simp
  have p: "p \<in> supported_providers" using e0 by (auto split: if_splits)
  have e0': "effective (and_then (get_webhook_secret pf tid) (\<lambda>s. 
         and_then (get_event_whitelist p) (\<lambda>wl. and_then (validate_signature pf st p raw hs s cid tid) (\<lambda>_.
           and_then (emit pf st webhook_received in_progress cid tid None) (\<lambda>_.
             process_verified pf st tid p cid (extract_event_type hs) wl raw hs))))) v0"
    using e0 p by (simp add: Let_def)
  obtain s v1 where r1: "run (get_webhook_secret pf tid) v0 = (Inr s, v1)" "same_tables v0 v1"
    and e1: "effective (and_then (get_event_whitelist p) (\<lambda>wl. and_then (validate_signature pf st p raw hs s cid tid) (\<lambda>_.
           and_then (emit pf st webhook_received in_progress cid tid None) (\<lambda>_.
             process_verified pf st tid p cid (extract_event_type hs) wl raw hs)))) v1"
    using effective_and_then [OF e0' read_only_get_webhook_secret] by blast
  obtain wl v2 where r2: "run (get_event_whitelist p) v1 = (Inr wl, v2)" "same_tables v1 v2"
    and e2: "effective (and_then (validate_signature pf st p raw hs s cid tid) (\<lambda>_.
           and_then (emit pf st webhook_received in_progress cid tid None) (\<lambda>_.
             process_verified pf st tid p cid (extract_event_type hs) wl raw hs))) v2"
    using effective_and_then [OF e1 read_only_get_event_whitelist] by blast
  obtain u v3 where r3: "run (validate_signature pf st p raw hs s cid tid) v2 = (Inr u, v3)" "same_tables v2 v3"
    and e3: "effective (and_then (emit pf st webhook_received in_progress cid tid None) (\<lambda>_.
             process_verified pf st tid p cid (extract_event_type hs) wl raw hs)) v3"
    using effective_and_then [OF e2 read_only_validate_signature] by blast
  obtain v4 where r4: "same_tables v3 v4"
    and q4: "run (and_then (emit pf st webhook_received in_progress cid tid None) (\<lambda>_.
             process_verified pf st tid p cid (extract_event_type hs) wl raw hs)) v3 =
      run (process_verified pf st tid p cid (extract_event_type hs) wl raw hs) v4"
    using effective_and_then [OF e3 read_only_emit] by blast
  have e4: "run (process_webhook pf st tid p raw hs) w =
      run (process_verified pf st tid p cid (extract_event_type hs) wl raw hs) v4"
    unfolding q4 [symmetric] using p
    by (simp only: process_webhook_def run_and_then [of uuid4] run_and_then [of "get_webhook_secret pf tid"]
        run_and_then [of "get_event_whitelist p"] run_and_then [of "validate_signature pf st p raw hs s cid tid"]
        r0(1) r1(1) r2(1) r3(1) prod.case sum.case Let_def not_True_eq_False if_False)
  have "signature_valid p raw hs s = Inr True"
  proof (cases "signature_valid p raw hs s")
    case (Inl e)
    then show ?thesis using r3(1) by (simp add: validate_signature_def run_and_then)
  next
    case (Inr b)
    then show ?thesis
      using r3(1) by (cases b) (auto simp: validate_signature_def run_and_then split: prod.splits sum.splits)
  qed
  moreover have "select_whitelist p v1 = select_whitelist p w"
    using r0(2) r1(2) by (simp add: same_tables_def select_whitelist_def)
  then have "wl = select_whitelist p w" using run_get_event_whitelist [OF r2(1)] by simp
  moreover have "same_tables w v4"
    using r0(2) r1(2) r2(2) r3(2) r4 same_tables_trans by blast
  ultimately show ?thesis using that r1(1) p e4 unfolding v0 by blast
qed

text \<open>Only a parsed payload of an allowed event is written.\<close>

lemma writes_allowed:
  assumes "\<not> same_tables w (snd (run (process_verified pf st tid p cid et wl raw hs) w))"
  shows "\<exists>pr. parse_payload pf p raw = Inr pr \<and> is_event_allowed et (pd_action pr) wl"
proof -
  obtain pr where pr: "parse_payload pf p raw = Inr pr"
    and e: "\<not> same_tables w (snd (run (let action = pd_action pr in
       if \<not> is_event_allowed et action wl
       then and_then (emit pf st event_type_validated info cid tid
                (Some [(''event_type'', JStr et), (''action'', JStr action)]))
              (\<lambda>_. ret (WebhookIgnored cid et event_type_not_allowed))
       else let pr_hash_key = hash_key_of p tid pr in
         and_then (check pf (redis_idempotency_ttl_seconds st) pr_hash_key) (\<lambda>detection.
           case detection of
             Some method \<Rightarrow> and_then (emit pf st idempotency_checked info cid tid
                   (Some [(''detection_method'', JStr method)]))
                 (\<lambda>_. ret (WebhookDuplicate cid pr_hash_key method))
           | None \<Rightarrow> and_then (emit pf st idempotency_checked completed cid tid None) (\<lambda>_.
                 persist_and_report pf st tid p cid pr pr_hash_key raw hs))) w))"
    using writes_and_then [OF assms [unfolded process_verified_def] tables.keeps_Done] by auto
  have "read_only (and_then (emit pf st event_type_validated info cid tid
      (Some [(''event_type'', JStr et), (''action'', JStr (pd_action pr))]))
      (\<lambda>_. ret (WebhookIgnored cid et event_type_not_allowed)))"
    by (intro read_only_intros)
  then have "is_event_allowed et (pd_action pr) wl"
    using e by (auto simp: Let_def read_only_def split: if_splits)
  with pr show ?thesis by blast
qed

lemma writes_verified:
  assumes "\<not> same_tables w (snd (run (process_webhook pf st tid p raw hs) w))"
  obtains s w1 where "run (get_webhook_secret pf tid) (w\<lparr>w_uuids_drawn := Suc (w_uuids_drawn w)\<rparr>) = (Inr s, w1)"
    and "p \<in> supported_providers" and "signature_valid p raw hs s = Inr True"
    and "\<exists>pr. parse_payload pf p raw = Inr pr \<and>
      is_event_allowed (extract_event_type hs) (pd_action pr) (select_whitelist p w)"
proof -
  have "effective (process_webhook pf st tid p raw hs) w" using assms by (simp add: effective_def)
  then obtain s w1 v cid where s: "run (get_webhook_secret pf tid) (w\<lparr>w_uuids_drawn := Suc (w_uuids_drawn w)\<rparr>) = (Inr s, w1)"
    "p \<in> supported_providers" "signature_valid p raw hs s = Inr True"
    and v: "same_tables w v" "run (process_webhook pf st tid p raw hs) w =
      run (process_verified pf st tid p cid (extract_event_type hs) (select_whitelist p w) raw hs) v"
    by (rule effective_verified)
  have "\<not> same_tables v (snd (run (process_verified pf st tid p cid (extract_event_type hs) (select_whitelist p w) raw hs) v))"
    using assms v same_tables_trans [OF v(1)] by auto
  from writes_allowed [OF this] show thesis by (rule that [OF s])
qed

section \<open>The secret is the tenant's\<close>

text \<open>Every cached tenant document is the dump of the tenant's row, and the tenant is active.\<close>

definition tenant_cache_coherent :: "platform \<Rightarrow> world \<Rightarrow> bool" where
  "tenant_cache_coherent pf w \<longleftrightarrow>
     (\<forall>t s j. redis_lookup w (tenant_key t) = Some s \<longrightarrow> json_loads pf (encode s) = Some j \<longrightarrow> j \<noteq> JNull \<longrightarrow>
        (\<exists>tn. select_tenant t w = Some tn \<and> tn_is_active tn \<and> j = dump_tenant tn))"

lemma cached_secret_dump:
  "tn_is_active t \<Longrightarrow> cached_secret pf (dump_tenant t) = Inr (tn_webhook_secret t)"
  "\<not> tn_is_active t \<Longrightarrow> cached_secret pf (dump_tenant t) = Inl tenant_inactive"
  by (simp_all add: cached_secret_def dump_tenant_def dict_get_or_def)

lemma run_get_tenant_cache:
  assumes "run (get_tenant_cache pf t) w = (Inr c, v)"
  shows "v = w\<lparr>w_redis_calls := Suc (w_redis_calls w)\<rparr> \<and>
    (\<forall>j. c = Some j \<longrightarrow> j \<noteq> JNull \<and>
      (\<exists>s. redis_lookup w (tenant_key t) = Some s \<and> json_loads pf (encode s) = Some j))"
  using assms
  by (auto simp: get_tenant_cache_def run_except_exception run_and_then redis_get_def redis_call_def
      served_def redis_lookup_def none_if_null_def split: fault.splits if_splits option.splits)

lemma run_get_by_id:
  assumes "run (get_by_id t) w = (Inr x, v)"
  shows "x = select_tenant t w \<and> same_tables w v \<and> w_redis v = w_redis w \<and> w_redis_clock v = w_redis_clock w"
  using run_query_Inr [OF assms [unfolded get_by_id_query]]
  by (auto simp: select_tenant_def same_tables_def)

lemma secret_of_tenant:
  assumes coherent: "tenant_cache_coherent pf w" and run: "run (get_webhook_secret pf tid) w = (Inr s, w')"
  shows "\<exists>tn. select_tenant tid w = Some tn \<and> tn_is_active tn \<and> s = tn_webhook_secret tn"
proof -
  obtain c v where cv: "run (get_tenant_cache pf tid) w = (Inr c, v)"
    using run by (auto simp: get_webhook_secret_def run_and_then split: prod.splits sum.splits)
  note c = run_get_tenant_cache [OF cv]
  show ?thesis
  proof (cases c)
    case (Some j)
    then obtain tn where tn: "select_tenant tid w = Some tn" "tn_is_active tn" "j = dump_tenant tn"
      using c coherent unfolding tenant_cache_coherent_def by blast
    then show ?thesis
      using run Some cv by (simp add: get_webhook_secret_def run_and_then cached_secret_dump)
  next
    case None
    have v: "select_tenant tid v = select_tenant tid w" using c by (simp add: select_tenant_def)
    obtain x u where xu: "run (get_by_id tid) v = (Inr x, u)"
      using run None cv by (auto simp: get_webhook_secret_def run_and_then split: prod.splits sum.splits)
    then have "x = select_tenant tid w" using run_get_by_id v by metis
    then show ?thesis
      using run None cv xu
      by (auto simp: get_webhook_secret_def run_and_then split: prod.splits sum.splits option.splits if_splits)
  qed
qed

text \<open>The write-back keeps the cache coherent, when \<open>json.loads\<close> inverts \<open>json.dumps\<close>.\<close>

definition loads_inverts_dumps :: "platform \<Rightarrow> bool" where
  "loads_inverts_dumps pf \<longleftrightarrow> (\<forall>t. json_loads pf (encode (json_dumps pf (dump_tenant t))) = Some (dump_tenant t))"

lemma redis_lookup_store:
  "redis_lookup (redis_store k ttl v w) k' =
     (if k' = k then if 0 < ttl then Some v else None else redis_lookup w k')"
  by (auto simp: redis_lookup_def redis_store_def seconds_def split: option.splits prod.splits)

lemma coherent_store:
  assumes "loads_inverts_dumps pf" and "tenant_cache_coherent pf w"
    and "select_tenant t w = Some tn" "tn_is_active tn"
  shows "tenant_cache_coherent pf (redis_store (tenant_key t) ttl (json_dumps pf (dump_tenant tn)) w)"
proof -
  have "select_tenant t' (redis_store (tenant_key t) ttl v w) = select_tenant t' w" for t' v
    by (simp add: select_tenant_def redis_store_def)
  then show ?thesis
    using assms by (auto simp: tenant_cache_coherent_def redis_lookup_store loads_inverts_dumps_def
        split: if_splits)
qed

lemma coherent_same:
  assumes "tenant_cache_coherent pf w" and "same_tables w w'" and "w_redis w' = w_redis w"
    and "w_redis_clock w' = w_redis_clock w"
  shows "tenant_cache_coherent pf w'"
proof -
  have "redis_lookup w' k = redis_lookup w k" for k
    unfolding redis_lookup_def assms(3,4) by (rule refl)
  moreover have "select_tenant t w' = select_tenant t w" for t
    using assms(2) by (simp add: select_tenant_def same_tables_def)
  ultimately show ?thesis using assms(1) by (simp add: tenant_cache_coherent_def)
qed

lemma coherent_get_webhook_secret:
  assumes pf: "loads_inverts_dumps pf" and coherent: "tenant_cache_coherent pf w"
  shows "tenant_cache_coherent pf (snd (run (get_webhook_secret pf tid) w))"
proof -
  obtain c v where cv: "run (get_tenant_cache pf tid) w = (c, v)" by (cases "run (get_tenant_cache pf tid) w")
  have v: "same_tables w v" "w_redis v = w_redis w" "w_redis_clock v = w_redis_clock w"
    using cv by (auto simp: get_tenant_cache_def run_except_exception run_and_then redis_get_def
        redis_call_def served_def same_tables_def split: fault.splits if_splits option.splits)
  obtain x u where xu: "run (get_by_id tid) v = (x, u)" by (cases "run (get_by_id tid) v")
  have u: "same_tables v u" "w_redis u = w_redis v" "w_redis_clock u = w_redis_clock v"
    "\<forall>y. x = Inr y \<longrightarrow> y = select_tenant tid v"
    using xu by (auto simp: get_by_id_query query_def db_call_def served_def same_tables_def
        select_tenant_def split: fault.splits)
  have cu: "tenant_cache_coherent pf v" "tenant_cache_coherent pf u"
    using coherent_same [OF coherent v] coherent_same [OF _ u(1,2,3)] by blast+
  have set: "tenant_cache_coherent pf (snd (run (set_tenant_cache pf tid (dump_tenant tn) ttl) u))"
    if "x = Inr (Some tn)" "tn_is_active tn" for tn ttl
  proof -
    have "select_tenant tid u = Some tn"
      using u that by (simp add: select_tenant_def same_tables_def)
    then have "tenant_cache_coherent pf (redis_store (tenant_key tid) ttl (json_dumps pf (dump_tenant tn))
        (u\<lparr>w_redis_calls := n\<rparr>))" for n
      using coherent_store [OF pf coherent_same [OF cu(2)], of "u\<lparr>w_redis_calls := n\<rparr>"] that(2)
      by (simp add: select_tenant_def same_tables_def)
    moreover have "tenant_cache_coherent pf (u\<lparr>w_redis_calls := n\<rparr>)" for n
      by (rule coherent_same [OF cu(2)]) (simp_all add: same_tables_def)
    ultimately show ?thesis
      by (auto simp: set_tenant_cache_def suppress_def run_except_exception redis_setex_def redis_call_def
          served_def split: fault.split)
  qed
  have set': "tenant_cache_coherent pf y"
    if "run (set_tenant_cache pf tid (dump_tenant tn) ttl) u = (r, y)" "x = Inr (Some tn)" "tn_is_active tn"
    for tn ttl r y
    using set [OF that(2,3), of ttl] that(1) by simp
  show ?thesis
    using cu cv xu
    by (auto simp: get_webhook_secret_def run_and_then split: prod.splits sum.splits option.splits intro: set')
qed

end
