(* ===== verification/Healthy.thy ===== *)
theory Healthy
  imports System Authorisation
begin

text \<open>
  Executions without faults: what each component does when every call is served. These are
  the functional counterparts of the specifications under interference.
\<close>

section \<open>Healthy worlds\<close>

definition healthy :: "world \<Rightarrow> bool" where
  "healthy w \<longleftrightarrow> w_db_faults w = (\<lambda>_. NoFault) \<and> w_redis_faults w = (\<lambda>_. NoFault) \<and>
     w_amqp_faults w = (\<lambda>_. NoFault)"

text \<open>Only counters, channels, the broker's log and drawn UUIDs differ.\<close>

definition io_step :: "world \<Rightarrow> world \<Rightarrow> bool" where
  "io_step w w' \<longleftrightarrow> same_tables w w' \<and> w_redis w' = w_redis w \<and> w_redis_clock w' = w_redis_clock w \<and>
     w_db_clock w' = w_db_clock w \<and> w_app_clock w' = w_app_clock w \<and> w_txs w' = w_txs w \<and>
     w_uuid_source w' = w_uuid_source w \<and> w_db_faults w' = w_db_faults w \<and>
     w_redis_faults w' = w_redis_faults w \<and> w_amqp_faults w' = w_amqp_faults w"

lemma io_step_refl [simp]: "io_step w w"
  by (simp add: io_step_def)

lemma io_step_trans: "io_step u v \<Longrightarrow> io_step v w \<Longrightarrow> io_step u w"
  unfolding io_step_def using same_tables_trans by auto

lemma io_step_healthy: "io_step w w' \<Longrightarrow> healthy w \<Longrightarrow> healthy w'"
  by (simp add: io_step_def healthy_def)

lemma io_step_views:
  assumes "io_step w w'"
  shows "redis_lookup w' k = redis_lookup w k" "hash_keys w' = hash_keys w"
    "select_by_pr_hash_key h w' = select_by_pr_hash_key h w" "select_whitelist p w' = select_whitelist p w"
    "select_tenant t w' = select_tenant t w"
proof -
  have r: "w_redis w' = w_redis w" "w_redis_clock w' = w_redis_clock w" using assms by (simp_all add: io_step_def)
  show "redis_lookup w' k = redis_lookup w k" unfolding redis_lookup_def r by (rule refl)
qed (use assms in \<open>simp_all add: io_step_def same_tables_def hash_keys_def select_by_pr_hash_key_def
  select_whitelist_def select_tenant_def\<close>)

lemma served_healthy:
  "healthy w \<Longrightarrow> db_call f w = f (w\<lparr>w_db_calls := Suc (w_db_calls w)\<rparr>)"
  "healthy w \<Longrightarrow> redis_call g w = g (w\<lparr>w_redis_calls := Suc (w_redis_calls w)\<rparr>)"
  "healthy w \<Longrightarrow> amqp_call k w = k (w\<lparr>w_amqp_calls := Suc (w_amqp_calls w)\<rparr>)"
  by (simp_all add: healthy_def db_call_def redis_call_def amqp_call_def)

lemma healthy_counters [simp]:
  "healthy (w\<lparr>w_db_calls := n\<rparr>) = healthy w" "healthy (w\<lparr>w_redis_calls := n\<rparr>) = healthy w"
  "healthy (w\<lparr>w_amqp_calls := n\<rparr>) = healthy w" "healthy (w\<lparr>w_uuids_drawn := n\<rparr>) = healthy w"
  "healthy (w\<lparr>w_open_channels := cs\<rparr>) = healthy w" "healthy (w\<lparr>w_next_channel := n\<rparr>) = healthy w"
  "healthy (w\<lparr>w_published := ms\<rparr>) = healthy w" "healthy (w\<lparr>w_redis := r\<rparr>) = healthy w"
  "healthy (w\<lparr>w_inbound := is\<rparr>) = healthy w" "healthy (w\<lparr>w_outbox := os\<rparr>) = healthy w"
  "healthy (w\<lparr>w_txs := ts\<rparr>) = healthy w" "healthy (w\<lparr>w_publishers := ps\<rparr>) = healthy w"
  by (simp_all add: healthy_def)

section \<open>Journey events\<close>

definition journey_message ::
    "platform \<Rightarrow> settings \<Rightarrow> world \<Rightarrow> journey_step_type \<Rightarrow> journey_step_status \<Rightarrow> uuid \<Rightarrow> uuid \<Rightarrow> pydict option \<Rightarrow> broker_message" where
  "journey_message pf st w s t cid tid md =
     \<lparr>bm_exchange = rabbitmq_exchange_journey st, bm_routing_key = ''journey.step.created'',
      bm_body = dump_journey_step pf
        (journey_event (w_uuid_source w (w_uuids_drawn w)) (w_app_clock w) s t cid tid md),
      bm_content_type = ''application/json'', bm_headers = [(''correlation_id'', JStr (uuid_str cid))]\<rparr>"

lemma run_emit_healthy:
  assumes "healthy w"
  obtains w' where "run (emit pf st s t cid tid md) w = (Inr (), w')" "io_step w w'"
    "w_uuids_drawn w' = Suc (w_uuids_drawn w)"
    "w_published w' = w_published w @ [journey_message pf st w s t cid tid md]"
proof -
  let ?r = "run (emit pf st s t cid tid md) w"
  have "fst ?r = Inr () \<and> io_step w (snd ?r) \<and> w_uuids_drawn (snd ?r) = Suc (w_uuids_drawn w) \<and>
    w_published (snd ?r) = w_published w @ [journey_message pf st w s t cid tid md]"
    using assms
    by (simp add: emit_def publish_def run_and_then run_except_exception run_finally_do open_channel_def
        get_exchange_def exchange_publish_def close_channel_def served_healthy io_step_def same_tables_def
        journey_message_def)
  then show thesis by (cases ?r) (auto intro: that)
qed

section \<open>Components\<close>

lemma run_query_healthy:
  "healthy w \<Longrightarrow> run (query q) w = (Inr (q (w\<lparr>w_db_calls := Suc (w_db_calls w)\<rparr>)), w\<lparr>w_db_calls := Suc (w_db_calls w)\<rparr>)"
  by (simp add: query_def served_healthy)

lemma io_step_counters [simp]:
  "io_step w (w\<lparr>w_db_calls := n\<rparr>)" "io_step w (w\<lparr>w_redis_calls := n\<rparr>)" "io_step w (w\<lparr>w_uuids_drawn := n\<rparr>)"
  by (simp_all add: io_step_def same_tables_def)

lemma run_whitelist_healthy:
  "healthy w \<Longrightarrow> run (get_event_whitelist p) w = (Inr (select_whitelist p w), w\<lparr>w_db_calls := Suc (w_db_calls w)\<rparr>)"
  by (simp add: get_event_whitelist_def fetch_def run_query_healthy select_whitelist_def)

lemma redis_lookup_same:
  "w_redis w' = w_redis w \<Longrightarrow> w_redis_clock w' = w_redis_clock w \<Longrightarrow> redis_lookup w' k = redis_lookup w k"
  unfolding redis_lookup_def by (erule ssubst)+ (rule refl)

lemma redis_lookup_counters [simp]:
  "redis_lookup (w\<lparr>w_db_calls := n\<rparr>) k = redis_lookup w k" "redis_lookup (w\<lparr>w_redis_calls := n\<rparr>) k = redis_lookup w k"
  by (rule redis_lookup_same; simp)+

lemma run_get_tenant_cache_healthy:
  "healthy w \<Longrightarrow> run (get_tenant_cache pf tid) w =
     (Inr (case redis_lookup w (tenant_key tid) of None \<Rightarrow> None
           | Some s \<Rightarrow> Option.bind (json_loads pf (encode s)) none_if_null),
      w\<lparr>w_redis_calls := Suc (w_redis_calls w)\<rparr>)"
  by (auto simp: get_tenant_cache_def run_except_exception run_and_then redis_get_def served_healthy
      is_exception_def split: option.split)

text \<open>The tenant component, all cases: cached, and not cached with the row of the database.\<close>

lemma run_secret_cached:
  assumes "healthy w" and "redis_lookup w (tenant_key tid) = Some s"
    and "json_loads pf (encode s) = Some j" and "j \<noteq> JNull"
  shows "run (get_webhook_secret pf tid) w = (cached_secret pf j, w\<lparr>w_redis_calls := Suc (w_redis_calls w)\<rparr>)"
  using assms by (simp add: get_webhook_secret_def run_and_then run_get_tenant_cache_healthy none_if_null_def)

lemma run_secret_missed:
  assumes "healthy w"
    and "(case redis_lookup w (tenant_key tid) of None \<Rightarrow> None
          | Some s \<Rightarrow> Option.bind (json_loads pf (encode s)) none_if_null) = None"
  shows "run (get_webhook_secret pf tid) w =
    (let v = w\<lparr>w_redis_calls := Suc (w_redis_calls w), w_db_calls := Suc (w_db_calls w)\<rparr>
     in case select_tenant tid w of
          None \<Rightarrow> (Inl (tenant_not_found tid), v)
        | Some t \<Rightarrow>
            if \<not> tn_is_active t then (Inl tenant_inactive, v)
            else (Inr (tn_webhook_secret t),
              redis_store (tenant_key tid) tenant_cache_ttl_seconds (json_dumps pf (dump_tenant t))
                (v\<lparr>w_redis_calls := Suc (w_redis_calls v)\<rparr>)))"
  using assms
  by (auto simp: get_webhook_secret_def run_and_then run_get_tenant_cache_healthy get_by_id_query
      run_query_healthy set_tenant_cache_def suppress_def run_except_exception redis_setex_def served_healthy
      tenant_cache_ttl_seconds_def select_tenant_def Let_def split: option.split)

lemma run_secret_uncached:
  assumes "healthy w" and "redis_lookup w (tenant_key tid) = None"
  shows "run (get_webhook_secret pf tid) w =
    (let v = w\<lparr>w_redis_calls := Suc (w_redis_calls w), w_db_calls := Suc (w_db_calls w)\<rparr>
     in case select_tenant tid w of
          None \<Rightarrow> (Inl (tenant_not_found tid), v)
        | Some t \<Rightarrow>
            if \<not> tn_is_active t then (Inl tenant_inactive, v)
            else (Inr (tn_webhook_secret t),
              redis_store (tenant_key tid) tenant_cache_ttl_seconds (json_dumps pf (dump_tenant t))
                (v\<lparr>w_redis_calls := Suc (w_redis_calls v)\<rparr>)))"
  by (rule run_secret_missed [OF assms(1)]) (simp add: assms(2))

text \<open>The idempotency checker: cache hit, database hit, miss.\<close>

lemma run_check_cached:
  "healthy w \<Longrightarrow> redis_lookup w (idempotency_key h) = Some v \<Longrightarrow>
     run (check pf ttl h) w = (Inr (Some ''redis_cache''), w\<lparr>w_redis_calls := Suc (w_redis_calls w)\<rparr>)"
  by (simp add: check_def run_and_then get_idempotency_cache_def run_except_exception redis_get_def served_healthy)

lemma run_check_uncached:
  assumes "healthy w" and "no_nul h" and "redis_lookup w (idempotency_key h) = None"
  shows "run (check pf ttl h) w =
    (let v = w\<lparr>w_redis_calls := Suc (w_redis_calls w), w_db_calls := Suc (w_db_calls w)\<rparr>
     in case select_by_pr_hash_key h w of
          None \<Rightarrow> (Inr None, v)
        | Some r \<Rightarrow> (case validate_inbound pf r of
              Inl e \<Rightarrow> (Inl e, v)
            | Inr _ \<Rightarrow> (Inr (Some ''db_lookup''),
                let u = v\<lparr>w_redis_calls := Suc (w_redis_calls v)\<rparr>
                in if ttl \<le> 0 then u else redis_store (idempotency_key h) ttl ''1'' u)))"
  using assms
  by (auto simp: check_def run_and_then get_idempotency_cache_def run_except_exception redis_get_def
      served_healthy get_by_pr_hash_key_def run_query_healthy select_by_pr_hash_key_def
      set_idempotency_cache_def suppress_def redis_setex_def Let_def is_exception_def
      split: option.split sum.split)

lemma run_mark_processed_healthy:
  "healthy w \<Longrightarrow> 0 < ttl \<Longrightarrow> run (mark_processed ttl h) w =
     (Inr (), redis_store (idempotency_key h) ttl ''1'' (w\<lparr>w_redis_calls := Suc (w_redis_calls w)\<rparr>))"
  by (simp add: mark_processed_def set_idempotency_cache_def suppress_def run_except_exception
      redis_setex_def served_healthy)

section \<open>The persist transaction\<close>

lemma run_execute_healthy:
  "healthy w \<Longrightarrow> run (execute f) w = f (w\<lparr>w_db_calls := Suc (w_db_calls w)\<rparr>)"
  by (simp add: execute_def served_healthy)

definition committed_row :: "time \<Rightarrow> inbound_event \<Rightarrow> inbound_event" where
  "committed_row now f = f\<lparr>ie_rejection_reason := None, ie_created_at := now, ie_updated_at := now\<rparr>"

lemma run_insert_inbound_healthy:
  assumes "healthy w" "jsonb_codec pf" "fit_inbound v = Some f" "ie_processing_status f = ''accepted''"
    and "is_dict (ie_raw_payload f)" "\<exists>hd. ie_webhook_headers f = Some (JObj hd)"
    and "ie_event_id f \<notin> ie_event_id ` set (w_inbound w)"
    and "ie_correlation_id f \<notin> ie_correlation_id ` set (w_inbound w)" and "ie_pr_hash_key f \<notin> hash_keys w"
  shows "run (insert_inbound pf v) w = (Inr (committed_row (w_db_clock w) f),
    w\<lparr>w_db_calls := Suc (w_db_calls w), w_inbound := w_inbound w @ [committed_row (w_db_clock w) f]\<rparr>)"
  using assms
  by (auto simp: insert_inbound_def run_and_then run_execute_healthy insert_inbound_stmt_def Let_def
      committed_row_def validate_inbound_def hash_keys_def)

lemma run_schedule_event_healthy:
  assumes "healthy w" and "list_all2 paired ins (w_outbox w)" "list_all inbound_ok ins" "py_len k \<le> 64"
    and "no_nul et" "no_nul k" "jsonb_ok pl" "jsonb_ok hs"
    and "w_uuid_source w (w_uuids_drawn w) \<notin> oe_outbox_id ` set (w_outbox w)"
  shows "run (schedule_event et c k 1 pl hs d) w = (Inr (w_uuid_source w (w_uuids_drawn w)),
    w\<lparr>w_db_calls := Suc (Suc (w_db_calls w)), w_uuids_drawn := Suc (w_uuids_drawn w),
      w_outbox := w_outbox w @
        [scheduled_row (w_uuid_source w (w_uuids_drawn w)) et c k pl hs d (w_db_clock w)]\<rparr>)"
proof -
  let ?w = "w\<lparr>w_db_calls := Suc (w_db_calls w)\<rparr>"
  have "cancel_previous_stmt k 1 ''superseded_by_newer_version'' ?w = (Inr (), ?w)"
    using assms(2,3,6) by (intro cancel_none) simp_all
  then show ?thesis
    using assms
    by (simp add: schedule_event_def run_and_then run_execute_healthy insert_event_stmt_def fits_int4_def
        varchar_fits Let_def scheduled_row_def)
qed

definition payload_of ::
    "platform \<Rightarrow> uuid \<Rightarrow> uuid \<Rightarrow> uuid \<Rightarrow> time \<Rightarrow> string \<Rightarrow> pull_request_data \<Rightarrow> string \<Rightarrow> json \<Rightarrow> json" where
  "payload_of pf eid cid tid t p pr h j = dump_webhook_received pf (received_message eid cid tid t p pr h j)"

text \<open>
  The formatted date of a message has no NUL character; then neither has a message whose
  other texts a row can hold.
\<close>

definition plain_dates :: "platform \<Rightarrow> bool" where
  "plain_dates pf \<longleftrightarrow> (\<forall>t. no_nul (iso_utc pf t))"

lemma jsonb_ok_opt_str: "jsonb_ok (opt_str x) \<longleftrightarrow> pred_option no_nul x"
  by (simp add: opt_str_def split: option.split)

lemma payload_jsonb_ok:
  assumes "plain_dates pf" and "encodable (inbound_values eid cid tid p pr h j hs)"
  shows "no_nul h" and "jsonb_ok (payload_of pf eid cid tid t p pr h j)"
  using assms
  by (simp_all add: encodable_def inbound_values_def payload_of_def dump_webhook_received_def dump_base_def
      received_message_def plain_dates_def jsonb_ok_opt_str)

text \<open>What a request can be stored with: every column fits, and its UUIDs are new.\<close>

definition storable :: "world \<Rightarrow> inbound_event \<Rightarrow> inbound_event \<Rightarrow> uuid \<Rightarrow> bool" where
  "storable w v f oid \<longleftrightarrow> fit_inbound v = Some f \<and>
     ie_event_id v \<notin> ie_event_id ` set (w_inbound w) \<and>
     ie_correlation_id v \<notin> ie_correlation_id ` set (w_inbound w) \<and>
     oid \<notin> oe_outbox_id ` set (w_outbox w)"

lemma run_persist_healthy:
  assumes w: "healthy w" "Inv w" and j: "json_loads pf raw = Some (JObj d)" and codec: "jsonb_codec pf"
    and h: "py_len h \<le> 64" "h \<notin> hash_keys w"
    and eid: "eid = w_uuid_source w (w_uuids_drawn w)"
    and oid: "oid = w_uuid_source w (Suc (w_uuids_drawn w))"
    and v: "v = inbound_values eid cid tid p pr h (JObj d) (stored_headers hs)"
    and ok: "storable w v f oid" and dates: "plain_dates pf"
  shows "\<exists>n. run (persist pf st tid p cid pr h raw hs) w = (Inr (eid, oid),
    w\<lparr>w_db_calls := n, w_uuids_drawn := Suc (Suc (w_uuids_drawn w)),
      w_inbound := w_inbound w @ [committed_row (w_db_clock w) f],
      w_outbox := w_outbox w @ [scheduled_row oid ''vcs.webhook.received'' cid h
        (payload_of pf eid cid tid (w_app_clock w) p pr h (JObj d))
        (JObj [(''correlation_id'', JStr (uuid_str cid))]) (outbox_debounce_seconds st) (w_db_clock w)]\<rparr>)"
proof -
  let ?w1 = "w\<lparr>w_uuids_drawn := Suc (w_uuids_drawn w), w_db_calls := Suc (w_db_calls w)\<rparr>"
  have f: "fit_inbound v = Some f" using ok by (simp add: storable_def)
  let ?pl = "payload_of pf eid cid tid (w_app_clock w) p pr h (JObj d)"
  have nul: "no_nul h" and payload: "jsonb_ok ?pl"
    using payload_jsonb_ok [OF dates] fit_inbound_encodable [OF f] unfolding v by blast+
  note same = fit_inbound_unchanged [OF f] fit_inbound_short [OF f]
  have key: "ie_pr_hash_key f = h" "ie_processing_status f = ''accepted''"
    using same h by (simp_all add: v inbound_values_def py_len_def is_continuation_def)
  have ins: "run (insert_inbound pf v) ?w1 = (Inr (committed_row (w_db_clock w) f),
      ?w1\<lparr>w_db_calls := Suc (w_db_calls ?w1), w_inbound := w_inbound w @ [committed_row (w_db_clock w) f]\<rparr>)"
    using run_insert_inbound_healthy [of ?w1 pf v f] w codec f key same ok h
    by (simp add: v inbound_values_def storable_def hash_keys_def)
  let ?w2 = "?w1\<lparr>w_db_calls := Suc (w_db_calls ?w1), w_inbound := w_inbound w @ [committed_row (w_db_clock w) f]\<rparr>"
  have sch: "run (schedule_event ''vcs.webhook.received'' cid h 1 pl
        (JObj [(''correlation_id'', JStr (uuid_str cid))]) (outbox_debounce_seconds st)) ?w2 =
      (Inr oid, ?w2\<lparr>w_db_calls := Suc (Suc (w_db_calls ?w2)), w_uuids_drawn := Suc (w_uuids_drawn ?w2),
        w_outbox := w_outbox w @ [scheduled_row oid ''vcs.webhook.received'' cid h pl
          (JObj [(''correlation_id'', JStr (uuid_str cid))]) (outbox_debounce_seconds st) (w_db_clock w)]\<rparr>)"
    if "jsonb_ok pl" for pl
    using run_schedule_event_healthy [of ?w2 "w_inbound w" h] w ok h nul that
    by (simp add: oid storable_def Inv_def tables_ok_def)
  have ids: "ie_correlation_id v = cid" "ie_pr_hash_key v = h" by (simp_all add: v inbound_values_def)
  have body: "run (and_then (query (\<lambda>_. ())) (\<lambda>_. persist_body pf (outbox_debounce_seconds st) v pl))
      (w\<lparr>w_uuids_drawn := Suc (w_uuids_drawn w)\<rparr>) =
      (Inr oid, ?w2\<lparr>w_db_calls := Suc (Suc (w_db_calls ?w2)), w_uuids_drawn := Suc (w_uuids_drawn ?w2),
        w_outbox := w_outbox w @ [scheduled_row oid ''vcs.webhook.received'' cid h pl
          (JObj [(''correlation_id'', JStr (uuid_str cid))]) (outbox_debounce_seconds st) (w_db_clock w)]\<rparr>)"
    if "jsonb_ok pl" for pl
    using w ins sch [OF that] by (simp add: run_and_then run_query_healthy persist_body_def ids)
  let ?w3 = "\<lambda>pl. ?w2\<lparr>w_db_calls := Suc (Suc (w_db_calls ?w2)), w_uuids_drawn := Suc (w_uuids_drawn ?w2),
        w_outbox := w_outbox w @ [scheduled_row oid ''vcs.webhook.received'' cid h pl
          (JObj [(''correlation_id'', JStr (uuid_str cid))]) (outbox_debounce_seconds st) (w_db_clock w)]\<rparr>"
  have tx: "transaction_stmt (persist_body pf (outbox_debounce_seconds st) v pl)
      (w\<lparr>w_uuids_drawn := Suc (w_uuids_drawn w)\<rparr>) =
      (Inr oid, (?w3 pl)\<lparr>w_db_calls := Suc (w_db_calls (?w3 pl))\<rparr>)"
    if "jsonb_ok pl" for pl
    unfolding transaction_stmt_def body [OF that] using w(1) by (simp add: commit_def healthy_def)
  have "run (persist pf st tid p cid pr h raw hs) w =
      (Inr (eid, oid), let pl = payload_of pf eid cid tid (w_app_clock w) p pr h (JObj d)
        in (?w3 pl)\<lparr>w_db_calls := Suc (w_db_calls (?w3 pl))\<rparr>)"
    using j by (simp add: persist_def run_and_then run_on_error transaction_def v [symmetric]
        eid [symmetric] payload_of_def [symmetric] tx [OF payload] Let_def)
  then show ?thesis
    by (intro exI [of _ "Suc (Suc (Suc (Suc (Suc (w_db_calls w)))))"]) (simp add: Let_def)
qed

section \<open>The pipeline\<close>

lemma run_then_emit:
  assumes "healthy w"
  obtains v where "run (and_then (emit pf st s t c tid md) k) w = run (k ()) v" "io_step w v"
    "w_uuids_drawn v = Suc (w_uuids_drawn w)" "w_published v = w_published w @ [journey_message pf st w s t c tid md]"
proof -
  obtain v where v: "run (emit pf st s t c tid md) w = (Inr (), v)" "io_step w v"
    "w_uuids_drawn v = Suc (w_uuids_drawn w)" "w_published v = w_published w @ [journey_message pf st w s t c tid md]"
    by (rule run_emit_healthy [OF assms])
  show thesis by (rule that [OF _ v(2,3,4)]) (simp add: run_and_then v(1))
qed

text \<open>The step that a journey message reports.\<close>

definition reported_step :: "broker_message \<Rightarrow> string" where
  "reported_step m = (case bm_body m of
       JObj d \<Rightarrow> (case dict_get d ''step_type'' of Some (JStr s) \<Rightarrow> s | _ \<Rightarrow> [])
     | _ \<Rightarrow> [])"

lemma reported_step_journey [simp]: "reported_step (journey_message pf st w s t c tid md) = step_type_value s"
  by (simp add: reported_step_def journey_message_def dump_journey_step_def dump_base_def journey_event_def)

text \<open>Persisting, caching and reporting a new webhook.\<close>

lemma run_persist_and_report_healthy:
  assumes w: "healthy w" "Inv w" and j: "json_loads pf raw = Some (JObj d)" and codec: "jsonb_codec pf"
    and h: "py_len h \<le> 64" "h \<notin> hash_keys w"
    and eid: "eid = w_uuid_source w (w_uuids_drawn w)"
    and oid: "oid = w_uuid_source w (Suc (w_uuids_drawn w))"
    and ok: "storable w (inbound_values eid cid tid p pr h (JObj d) (stored_headers hs)) f oid"
    and dates: "plain_dates pf" and ttl: "0 < redis_idempotency_ttl_seconds st"
  shows "\<exists>v. run (persist_and_report pf st tid p cid pr h raw hs) w = (Inr (WebhookAccepted cid eid oid), v) \<and>
    w_inbound v = w_inbound w @ [committed_row (w_db_clock w) f] \<and>
    w_outbox v = w_outbox w @ [scheduled_row oid ''vcs.webhook.received'' cid h
        (payload_of pf eid cid tid (w_app_clock w) p pr h (JObj d))
        (JObj [(''correlation_id'', JStr (uuid_str cid))]) (outbox_debounce_seconds st) (w_db_clock w)] \<and>
    redis_lookup v (idempotency_key h) = Some ''1'' \<and>
    map reported_step (w_published v) = map reported_step (w_published w) @ [''outbox_scheduled'']"
proof -
  obtain n where run: "run (persist pf st tid p cid pr h raw hs) w = (Inr (eid, oid),
    w\<lparr>w_db_calls := n, w_uuids_drawn := Suc (Suc (w_uuids_drawn w)),
      w_inbound := w_inbound w @ [committed_row (w_db_clock w) f],
      w_outbox := w_outbox w @ [scheduled_row oid ''vcs.webhook.received'' cid h
        (payload_of pf eid cid tid (w_app_clock w) p pr h (JObj d))
        (JObj [(''correlation_id'', JStr (uuid_str cid))]) (outbox_debounce_seconds st) (w_db_clock w)]\<rparr>)"
    (is "_ = (_, ?w)")
    using run_persist_healthy [OF w j codec h eid oid refl ok dates] by blast
  let ?u = "redis_store (idempotency_key h) (redis_idempotency_ttl_seconds st) ''1''
    (?w\<lparr>w_redis_calls := Suc (w_redis_calls ?w)\<rparr>)"
  have u: "healthy ?u" using w(1) by (simp add: redis_store_def)
  have marked: "run (mark_processed (redis_idempotency_ttl_seconds st) h) ?w = (Inr (), ?u)"
    using w(1) ttl by (intro run_mark_processed_healthy) simp_all
  obtain v where v: "run (and_then (emit pf st outbox_scheduled completed cid tid
      (Some [(''outbox_id'', JStr (uuid_str oid)), (''pr_hash_key'', JStr h)]))
      (\<lambda>_. ret (WebhookAccepted cid eid oid))) ?u = run (ret (WebhookAccepted cid eid oid)) v" "io_step ?u v"
    "w_published v = w_published ?u @ [journey_message pf st ?u outbox_scheduled completed cid tid
      (Some [(''outbox_id'', JStr (uuid_str oid)), (''pr_hash_key'', JStr h)])]"
    by (rule run_then_emit [OF u])
  have pub: "map reported_step (w_published v) = map reported_step (w_published w) @ [''outbox_scheduled'']"
    unfolding v(3) by (simp add: redis_store_def)
  have "redis_lookup v (idempotency_key h) = Some ''1''"
    using io_step_views(1) [OF v(2)] ttl by (simp add: redis_lookup_store)
  moreover have "w_inbound v = w_inbound ?u" "w_outbox v = w_outbox ?u"
    using v(2) by (simp_all add: io_step_def same_tables_def)
  then have "w_inbound v = w_inbound ?w" "w_outbox v = w_outbox ?w"
    by (simp_all add: redis_store_def)
  ultimately show ?thesis
    using marked v(1) pub
    by (simp add: persist_and_report_def run_attempt run run_and_then [of "mark_processed t h" for t h])
qed

lemma run_harmless_Inv:
  assumes "harmless q" and "Inv w" and "run q w = (r, v)"
  shows "Inv v"
proof -
  have "spec (Web 0) q (\<lambda>_. Inv) w"
    by (rule spec_harmless [OF assms(1)]) (use assms(2) rely_Inv in blast)
  from wp_run [OF this] show ?thesis by (simp add: assms(3))
qed

text \<open>
  How far a request has come: \<open>k\<close> UUIDs drawn since \<open>w\<close>, the steps \<open>ss\<close> reported, no table
  touched and the key \<open>h\<close> not cached.
\<close>

definition stage :: "world \<Rightarrow> string \<Rightarrow> nat \<Rightarrow> string list \<Rightarrow> world \<Rightarrow> bool" where
  "stage w h k ss v \<longleftrightarrow> healthy v \<and> Inv v \<and> same_tables w v \<and> w_uuids_drawn v = w_uuids_drawn w + k \<and>
     w_uuid_source v = w_uuid_source w \<and> w_db_clock v = w_db_clock w \<and> w_app_clock v = w_app_clock w \<and>
     redis_lookup v (idempotency_key h) = None \<and>
     map reported_step (w_published v) = map reported_step (w_published w) @ ss"

lemma stage_io:
  assumes "stage w h k ss v" and "io_step v v'" and "Inv v'" and "w_uuids_drawn v' = w_uuids_drawn v + m"
    and "map reported_step (w_published v') = map reported_step (w_published v) @ ss'"
  shows "stage w h (k + m) (ss @ ss') v'"
  using assms io_step_healthy [OF assms(2)] io_step_views(1) [OF assms(2)]
  by (auto simp: stage_def io_step_def intro: same_tables_trans)

lemma stage_emit:
  assumes "stage w h k ss v"
  obtains v' where "run (emit pf st s t c tid md) v = (Inr (), v')" "stage w h (Suc k) (ss @ [step_type_value s]) v'"
proof -
  have "healthy v" "Inv v" using assms by (simp_all add: stage_def)
  from run_emit_healthy [OF this(1)] obtain v' where v': "run (emit pf st s t c tid md) v = (Inr (), v')"
    "io_step v v'" "w_uuids_drawn v' = Suc (w_uuids_drawn v)"
    "w_published v' = w_published v @ [journey_message pf st v s t c tid md]"
    by blast
  moreover have "Inv v'" by (rule run_harmless_Inv [OF harmless_emit \<open>Inv v\<close> v'(1)])
  ultimately show thesis using stage_io [OF assms, of v' 1 "[step_type_value s]"] that by simp
qed

lemma stage_tables:
  assumes "stage w h k ss v"
  shows "hash_keys v = hash_keys w" "select_whitelist p v = select_whitelist p w"
    "select_by_pr_hash_key h' v = select_by_pr_hash_key h' w" "select_tenant t v = select_tenant t w"
    "storable v = storable w" "w_inbound v = w_inbound w" "w_outbox v = w_outbox w"
  using assms
  by (simp_all add: stage_def same_tables_def hash_keys_def select_whitelist_def select_by_pr_hash_key_def
      select_tenant_def storable_def fun_eq_iff)

lemma not_selected: "h \<notin> hash_keys w \<Longrightarrow> select_by_pr_hash_key h w = None"
  using select_by_pr_hash_key_iff [of h w] by (cases "select_by_pr_hash_key h w") auto

lemma stage_check_new:
  assumes v: "stage w h k ss v" and new: "h \<notin> hash_keys w" and nul: "no_nul h"
  obtains v' where "run (check pf ttl h) v = (Inr None, v')" "stage w h k ss v'"
proof -
  let ?v = "v\<lparr>w_redis_calls := Suc (w_redis_calls v), w_db_calls := Suc (w_db_calls v)\<rparr>"
  have "run (check pf ttl h) v = (Inr None, ?v)"
    using v nul not_selected [OF new] stage_tables(3) [OF v, of h]
    by (subst run_check_uncached) (simp_all add: stage_def)
  moreover have "stage w h (k + 0) (ss @ []) ?v"
    by (rule stage_io [OF v])
      (use v quiet_step [OF bump_quiet(2)] in \<open>simp_all add: stage_def io_step_def same_tables_def\<close>)
  ultimately show thesis using that by simp
qed

text \<open>
  The main functional statement: in a healthy world, a signed and allowed event of an active
  tenant that is not yet stored is accepted: both rows are appended, the key is cached and
  the four steps are reported.
\<close>

definition acceptable ::
    "platform \<Rightarrow> settings \<Rightarrow> uuid \<Rightarrow> string \<Rightarrow> bytes \<Rightarrow> (string \<times> string) list \<Rightarrow> world \<Rightarrow>
     tenant \<Rightarrow> pull_request_data \<Rightarrow> pydict \<Rightarrow> inbound_event \<Rightarrow> bool" where
  "acceptable pf st tid p raw hs w tn pr d f \<longleftrightarrow>
     (let n = w_uuids_drawn w; u = w_uuid_source w; h = hash_key_of p tid pr in
      p \<in> supported_providers \<and>
      redis_lookup w (tenant_key tid) = None \<and> select_tenant tid w = Some tn \<and> tn_is_active tn \<and>
      signature_valid p raw hs (tn_webhook_secret tn) = Inr True \<and>
      parse_payload pf p raw = Inr pr \<and>
      is_event_allowed (extract_event_type hs) (pd_action pr) (select_whitelist p w) \<and>
      redis_lookup w (idempotency_key h) = None \<and> h \<notin> hash_keys w \<and>
      json_loads pf raw = Some (JObj d) \<and> jsonb_codec pf \<and> 0 < redis_idempotency_ttl_seconds st \<and>
      plain_dates pf \<and> storable w (inbound_values (u (n + 4)) (u n) tid p pr h (JObj d) (stored_headers hs)) f (u (n + 5)))"

text \<open>The answer and the rows of an accepted request that drew its first UUID as number \<open>n\<close>.\<close>

definition accepted_from ::
    "platform \<Rightarrow> settings \<Rightarrow> uuid \<Rightarrow> string \<Rightarrow> pull_request_data \<Rightarrow> pydict \<Rightarrow> inbound_event \<Rightarrow> world \<Rightarrow>
     exn + webhook_result \<Rightarrow> world \<Rightarrow> bool" where
  "accepted_from pf st tid p pr d f w res v \<longleftrightarrow>
     (let n = w_uuids_drawn w; u = w_uuid_source w; h = hash_key_of p tid pr in
      res = Inr (WebhookAccepted (u n) (u (n + 4)) (u (n + 5))) \<and>
      w_inbound v = w_inbound w @ [committed_row (w_db_clock w) f] \<and>
      w_outbox v = w_outbox w @ [scheduled_row (u (n + 5)) ''vcs.webhook.received'' (u n) h
        (payload_of pf (u (n + 4)) (u n) tid (w_app_clock w) p pr h (JObj d))
        (JObj [(''correlation_id'', JStr (uuid_str (u n)))]) (outbox_debounce_seconds st) (w_db_clock w)] \<and>
      redis_lookup v (idempotency_key h) = Some ''1'' \<and>
      map reported_step (w_published v) = map reported_step (w_published w) @
        [''signature_verified'', ''webhook_received'', ''idempotency_checked'', ''outbox_scheduled''])"

text \<open>Steps 4 to 6, from the stage in which the signature is verified and the receipt reported.\<close>

lemma run_process_verified_healthy:
  assumes ok: "acceptable pf st tid p raw hs w tn pr d f"
    and v: "stage w (hash_key_of p tid pr) 3 [''signature_verified'', ''webhook_received''] v"
    and run: "run (process_verified pf st tid p (w_uuid_source w (w_uuids_drawn w)) (extract_event_type hs)
      (select_whitelist p w) raw hs) v = (res, v')"
  shows "accepted_from pf st tid p pr d f w res v'"
proof -
  let ?n = "w_uuids_drawn w" and ?u = "w_uuid_source w" and ?h = "hash_key_of p tid pr"
  have parse: "parse_payload pf p raw = Inr pr"
    and allowed: "is_event_allowed (extract_event_type hs) (pd_action pr) (select_whitelist p w)"
    and new: "?h \<notin> hash_keys w" and j: "json_loads pf raw = Some (JObj d)" and codec: "jsonb_codec pf"
    and ttl: "0 < redis_idempotency_ttl_seconds st" and dates: "plain_dates pf"
    and store: "storable w (inbound_values (?u (?n + 4)) (?u ?n) tid p pr ?h (JObj d) (stored_headers hs)) f (?u (?n + 5))"
    using ok unfolding acceptable_def Let_def by simp_all
  obtain v5 where r5: "run (check pf (redis_idempotency_ttl_seconds st) ?h) v = (Inr None, v5)"
    and s5: "stage w ?h 3 [''signature_verified'', ''webhook_received''] v5"
    by (rule stage_check_new [OF v new no_nul_hash_key])
  obtain v6 where r6: "run (emit pf st idempotency_checked completed (?u ?n) tid None) v5 = (Inr (), v6)"
    and s6: "stage w ?h (Suc 3) ([''signature_verified'', ''webhook_received''] @ [step_type_value idempotency_checked]) v6"
    by (rule stage_emit [OF s5])
  have six: "healthy v6" "Inv v6" "w_uuids_drawn v6 = ?n + 4" "w_uuid_source v6 = ?u"
    "w_db_clock v6 = w_db_clock w" "w_app_clock v6 = w_app_clock w"
    "map reported_step (w_published v6) = map reported_step (w_published w) @
      [''signature_verified'', ''webhook_received'', ''idempotency_checked'']"
    using s6 by (simp_all add: stage_def)
  have storable: "storable v6 (inbound_values (?u (?n + 4)) (?u ?n) tid p pr ?h (JObj d) (stored_headers hs)) f (?u (?n + 5))"
    unfolding stage_tables(5) [OF s6] by (rule store)
  have ids: "?u (?n + 4) = w_uuid_source v6 (w_uuids_drawn v6)" "?u (?n + 5) = w_uuid_source v6 (Suc (w_uuids_drawn v6))"
    "py_len ?h \<le> 64" "?h \<notin> hash_keys v6"
    using six new stage_tables(1) [OF s6] by (simp_all add: py_len_hash_key ac_simps)
  obtain v7 where "run (persist_and_report pf st tid p (?u ?n) pr ?h raw hs) v6 =
        (Inr (WebhookAccepted (?u ?n) (?u (?n + 4)) (?u (?n + 5))), v7)"
    and rest: "w_inbound v7 = w_inbound v6 @ [committed_row (w_db_clock v6) f]"
    "w_outbox v7 = w_outbox v6 @ [scheduled_row (?u (?n + 5)) ''vcs.webhook.received'' (?u ?n) ?h
        (payload_of pf (?u (?n + 4)) (?u ?n) tid (w_app_clock v6) p pr ?h (JObj d))
        (JObj [(''correlation_id'', JStr (uuid_str (?u ?n)))]) (outbox_debounce_seconds st) (w_db_clock v6)]"
    "redis_lookup v7 (idempotency_key ?h) = Some ''1''"
    "map reported_step (w_published v7) = map reported_step (w_published v6) @ [''outbox_scheduled'']"
    using run_persist_and_report_healthy [OF six(1,2) j codec ids(3,4,1,2) storable dates ttl] by blast
  then have "res = Inr (WebhookAccepted (?u ?n) (?u (?n + 4)) (?u (?n + 5)))" "v' = v7"
    using parse allowed r5 r6 run by (simp_all add: process_verified_def run_and_then Let_def)
  then show ?thesis
    using rest unfolding six(5,6,7) stage_tables(6,7) [OF s6] by (simp add: accepted_from_def Let_def)
qed

lemma run_process_webhook_healthy:
  assumes w: "healthy w" "Inv w" and ok: "acceptable pf st tid p raw hs w tn pr d f"
    and run: "run (process_webhook pf st tid p raw hs) w = (res, v)"
  shows "accepted_from pf st tid p pr d f w res v"
proof -
  let ?n = "w_uuids_drawn w" and ?u = "w_uuid_source w" and ?h = "hash_key_of p tid pr"
  have p: "p \<in> supported_providers" and cold: "redis_lookup w (tenant_key tid) = None"
    and tn: "select_tenant tid w = Some tn" "tn_is_active tn"
    and sig: "signature_valid p raw hs (tn_webhook_secret tn) = Inr True"
    and key: "redis_lookup w (idempotency_key ?h) = None"
    using ok unfolding acceptable_def Let_def by simp_all
  let ?w = "w\<lparr>w_uuids_drawn := Suc ?n\<rparr>"
  let ?v = "w\<lparr>w_uuids_drawn := Suc ?n, w_redis_calls := Suc (w_redis_calls w), w_db_calls := Suc (w_db_calls w)\<rparr>"
  let ?v1 = "redis_store (tenant_key tid) tenant_cache_ttl_seconds (json_dumps pf (dump_tenant tn))
    (?v\<lparr>w_redis_calls := Suc (w_redis_calls ?v)\<rparr>)"
  have "redis_lookup ?w (tenant_key tid) = None" using cold redis_lookup_same [of ?w w] by simp
  moreover have "select_tenant tid ?w = Some tn" using tn(1) by (simp add: select_tenant_def)
  ultimately have r1: "run (get_webhook_secret pf tid) ?w = (Inr (tn_webhook_secret tn), ?v1)"
    using w(1) tn(2) by (subst run_secret_uncached) simp_all
  have "Inv ?w" using w(2) quiet_step [of w ?w] by (simp add: quiet_def)
  then have "Inv ?v1" by (rule run_harmless_Inv [OF harmless_get_webhook_secret _ r1])
  moreover have "redis_lookup ?v1 (idempotency_key ?h) = None"
    using key redis_lookup_same [of "?v\<lparr>w_redis_calls := Suc (w_redis_calls ?v)\<rparr>" w]
    by (simp add: redis_lookup_store keys_disjoint)
  ultimately have s1: "stage w ?h 1 [] ?v1"
    using w(1) by (simp add: stage_def redis_store_def same_tables_def)
  let ?v2 = "?v1\<lparr>w_db_calls := Suc (w_db_calls ?v1)\<rparr>"
  have r2: "run (get_event_whitelist p) ?v1 = (Inr (select_whitelist p w), ?v2)"
    using s1 stage_tables(2) [OF s1] by (subst run_whitelist_healthy) (simp_all add: stage_def)
  have s2: "stage w ?h 1 [] ?v2"
    using stage_io [OF s1, of ?v2 0 "[]"] s1 by (simp add: stage_def)
  obtain v3 where r3: "run (emit pf st signature_verified completed (?u ?n) tid None) ?v2 = (Inr (), v3)"
    and s3: "stage w ?h (Suc 1) ([] @ [step_type_value signature_verified]) v3"
    by (rule stage_emit [OF s2])
  obtain v4 where r4: "run (emit pf st webhook_received in_progress (?u ?n) tid None) v3 = (Inr (), v4)"
    and s4: "stage w ?h (Suc (Suc 1)) (([] @ [step_type_value signature_verified]) @ [step_type_value webhook_received]) v4"
    by (rule stage_emit [OF s3])
  have s4': "stage w ?h 3 [''signature_verified'', ''webhook_received''] v4"
    using s4 by (simp add: numeral_3_eq_3)
  have "run (process_verified pf st tid p (?u ?n) (extract_event_type hs) (select_whitelist p w) raw hs) v4 = (res, v)"
    using p r1 r2 r3 r4 sig run by (simp add: process_webhook_def validate_signature_def run_and_then Let_def)
  then show ?thesis by (rule run_process_verified_healthy [OF ok s4'])
qed

end
