(* ===== verification/Decision.thy ===== *)
theory Decision
  imports Healthy
begin

text \<open>
  The abstract specification of a webhook request: \<open>decide\<close> computes the answer from the
  tables, the caches and the request alone, with no I/O, no journey events and no caching.
  In a healthy world the pipeline of \<open>services/vcs_gateway.py\<close> refines it, on every branch: it gives
  that answer and appends exactly the rows the answer stands for (\<open>accepted_rows\<close>).
\<close>

section \<open>The specification\<close>

definition secret_of :: "platform \<Rightarrow> uuid \<Rightarrow> world \<Rightarrow> exn + string" where
  "secret_of pf tid w =
     (case (case redis_lookup w (tenant_key tid) of None \<Rightarrow> None
            | Some s \<Rightarrow> Option.bind (json_loads pf (encode s)) none_if_null) of
        Some j \<Rightarrow> cached_secret pf j
      | None \<Rightarrow> (case select_tenant tid w of
            None \<Rightarrow> Inl (tenant_not_found tid)
          | Some t \<Rightarrow> if tn_is_active t then Inr (tn_webhook_secret t) else Inl tenant_inactive))"

definition detection :: "platform \<Rightarrow> string \<Rightarrow> world \<Rightarrow> exn + string option" where
  "detection pf h w =
     (case redis_lookup w (idempotency_key h) of
        Some _ \<Rightarrow> Inr (Some ''redis_cache'')
      | None \<Rightarrow> (case select_by_pr_hash_key h w of
            None \<Rightarrow> Inr None
          | Some r \<Rightarrow> (case validate_inbound pf r of Inl e \<Rightarrow> Inl e | Inr _ \<Rightarrow> Inr (Some ''db_lookup''))))"

definition persist_result ::
    "platform \<Rightarrow> uuid \<Rightarrow> string \<Rightarrow> uuid \<Rightarrow> uuid \<Rightarrow> uuid \<Rightarrow> pull_request_data \<Rightarrow> string \<Rightarrow> bytes \<Rightarrow>
     (string \<times> string) list \<Rightarrow> world \<Rightarrow> exn + uuid \<times> uuid" where
  "persist_result pf tid p cid eid oid pr h raw hs w =
     (case json_loads pf raw of
        None \<Rightarrow> Inl JSONDecodeError
      | Some j \<Rightarrow>
          if \<not> is_dict j then Inl PydanticError
          else if \<not> jsonb_codec pf then Inl (DataError ''expected str, got dict'')
          else (case fit_inbound (inbound_values eid cid tid p pr h j (stored_headers hs)) of
              None \<Rightarrow> Inl (PostgresError ''value not representable'')
            | Some f \<Rightarrow>
                if eid \<in> ie_event_id ` set (w_inbound w) \<or> cid \<in> ie_correlation_id ` set (w_inbound w) \<or>
                   h \<in> hash_keys w \<or> oid \<in> oe_outbox_id ` set (w_outbox w)
                then Inl (already_persisted h) else Inr (eid, oid)))"

text \<open>The UUIDs: the correlation id, and those of the two rows (three events are reported between).\<close>

definition decide ::
    "platform \<Rightarrow> uuid \<Rightarrow> string \<Rightarrow> bytes \<Rightarrow> (string \<times> string) list \<Rightarrow> world \<Rightarrow> exn + webhook_result" where
  "decide pf tid p raw hs w =
     (let n = w_uuids_drawn w; u = w_uuid_source w; cid = u n in
      if p \<notin> supported_providers then Inl (unsupported_provider pf p)
      else case secret_of pf tid w of
        Inl e \<Rightarrow> Inl e
      | Inr s \<Rightarrow> (case signature_valid p raw hs s of
          Inl e \<Rightarrow> Inl e
        | Inr False \<Rightarrow> Inl invalid_signature
        | Inr True \<Rightarrow> (case parse_payload pf p raw of
            Inl e \<Rightarrow> Inl e
          | Inr pr \<Rightarrow>
              let h = hash_key_of p tid pr; et = extract_event_type hs in
              if \<not> is_event_allowed et (pd_action pr) (select_whitelist p w)
              then Inr (WebhookIgnored cid et event_type_not_allowed)
              else (case detection pf h w of
                  Inl e \<Rightarrow> Inl e
                | Inr (Some m) \<Rightarrow> Inr (WebhookDuplicate cid h m)
                | Inr None \<Rightarrow>
                    (case persist_result pf tid p cid (u (n + 4)) (u (n + 5)) pr h raw hs w of
                       Inr (eid, oid) \<Rightarrow> Inr (WebhookAccepted cid eid oid)
                     | Inl e \<Rightarrow> if e = already_persisted h
                                then Inr (WebhookDuplicate cid h ''db_constraint'') else Inl e)))))"

text \<open>The rows that the answer \<open>res\<close> stands for: the webhook and its event, when it was accepted.\<close>

definition accepted_rows ::
    "platform \<Rightarrow> settings \<Rightarrow> uuid \<Rightarrow> string \<Rightarrow> bytes \<Rightarrow> (string \<times> string) list \<Rightarrow> world \<Rightarrow>
     exn + webhook_result \<Rightarrow> (inbound_event \<times> outbox_event) list" where
  "accepted_rows pf st tid p raw hs w res =
     (case res of
        Inr (WebhookAccepted cid eid oid) \<Rightarrow> (case (parse_payload pf p raw, json_loads pf raw) of
            (Inr pr, Some j) \<Rightarrow>
              let h = hash_key_of p tid pr in
              (case fit_inbound (inbound_values eid cid tid p pr h j (stored_headers hs)) of
                 None \<Rightarrow> []
               | Some f \<Rightarrow> [(committed_row (w_db_clock w) f,
                   scheduled_row oid ''vcs.webhook.received'' cid h (payload_of pf eid cid tid (w_app_clock w) p pr h j)
                     (JObj [(''correlation_id'', JStr (uuid_str cid))]) (outbox_debounce_seconds st) (w_db_clock w))])
          | _ \<Rightarrow> [])
      | _ \<Rightarrow> [])"

text \<open>The tables of \<open>v\<close> are those of \<open>w\<close> with these rows appended.\<close>

definition appended :: "world \<Rightarrow> (inbound_event \<times> outbox_event) list \<Rightarrow> world \<Rightarrow> bool" where
  "appended w rows v \<longleftrightarrow>
     w_inbound v = w_inbound w @ map fst rows \<and> w_outbox v = w_outbox w @ map snd rows \<and>
     w_vcs_configs v = w_vcs_configs w \<and> w_tenants v = w_tenants w \<and> w_customers v = w_customers w \<and>
     w_whitelist v = w_whitelist w"

lemma appended_Nil [simp]: "appended w [] v \<longleftrightarrow> same_tables w v"
  by (simp add: appended_def same_tables_def)

lemma appended_same: "same_tables u w \<Longrightarrow> appended w rows v \<Longrightarrow> appended u rows v"
  by (simp add: appended_def same_tables_def)

lemma same_appended: "appended w rows v \<Longrightarrow> same_tables v v' \<Longrightarrow> appended w rows v'"
  by (simp add: appended_def same_tables_def)

lemma accepted_rows_other [simp]:
  "accepted_rows pf st tid p raw hs w (Inl e) = []"
  "accepted_rows pf st tid p raw hs w (Inr (WebhookDuplicate c h m)) = []"
  "accepted_rows pf st tid p raw hs w (Inr (WebhookIgnored c et code)) = []"
  by (simp_all add: accepted_rows_def)

section \<open>Where a request has come to\<close>

definition along :: "world \<Rightarrow> nat \<Rightarrow> world \<Rightarrow> bool" where
  "along w k v \<longleftrightarrow> healthy v \<and> Inv v \<and> same_tables w v \<and> w_uuids_drawn v = w_uuids_drawn w + k \<and>
     w_uuid_source v = w_uuid_source w \<and> w_db_clock v = w_db_clock w \<and> w_app_clock v = w_app_clock w \<and>
     (\<forall>h. redis_lookup v (idempotency_key h) = redis_lookup w (idempotency_key h))"

lemma along_io:
  assumes "along w k v" and "io_step v v'" and "Inv v'" and "w_uuids_drawn v' = w_uuids_drawn v + m"
  shows "along w (k + m) v'"
  using assms io_step_healthy [OF assms(2)] io_step_views(1) [OF assms(2)]
  by (auto simp: along_def io_step_def intro: same_tables_trans)

lemma along_views:
  assumes "along w k v"
  shows "hash_keys v = hash_keys w" "select_whitelist p v = select_whitelist p w"
    "select_by_pr_hash_key h v = select_by_pr_hash_key h w" "w_inbound v = w_inbound w" "w_outbox v = w_outbox w"
    "redis_lookup v (idempotency_key h) = redis_lookup w (idempotency_key h)"
  using assms
  by (simp_all add: along_def same_tables_def hash_keys_def select_whitelist_def select_by_pr_hash_key_def)

lemma along_emit:
  assumes "along w k v"
  obtains v' where "run (emit pf st s t c tid md) v = (Inr (), v')" "along w (Suc k) v'"
proof -
  have "healthy v" "Inv v" using assms by (simp_all add: along_def)
  from run_emit_healthy [OF this(1)] obtain v' where v': "run (emit pf st s t c tid md) v = (Inr (), v')"
    "io_step v v'" "w_uuids_drawn v' = Suc (w_uuids_drawn v)"
    by blast
  moreover have "Inv v'" by (rule run_harmless_Inv [OF harmless_emit \<open>Inv v\<close> v'(1)])
  ultimately show thesis using along_io [OF assms, of v' 1] that by simp
qed

text \<open>A report that ends the request does not change its answer.\<close>

lemma run_report_healthy: "healthy v \<Longrightarrow> fst (run (and_then (emit pf st s t c tid md) (\<lambda>_. ret r)) v) = Inr r"
  by (rule run_emit_healthy [of v pf st s t c tid md]) (simp_all add: run_and_then)

text \<open>Tenant validation.\<close>

text \<open>A step that changes counters only, and the write of the tenant cache.\<close>

lemma along_counters:
  assumes "along w k v" and "io_step v v'" and "w_uuids_drawn v' = w_uuids_drawn v" and "quiet v v'"
  shows "along w k v'"
proof -
  have "Inv v'" using assms(1,4) quiet_step by (simp add: along_def)
  then show ?thesis using along_io [OF assms(1,2), of 0] assms(3) by simp
qed

lemma along_store_tenant:
  assumes v: "along w k v" and inv: "Inv (redis_store (tenant_key tid) ttl x v)"
  shows "along w k (redis_store (tenant_key tid) ttl x v)"
proof -
  have "redis_lookup (redis_store (tenant_key tid) ttl x v) (idempotency_key h) = redis_lookup v (idempotency_key h)" for h
    by (simp add: redis_lookup_store keys_disjoint)
  moreover have "healthy (redis_store (tenant_key tid) ttl x v)" "same_tables v (redis_store (tenant_key tid) ttl x v)"
    using v by (simp_all add: along_def redis_store_def same_tables_def)
  moreover have "w_uuids_drawn (redis_store (tenant_key tid) ttl x v) = w_uuids_drawn v"
    "w_uuid_source (redis_store (tenant_key tid) ttl x v) = w_uuid_source v"
    "w_db_clock (redis_store (tenant_key tid) ttl x v) = w_db_clock v"
    "w_app_clock (redis_store (tenant_key tid) ttl x v) = w_app_clock v"
    by (simp_all add: redis_store_def)
  ultimately show ?thesis using v inv by (auto simp: along_def intro: same_tables_trans)
qed

lemma along_start:
  assumes "healthy w" "Inv w"
  shows "along w 1 (w\<lparr>w_uuids_drawn := Suc (w_uuids_drawn w)\<rparr>)"
  unfolding along_def
proof (intro conjI allI)
  have "quiet w (w\<lparr>w_uuids_drawn := Suc (w_uuids_drawn w)\<rparr>)" by (simp add: quiet_def)
  then show "Inv (w\<lparr>w_uuids_drawn := Suc (w_uuids_drawn w)\<rparr>)" using quiet_step assms(2) by blast
  show "redis_lookup (w\<lparr>w_uuids_drawn := Suc (w_uuids_drawn w)\<rparr>) (idempotency_key h) =
    redis_lookup w (idempotency_key h)" for h by (rule redis_lookup_same) simp_all
qed (use assms in \<open>simp_all add: same_tables_def\<close>)

lemma secret_of_bump: "secret_of pf tid (w\<lparr>w_uuids_drawn := n\<rparr>) = secret_of pf tid w"
proof -
  have look: "redis_lookup (w\<lparr>w_uuids_drawn := n\<rparr>) k = redis_lookup w k" for k by (rule redis_lookup_same) simp_all
  have sel: "select_tenant tid (w\<lparr>w_uuids_drawn := n\<rparr>) = select_tenant tid w" by (simp add: select_tenant_def)
  show ?thesis unfolding secret_of_def look sel by (rule refl)
qed

lemma along_secret:
  assumes v: "along w k v"
  obtains v' where "run (get_webhook_secret pf tid) v = (secret_of pf tid v, v')" "along w k v'"
proof -
  have h: "healthy v" and "Inv v" using v by (simp_all add: along_def)
  obtain r v' where run: "run (get_webhook_secret pf tid) v = (r, v')" by (cases "run (get_webhook_secret pf tid) v")
  have inv: "Inv v'" by (rule run_harmless_Inv [OF harmless_get_webhook_secret \<open>Inv v\<close> run])
  let ?j = "case redis_lookup v (tenant_key tid) of None \<Rightarrow> None
      | Some s \<Rightarrow> Option.bind (json_loads pf (encode s)) none_if_null"
  let ?v1 = "v\<lparr>w_redis_calls := Suc (w_redis_calls v)\<rparr>"
  let ?v2 = "?v1\<lparr>w_db_calls := Suc (w_db_calls v)\<rparr>"
  let ?v3 = "?v2\<lparr>w_redis_calls := Suc (w_redis_calls ?v2)\<rparr>"
  have a1: "along w k ?v1" by (rule along_counters [OF v]) (simp_all add: quiet_def)
  have a2: "along w k ?v2" by (rule along_counters [OF a1]) (simp_all add: quiet_def)
  have a3: "along w k ?v3"
    by (rule along_counters [OF a2]) (simp_all add: quiet_def io_step_def same_tables_def)
  have "r = secret_of pf tid v \<and> along w k v'"
  proof (cases ?j)
    case (Some j)
    then have "run (get_webhook_secret pf tid) v = (secret_of pf tid v, ?v1)"
      using h by (simp add: get_webhook_secret_def run_and_then run_get_tenant_cache_healthy secret_of_def)
    then show ?thesis using run a1 by simp
  next
    case None
    note missed = run_secret_missed [OF h None] run
    show ?thesis
    proof (cases "select_tenant tid v")
      case None
      then show ?thesis using missed \<open>?j = None\<close> a2 by (simp add: secret_of_def Let_def)
    next
      case (Some t)
      show ?thesis
      proof (cases "tn_is_active t")
        case False
        then show ?thesis using missed \<open>?j = None\<close> Some a2 by (simp add: secret_of_def Let_def)
      next
        case True
        then have "r = secret_of pf tid v"
          "v' = redis_store (tenant_key tid) tenant_cache_ttl_seconds (json_dumps pf (dump_tenant t)) ?v3"
          using missed \<open>?j = None\<close> Some by (simp_all add: secret_of_def Let_def)
        then show ?thesis using along_store_tenant [OF a3] inv by simp
      qed
    qed
  qed
  then show thesis using run that [of v'] by simp
qed

text \<open>The whitelist.\<close>

lemma along_whitelist:
  assumes v: "along w k v"
  obtains v' where "run (get_event_whitelist p) v = (Inr (select_whitelist p w), v')" "along w k v'"
proof -
  let ?v = "v\<lparr>w_db_calls := Suc (w_db_calls v)\<rparr>"
  have "healthy v" using v by (simp add: along_def)
  then have "run (get_event_whitelist p) v = (Inr (select_whitelist p w), ?v)"
    by (simp add: run_whitelist_healthy along_views(2) [OF v])
  moreover have "along w k ?v" by (rule along_counters [OF v]) (simp_all add: quiet_def)
  ultimately show thesis by (rule that)
qed

text \<open>The idempotency check; after a hit only the answer matters.\<close>

lemma along_check:
  assumes v: "along w k v" and nul: "no_nul h"
  obtains v' where "run (check pf ttl h) v = (detection pf h w, v')" "healthy v'" "same_tables w v'"
    "detection pf h w = Inr None \<longrightarrow> along w k v'"
proof -
  have hv: "healthy v" using v by (simp add: along_def)
  let ?v1 = "v\<lparr>w_redis_calls := Suc (w_redis_calls v)\<rparr>"
  let ?v2 = "?v1\<lparr>w_db_calls := Suc (w_db_calls v)\<rparr>"
  have a1: "along w k ?v1" by (rule along_counters [OF v]) (simp_all add: quiet_def)
  have a2: "along w k ?v2" by (rule along_counters [OF a1]) (simp_all add: quiet_def)
  have look: "redis_lookup v (idempotency_key h) = redis_lookup w (idempotency_key h)" by (rule along_views(6) [OF v])
  have same: "same_tables w u" if "run (check pf ttl h) v = (r, u)" for r u
    using read_only_run [OF read_only_check that] v by (auto simp: along_def intro: same_tables_trans)
  show thesis
  proof (cases "redis_lookup w (idempotency_key h)")
    case (Some x)
    then have run: "run (check pf ttl h) v = (detection pf h w, ?v1)"
      using run_check_cached [OF hv, of h] look by (simp add: detection_def)
    show thesis
      by (rule that [OF run _ same [OF run]]) (use Some a1 in \<open>simp_all add: along_def detection_def\<close>)
  next
    case None
    note r = run_check_uncached [OF hv nul, of pf ttl, unfolded look, OF None, unfolded along_views(3) [OF v] Let_def]
    show thesis
    proof (cases "select_by_pr_hash_key h w")
      case None
      then have run: "run (check pf ttl h) v = (detection pf h w, ?v2)"
        using r \<open>redis_lookup w (idempotency_key h) = None\<close> by (simp add: detection_def)
      show thesis by (rule that [OF run _ same [OF run]]) (use a2 in \<open>simp_all add: along_def\<close>)
    next
      case (Some row)
      let ?u = "snd (run (check pf ttl h) v)"
      have eq: "fst (run (check pf ttl h) v) = detection pf h w" "detection pf h w \<noteq> Inr None" "healthy ?u"
        using r \<open>redis_lookup w (idempotency_key h) = None\<close> Some hv
        by (auto simp: detection_def redis_store_def split: sum.split)
      show thesis by (rule that [of ?u]) (use eq same [OF prod.collapse [symmetric]] in \<open>simp_all add: prod_eq_iff\<close>)
    qed
  qed
qed

section \<open>Persisting\<close>

text \<open>What the body of the transaction answers, on every branch.\<close>

definition body_clash :: "world \<Rightarrow> inbound_event \<Rightarrow> bool" where
  "body_clash w v \<longleftrightarrow> ie_event_id v \<in> ie_event_id ` set (w_inbound w) \<or>
     ie_correlation_id v \<in> ie_correlation_id ` set (w_inbound w) \<or> ie_pr_hash_key v \<in> hash_keys w \<or>
     w_uuid_source w (w_uuids_drawn w) \<in> oe_outbox_id ` set (w_outbox w)"

lemma insert_clash:
  assumes "jsonb_codec pf" and "fit_inbound v = Some f" and "ie_processing_status f = ''accepted''"
    and "ie_event_id f \<in> ie_event_id ` set (w_inbound w) \<or>
      ie_correlation_id f \<in> ie_correlation_id ` set (w_inbound w) \<or> ie_pr_hash_key f \<in> hash_keys w"
  obtains c where "insert_inbound_stmt pf v w = (Inl (UniqueViolationError c), w)"
proof -
  have "\<exists>c. insert_inbound_stmt pf v w = (Inl (UniqueViolationError c), w)"
    using assms by (simp add: insert_inbound_stmt_def Let_def hash_keys_def) blast
  then show thesis using that by blast
qed

lemma persist_body_answer:
  fixes w :: world and v :: inbound_event and pf :: platform and debounce :: int and pl :: json
  assumes w: "healthy w" "Inv w" and v: "v = inbound_values eid cid tid p pr h (JObj d) (stored_headers hs)"
    and h: "py_len h \<le> 64" and payload: "encodable v \<longrightarrow> jsonb_ok pl"
  defines "B \<equiv> and_then (query (\<lambda>_. ())) (\<lambda>_. persist_body pf debounce v pl)"
  shows "\<not> jsonb_codec pf \<Longrightarrow> fst (run B w) = Inl (DataError ''expected str, got dict'')"
    and "jsonb_codec pf \<Longrightarrow> fit_inbound v = None \<Longrightarrow> fst (run B w) = Inl (PostgresError ''value not representable'')"
    and "jsonb_codec pf \<Longrightarrow> fit_inbound v = Some f \<Longrightarrow> body_clash w v \<Longrightarrow>
      \<exists>c. fst (run B w) = Inl (UniqueViolationError c)"
proof -
  let ?w1 = "w\<lparr>w_db_calls := Suc (w_db_calls w)\<rparr>"
  let ?w2 = "?w1\<lparr>w_db_calls := Suc (w_db_calls ?w1)\<rparr>"
  have B: "run B w = run (persist_body pf debounce v pl) ?w1"
    using w(1) by (simp add: B_def run_and_then run_query_healthy)
  have failed: "fst (run B w) = Inl e" if e: "insert_inbound_stmt pf v ?w2 = (Inl e, ?w2)" for e
  proof -
    have "run (execute (insert_inbound_stmt pf v)) ?w1 = (Inl e, ?w2)"
      using w(1) e by (subst run_execute_healthy) simp_all
    then show ?thesis by (simp add: B persist_body_def insert_inbound_def run_and_then)
  qed
  show "\<not> jsonb_codec pf \<Longrightarrow> fst (run B w) = Inl (DataError ''expected str, got dict'')"
    by (rule failed) (simp add: insert_inbound_stmt_def)
  show "jsonb_codec pf \<Longrightarrow> fit_inbound v = None \<Longrightarrow> fst (run B w) = Inl (PostgresError ''value not representable'')"
    by (rule failed) (simp add: insert_inbound_stmt_def)
  show "\<exists>c. fst (run B w) = Inl (UniqueViolationError c)"
    if codec: "jsonb_codec pf" and f: "fit_inbound v = Some f" and clash: "body_clash w v"
  proof (cases "ie_event_id f \<in> ie_event_id ` set (w_inbound w) \<or>
      ie_correlation_id f \<in> ie_correlation_id ` set (w_inbound w) \<or> ie_pr_hash_key f \<in> hash_keys w")
    case True
    note same = fit_inbound_unchanged [OF f] fit_inbound_short [OF f]
    have "ie_processing_status f = ''accepted''"
      using same by (simp add: v inbound_values_def py_len_def is_continuation_def)
    then obtain c where "insert_inbound_stmt pf v ?w2 = (Inl (UniqueViolationError c), ?w2)"
      using True by (elim insert_clash [OF codec f, of ?w2]) (simp_all add: hash_keys_def)
    then show ?thesis using failed by blast
  next
    case False
    note same = fit_inbound_unchanged [OF f] fit_inbound_short [OF f]
    have key: "ie_pr_hash_key f = h" "ie_processing_status f = ''accepted''"
      using same h by (simp_all add: v inbound_values_def py_len_def is_continuation_def)
    have oid: "w_uuid_source w (w_uuids_drawn w) \<in> oe_outbox_id ` set (w_outbox w)"
      using False clash same key by (auto simp: body_clash_def v inbound_values_def)
    have ins: "run (insert_inbound pf v) ?w1 = (Inr (committed_row (w_db_clock w) f),
      ?w1\<lparr>w_db_calls := Suc (w_db_calls ?w1), w_inbound := w_inbound w @ [committed_row (w_db_clock w) f]\<rparr>)"
      using run_insert_inbound_healthy [of ?w1 pf v f] w codec f key same False
      by (simp add: v inbound_values_def hash_keys_def)
    let ?w3 = "?w1\<lparr>w_db_calls := Suc (w_db_calls ?w1), w_inbound := w_inbound w @ [committed_row (w_db_clock w) f]\<rparr>"
    let ?w4 = "?w3\<lparr>w_db_calls := Suc (w_db_calls ?w3)\<rparr>"
    let ?w5 = "?w4\<lparr>w_db_calls := Suc (w_db_calls ?w4)\<rparr>"
    have "encodable v" by (rule fit_inbound_encodable [OF f])
    then have nul: "no_nul h" "jsonb_ok pl" using payload by (simp_all add: encodable_def v inbound_values_def)
    have cancel: "cancel_previous_stmt h 1 ''superseded_by_newer_version'' ?w4 = (Inr (), ?w4)"
      using w(2) nul(1) by (intro cancel_none [of "w_inbound w"]) (simp_all add: Inv_def tables_ok_def)
    have r1: "run (execute (cancel_previous_stmt h 1 ''superseded_by_newer_version'')) ?w3 = (Inr (), ?w4)"
      using w(1) cancel by (subst run_execute_healthy) simp_all
    have r2: "fst (run (execute (insert_event_stmt et c h 1 pl hd debounce)) ?w4) =
        Inl (UniqueViolationError ''outbox_event_pkey'')"
      if "no_nul et" "jsonb_ok hd" for et c hd
      using w(1) oid h nul that
      by (subst run_execute_healthy) (simp_all add: insert_event_stmt_def fits_int4_def varchar_fits Let_def)
    have ids: "ie_pr_hash_key v = h" by (simp add: v inbound_values_def)
    have "fst (run (schedule_event et c h 1 pl hd debounce) ?w3) = Inl (UniqueViolationError ''outbox_event_pkey'')"
      if "no_nul et" "jsonb_ok hd" for et c hd
      using r2 [OF that] unfolding schedule_event_def run_and_then r1 by (simp split: prod.split sum.split)
    then have "fst (run B w) = Inl (UniqueViolationError ''outbox_event_pkey'')"
      unfolding B persist_body_def run_and_then ins ids by simp
    then show ?thesis by blast
  qed
qed

lemma run_transaction_failed:
  "fst (run (and_then (query (\<lambda>_. ())) (\<lambda>_. body)) w) = Inl e \<Longrightarrow> fst (run (transaction body) w) = Inl e"
  by (cases "run (and_then (query (\<lambda>_. ())) (\<lambda>_. body)) w") (simp add: transaction_def transaction_stmt_def)

text \<open>A transaction that fails in a healthy world is undone.\<close>

lemma transaction_failed_same:
  assumes "healthy w" and "local_prog body" and "run (transaction body) w = (Inl e, v)"
  shows "same_tables w v"
proof -
  obtain r u where r: "run (and_then (query (\<lambda>_. ())) (\<lambda>_. body)) w = (r, u)"
    by (cases "run (and_then (query (\<lambda>_. ())) (\<lambda>_. body)) w")
  have u: "tables_only w u" by (rule local_run [OF local_and_then [OF local_query assms(2)] r])
  have faults: "w_db_faults u n = NoFault" for n using u assms(1) by (simp add: tables_only_def healthy_def)
  show ?thesis
  proof (cases r)
    case (Inl x)
    then have "v = undo_tables w u" using assms(3) r by (simp add: transaction_def transaction_stmt_def)
    then show ?thesis using u by (simp add: same_tables_def undo_tables_def tables_only_def)
  next
    case (Inr a)
    then show ?thesis using assms(3) r faults by (simp add: transaction_def transaction_stmt_def commit_def Let_def)
  qed
qed

lemma persist_failed_same:
  assumes "healthy w" and "run (persist pf st tid p cid pr h raw hs) w = (Inl e, v)"
  shows "same_tables w v"
proof -
  let ?u = "w\<lparr>w_uuids_drawn := Suc (w_uuids_drawn w)\<rparr>" and ?eid = "w_uuid_source w (w_uuids_drawn w)"
  have start: "same_tables w ?u" "healthy ?u" using assms(1) by (simp_all add: same_tables_def)
  show ?thesis
  proof (cases "json_loads pf raw")
    case None
    then show ?thesis using assms(2) start by (simp add: persist_def run_and_then)
  next
    case (Some j)
    let ?b = "persist_body pf (outbox_debounce_seconds st) (inbound_values ?eid cid tid p pr h j (stored_headers hs))
      (dump_webhook_received pf (received_message ?eid cid tid (w_app_clock w) p pr h j))"
    obtain r u where t: "run (transaction ?b) ?u = (r, u)" by (cases "run (transaction ?b) ?u")
    show ?thesis
    proof (cases "is_dict j")
      case False
      then show ?thesis using assms(2) start Some by (simp add: persist_def run_and_then)
    next
      case True
      then obtain e' where "r = Inl e'" "v = u"
        using assms(2) Some t by (cases r) (auto simp: persist_def run_and_then run_on_error split: if_splits)
      then show ?thesis
        using transaction_failed_same [OF start(2) local_persist_body] t start(1) same_tables_trans by blast
    qed
  qed
qed

text \<open>The persister and what the pipeline makes of its outcome, on every branch.\<close>

definition reported :: "uuid \<Rightarrow> string \<Rightarrow> exn + uuid \<times> uuid \<Rightarrow> exn + webhook_result" where
  "reported cid h r = (case r of
       Inr (eid, oid) \<Rightarrow> Inr (WebhookAccepted cid eid oid)
     | Inl e \<Rightarrow> if e = already_persisted h then Inr (WebhookDuplicate cid h ''db_constraint'') else Inl e)"

lemma reported_failed:
  assumes "fst (run (persist pf st tid p cid pr h raw hs) w) = Inl e"
    and "e = already_persisted h \<or> (\<forall>se. e \<noteq> Service se)"
  shows "fst (run (persist_and_report pf st tid p cid pr h raw hs) w) = reported cid h (Inl e)"
  using assms
  by (cases "run (persist pf st tid p cid pr h raw hs) w")
    (auto simp: persist_and_report_def run_attempt reported_def already_persisted_def service_error_def split: exn.split)

lemma run_persist_failed:
  assumes w: "healthy w" "Inv w" and h: "py_len h \<le> 64" and dates: "plain_dates pf"
    and eid: "eid = w_uuid_source w (w_uuids_drawn w)"
    and oid: "oid = w_uuid_source w (Suc (w_uuids_drawn w))"
    and res: "persist_result pf tid p cid eid oid pr h raw hs w = Inl e"
  shows "fst (run (persist pf st tid p cid pr h raw hs) w) = Inl e"
proof (cases "json_loads pf raw")
  case None
  then show ?thesis using res by (simp add: persist_def persist_result_def run_and_then)
next
  case j: (Some j)
  show ?thesis
  proof (cases "is_dict j")
    case False
    then show ?thesis using j res by (simp add: persist_def persist_result_def run_and_then)
  next
    case True
    then obtain d where d: "j = JObj d" by (cases j) auto
    define v where "v = inbound_values eid cid tid p pr h (JObj d) (stored_headers hs)"
    define pl where "pl = dump_webhook_received pf (received_message eid cid tid (w_app_clock w) p pr h (JObj d))"
    let ?w = "w\<lparr>w_uuids_drawn := Suc (w_uuids_drawn w)\<rparr>"
    have inv: "Inv ?w" "healthy ?w" using along_start [OF w] by (simp_all add: along_def)
    have persist: "run (persist pf st tid p cid pr h raw hs) w =
      run (on_error (and_then (transaction (persist_body pf (outbox_debounce_seconds st) v pl)) (\<lambda>oid. ret (eid, oid)))
        (\<lambda>e. if is_unique_violation e then throw (already_persisted h) else throw e)) ?w"
      using j d by (simp add: persist_def run_and_then eid [symmetric] v_def pl_def)
    have payload: "encodable v \<longrightarrow> jsonb_ok pl"
      unfolding v_def pl_def by (intro impI payload_jsonb_ok(2) [OF dates, unfolded payload_of_def])
    note answer = persist_body_answer [OF inv(2,1) v_def h payload, where pf = pf and debounce = "outbox_debounce_seconds st"]
    have fails: "fst (run (persist pf st tid p cid pr h raw hs) w) =
        (if is_unique_violation e' then Inl (already_persisted h) else Inl e')"
      if "fst (run (and_then (query (\<lambda>_. ())) (\<lambda>_. persist_body pf (outbox_debounce_seconds st) v pl)) ?w) = Inl e'" for e'
      using run_transaction_failed [OF that] unfolding persist
      by (cases "run (transaction (persist_body pf (outbox_debounce_seconds st) v pl)) ?w")
        (simp add: run_on_error run_and_then)
    have clash: "eid \<in> ie_event_id ` set (w_inbound w) \<or> cid \<in> ie_correlation_id ` set (w_inbound w) \<or>
        h \<in> hash_keys w \<or> oid \<in> oe_outbox_id ` set (w_outbox w) \<longleftrightarrow> body_clash ?w v"
      by (simp add: body_clash_def v_def inbound_values_def hash_keys_def oid)
    have res': "(if \<not> jsonb_codec pf then Inl (DataError ''expected str, got dict'')
        else case fit_inbound v of None \<Rightarrow> Inl (PostgresError ''value not representable'')
          | Some f \<Rightarrow> if body_clash ?w v then Inl (already_persisted h) else Inr (eid, oid)) = Inl e"
      using res unfolding persist_result_def j d clash unfolding v_def by simp
    show ?thesis
    proof (cases "jsonb_codec pf")
      case False
      then show ?thesis using res' fails [OF answer(1)] by auto
    next
      case codec: True
      show ?thesis
      proof (cases "fit_inbound v")
        case None
        then show ?thesis using codec res' fails [OF answer(2)] by auto
      next
        case (Some f)
        then have "body_clash ?w v" "e = already_persisted h" using codec res' by (auto split: if_splits)
        then show ?thesis using answer(3) [OF codec Some] fails by fastforce
      qed
    qed
  qed
qed

lemma run_persist_and_report_answer:
  fixes st :: settings and cid :: uuid and hs :: "(string \<times> string) list"
  assumes w: "healthy w" "Inv w" and pr: "parse_payload pf p raw = Inr pr" "h = hash_key_of p tid pr"
    and dates: "plain_dates pf"
    and eid: "eid = w_uuid_source w (w_uuids_drawn w)"
    and oid: "oid = w_uuid_source w (Suc (w_uuids_drawn w))"
  defines "q \<equiv> persist_and_report pf st tid p cid pr h raw hs"
    and "res \<equiv> persist_result pf tid p cid eid oid pr h raw hs w"
  shows "fst (run q w) = reported cid h res"
    and "appended w (accepted_rows pf st tid p raw hs w (reported cid h res)) (snd (run q w))"
proof -
  have h: "py_len h \<le> 64" by (simp add: pr(2) py_len_hash_key)
  have "fst (run q w) = reported cid h res \<and>
    appended w (accepted_rows pf st tid p raw hs w (reported cid h res)) (snd (run q w))"
  proof (cases res)
    case (Inl e)
    have e: "e = already_persisted h \<or> (\<forall>se. e \<noteq> Service se)"
      using Inl by (auto simp: res_def persist_result_def split: option.splits if_splits)
    have failed: "fst (run (persist pf st tid p cid pr h raw hs) w) = Inl e"
      by (rule run_persist_failed [OF w h dates eid oid Inl [unfolded res_def]])
    then obtain v where v: "run (persist pf st tid p cid pr h raw hs) w = (Inl e, v)" "same_tables w v"
      using persist_failed_same [OF w(1)] by (metis prod.collapse)
    have "snd (run q w) = v"
      using v(1) e by (auto simp: q_def persist_and_report_def run_attempt already_persisted_def service_error_def
          split: exn.split)
    then show ?thesis
      using v(2) Inl reported_failed [OF failed e] by (auto simp: q_def reported_def)
  next
    case (Inr r)
    then obtain d f where ok: "json_loads pf raw = Some (JObj d)" "jsonb_codec pf" "r = (eid, oid)"
      "h \<notin> hash_keys w" "storable w (inbound_values eid cid tid p pr h (JObj d) (stored_headers hs)) f oid"
      by (auto simp: res_def persist_result_def storable_def inbound_values_def split: option.splits if_splits
          elim!: is_dict.elims)
    obtain n where run: "run (persist pf st tid p cid pr h raw hs) w = (Inr (eid, oid),
      w\<lparr>w_db_calls := n, w_uuids_drawn := Suc (Suc (w_uuids_drawn w)),
        w_inbound := w_inbound w @ [committed_row (w_db_clock w) f],
        w_outbox := w_outbox w @ [scheduled_row oid ''vcs.webhook.received'' cid h
          (payload_of pf eid cid tid (w_app_clock w) p pr h (JObj d))
          (JObj [(''correlation_id'', JStr (uuid_str cid))]) (outbox_debounce_seconds st) (w_db_clock w)]\<rparr>)"
      (is "_ = (_, ?w)")
      using run_persist_healthy [OF w ok(1,2) h ok(4) eid oid refl ok(5) dates] by blast
    let ?m = "run (mark_processed (redis_idempotency_ttl_seconds st) h) ?w"
    have m: "fst ?m = Inr ()" "healthy (snd ?m)" "same_tables ?w (snd ?m)"
      using w(1) by (auto simp: mark_processed_def set_idempotency_cache_def suppress_def run_except_exception
          redis_setex_def served_healthy is_exception_def redis_store_def same_tables_def)
    obtain v where v: "?m = (Inr (), v)" "healthy v" "same_tables ?w v" using m by (cases ?m) auto
    let ?k = "and_then (emit pf st outbox_scheduled completed cid tid
      (Some [(''outbox_id'', JStr (uuid_str oid)), (''pr_hash_key'', JStr h)])) (\<lambda>_. ret (WebhookAccepted cid eid oid))"
    have q: "run q w = run ?k v"
      by (simp add: q_def persist_and_report_def run_attempt run run_and_then [of "mark_processed t h" for t h] v(1))
    have "read_only ?k" by (intro read_only_intros)
    then have "same_tables v (snd (run q w))" unfolding q by (simp add: read_only_def)
    moreover have "appended w (accepted_rows pf st tid p raw hs w (Inr (WebhookAccepted cid eid oid))) ?w"
      using pr ok(1,5) by (simp add: appended_def accepted_rows_def storable_def Let_def)
    ultimately have "appended w (accepted_rows pf st tid p raw hs w (Inr (WebhookAccepted cid eid oid))) (snd (run q w))"
      using v(3) same_appended same_tables_trans by blast
    moreover have "fst (run q w) = Inr (WebhookAccepted cid eid oid)"
      unfolding q by (rule run_report_healthy [OF v(2)])
    ultimately show ?thesis using Inr ok(3) by (simp add: reported_def)
  qed
  then show "fst (run q w) = reported cid h res"
    "appended w (accepted_rows pf st tid p raw hs w (reported cid h res)) (snd (run q w))" by simp_all
qed

section \<open>The pipeline refines its specification\<close>

text \<open>A run that began in \<open>w\<close> gives the answer \<open>res\<close> and appends the rows that it stands for.\<close>

definition answers ::
    "platform \<Rightarrow> settings \<Rightarrow> uuid \<Rightarrow> string \<Rightarrow> bytes \<Rightarrow> (string \<times> string) list \<Rightarrow> world \<Rightarrow>
     exn + webhook_result \<Rightarrow> (exn + webhook_result) \<times> world \<Rightarrow> bool" where
  "answers pf st tid p raw hs w res out \<longleftrightarrow>
     fst out = res \<and> appended w (accepted_rows pf st tid p raw hs w res) (snd out)"

lemma answers_error: "same_tables w v \<Longrightarrow> answers pf st tid p raw hs w (Inl e) (Inl e, v)"
  by (simp add: answers_def)

lemma answers_report:
  assumes "healthy v" and "same_tables w v" and "accepted_rows pf st tid p raw hs w (Inr r) = []"
  shows "answers pf st tid p raw hs w (Inr r) (run (and_then (emit pf st s t c tid md) (\<lambda>_. ret r)) v)"
proof -
  have "read_only (and_then (emit pf st s t c tid md) (\<lambda>_. ret r))" by (intro read_only_intros)
  then have "same_tables v (snd (run (and_then (emit pf st s t c tid md) (\<lambda>_. ret r)) v))"
    by (simp add: read_only_def)
  then show ?thesis
    using assms(2,3) run_report_healthy [OF assms(1)] same_tables_trans by (simp add: answers_def)
qed

lemma persist_result_along:
  assumes "along w k v"
  shows "persist_result pf tid p cid eid oid pr h raw hs v = persist_result pf tid p cid eid oid pr h raw hs w"
  using along_views(1,4,5) [OF assms] by (simp add: persist_result_def)

lemma answers_along:
  assumes "along w k v" and "answers pf st tid p raw hs v res out"
  shows "answers pf st tid p raw hs w res out"
proof -
  have v: "w_db_clock v = w_db_clock w" "w_app_clock v = w_app_clock w" "same_tables w v"
    using assms(1) by (simp_all add: along_def)
  have "accepted_rows pf st tid p raw hs v = accepted_rows pf st tid p raw hs w"
    unfolding fun_eq_iff accepted_rows_def v(1,2) by (intro allI refl)
  then show ?thesis using assms(2) appended_same [OF v(3)] by (simp add: answers_def)
qed

definition decide_verified ::
    "platform \<Rightarrow> uuid \<Rightarrow> string \<Rightarrow> bytes \<Rightarrow> (string \<times> string) list \<Rightarrow> world \<Rightarrow> exn + webhook_result" where
  "decide_verified pf tid p raw hs w =
     (let n = w_uuids_drawn w; u = w_uuid_source w; cid = u n in
      case parse_payload pf p raw of
        Inl e \<Rightarrow> Inl e
      | Inr pr \<Rightarrow>
          let h = hash_key_of p tid pr; et = extract_event_type hs in
          if \<not> is_event_allowed et (pd_action pr) (select_whitelist p w)
          then Inr (WebhookIgnored cid et event_type_not_allowed)
          else (case detection pf h w of
              Inl e \<Rightarrow> Inl e
            | Inr (Some m) \<Rightarrow> Inr (WebhookDuplicate cid h m)
            | Inr None \<Rightarrow> reported cid h (persist_result pf tid p cid (u (n + 4)) (u (n + 5)) pr h raw hs w)))"

lemma run_process_verified_answer:
  assumes v: "along w 3 v"
    and dates: "\<And>pr. parse_payload pf p raw = Inr pr \<Longrightarrow> detection pf (hash_key_of p tid pr) w = Inr None \<Longrightarrow> plain_dates pf"
  shows "answers pf st tid p raw hs w (decide_verified pf tid p raw hs w)
    (run (process_verified pf st tid p (w_uuid_source w (w_uuids_drawn w)) (extract_event_type hs)
      (select_whitelist p w) raw hs) v)"
proof (cases "parse_payload pf p raw")
  case (Inl e)
  then show ?thesis using v by (simp add: process_verified_def decide_verified_def run_and_then Let_def answers_def along_def)
next
  case parse: (Inr pr)
  let ?n = "w_uuids_drawn w" and ?u = "w_uuid_source w" and ?h = "hash_key_of p tid pr"
  have hv: "healthy v" "same_tables w v" using v by (simp_all add: along_def)
  show ?thesis
  proof (cases "is_event_allowed (extract_event_type hs) (pd_action pr) (select_whitelist p w)")
    case False
    then show ?thesis
      using parse answers_report [OF hv]
      by (simp add: process_verified_def decide_verified_def run_and_then [of "Done r" for r] Let_def)
  next
    case allowed: True
    obtain v1 where r1: "run (check pf (redis_idempotency_ttl_seconds st) ?h) v = (detection pf ?h w, v1)" "healthy v1" "same_tables w v1"
      and a1: "detection pf ?h w = Inr None \<longrightarrow> along w 3 v1"
      by (rule along_check [OF v no_nul_hash_key, of pf "redis_idempotency_ttl_seconds st"])
    have step: "run (process_verified pf st tid p (?u ?n) (extract_event_type hs) (select_whitelist p w) raw hs) v =
      (case detection pf ?h w of Inl e \<Rightarrow> (Inl e, v1)
        | Inr (Some m) \<Rightarrow> run (and_then (emit pf st idempotency_checked info (?u ?n) tid
              (Some [(''detection_method'', JStr m)])) (\<lambda>_. ret (WebhookDuplicate (?u ?n) ?h m))) v1
        | Inr None \<Rightarrow> run (and_then (emit pf st idempotency_checked completed (?u ?n) tid None)
              (\<lambda>_. persist_and_report pf st tid p (?u ?n) pr ?h raw hs)) v1)"
      using parse allowed r1(1)
      by (simp add: process_verified_def run_and_then [of "Done r" for r] run_and_then [of "check q t g" for q t g]
          Let_def split: sum.split option.split)
    show ?thesis
    proof (cases "detection pf ?h w")
      case (Inl e)
      then show ?thesis using parse allowed step answers_error [OF r1(3)] by (simp add: decide_verified_def Let_def)
    next
      case found: (Inr m)
      show ?thesis
      proof (cases m)
        case (Some m')
        then show ?thesis
          using parse allowed step found answers_report [OF r1(2,3)] by (simp add: decide_verified_def Let_def)
      next
        case None
        have a: "along w 3 v1" using a1 found None by simp
        obtain v2 where r2: "run (emit pf st idempotency_checked completed (?u ?n) tid None) v1 = (Inr (), v2)"
          and a2: "along w (Suc 3) v2"
          by (rule along_emit [OF a])
        have two: "healthy v2" "Inv v2" "w_uuids_drawn v2 = ?n + 4" "w_uuid_source v2 = ?u"
          using a2 by (simp_all add: along_def)
        have eid: "?u (?n + 4) = w_uuid_source v2 (w_uuids_drawn v2)" "?u (?n + 5) = w_uuid_source v2 (Suc (w_uuids_drawn v2))"
          using two by (simp_all add: ac_simps)
        note persisted = run_persist_and_report_answer
          [OF two(1,2) parse refl dates [OF parse found [unfolded None]] eid, unfolded persist_result_along [OF a2]]
        have "answers pf st tid p raw hs v2
            (reported (?u ?n) ?h (persist_result pf tid p (?u ?n) (?u (?n + 4)) (?u (?n + 5)) pr ?h raw hs w))
            (run (persist_and_report pf st tid p (?u ?n) pr ?h raw hs) v2)"
          using persisted by (simp add: answers_def)
        from answers_along [OF a2 this] show ?thesis
          using parse allowed step found None r2
          by (simp add: decide_verified_def Let_def run_and_then [of "emit a b c d e f g" for a b c d e f g])
      qed
    qed
  qed
qed

lemma decide_unfold:
  "decide pf tid p raw hs w =
    (if p \<notin> supported_providers then Inl (unsupported_provider pf p)
     else case secret_of pf tid w of
       Inl e \<Rightarrow> Inl e
     | Inr s \<Rightarrow> (case signature_valid p raw hs s of
         Inl e \<Rightarrow> Inl e
       | Inr False \<Rightarrow> Inl invalid_signature
       | Inr True \<Rightarrow> decide_verified pf tid p raw hs w))"
  by (auto simp: decide_def decide_verified_def reported_def Let_def split: sum.split bool.split option.split)

lemma run_process_webhook_answer:
  assumes w: "healthy w" "Inv w"
    and dates: "\<And>pr. parse_payload pf p raw = Inr pr \<Longrightarrow> detection pf (hash_key_of p tid pr) w = Inr None \<Longrightarrow> plain_dates pf"
  shows "answers pf st tid p raw hs w (decide pf tid p raw hs w) (run (process_webhook pf st tid p raw hs) w)"
proof (cases "p \<in> supported_providers")
  case False
  then show ?thesis by (simp add: process_webhook_def decide_def run_and_then Let_def answers_def same_tables_def)
next
  case p: True
  let ?n = "w_uuids_drawn w" and ?u = "w_uuid_source w"
  let ?w = "w\<lparr>w_uuids_drawn := Suc ?n\<rparr>"
  have a0: "along w 1 ?w" by (rule along_start [OF w])
  obtain v1 where r1: "run (get_webhook_secret pf tid) ?w = (secret_of pf tid w, v1)" and a1: "along w 1 v1"
    using along_secret [OF a0, of pf tid] unfolding secret_of_bump by blast
  show ?thesis
  proof (cases "secret_of pf tid w")
    case (Inl e)
    then show ?thesis
      using p r1 answers_error [of w v1] a1 by (simp add: process_webhook_def decide_unfold run_and_then Let_def along_def)
  next
    case s: (Inr s)
    obtain v2 where r2: "run (get_event_whitelist p) v1 = (Inr (select_whitelist p w), v2)" and a2: "along w 1 v2"
      by (rule along_whitelist [OF a1])
    show ?thesis
    proof (cases "signature_valid p raw hs s")
      case (Inl e)
      then show ?thesis
        using p r1 r2 s answers_error [of w v2] a2
        by (simp add: process_webhook_def validate_signature_def decide_unfold run_and_then Let_def along_def)
    next
      case b: (Inr b)
      obtain v3 where r3: "run (emit pf st signature_verified (if b then completed else failed) (?u ?n) tid None) v2 = (Inr (), v3)"
        and a3: "along w (Suc 1) v3"
        by (rule along_emit [OF a2])
      show ?thesis
      proof (cases b)
        case False
        then show ?thesis
          using p r1 r2 r3 s b answers_error [of w v3] a3
          by (simp add: process_webhook_def validate_signature_def decide_unfold run_and_then Let_def along_def)
      next
        case True
        obtain v4 where r4: "run (emit pf st webhook_received in_progress (?u ?n) tid None) v3 = (Inr (), v4)"
          and a4: "along w (Suc (Suc 1)) v4"
          by (rule along_emit [OF a3])
        have "along w 3 v4" using a4 by (simp add: numeral_3_eq_3)
        note answer = run_process_verified_answer [OF this dates]
        have "run (process_webhook pf st tid p raw hs) w =
          run (process_verified pf st tid p (?u ?n) (extract_event_type hs) (select_whitelist p w) raw hs) v4"
          using p r1 r2 r3 r4 s b True
          by (simp add: process_webhook_def validate_signature_def run_and_then Let_def)
        then show ?thesis using answer p s b True by (simp add: decide_unfold)
      qed
    qed
  qed
qed

lemma process_webhook_answer:
  assumes "healthy w" "Inv w"
    and "\<And>pr. parse_payload pf p raw = Inr pr \<Longrightarrow> detection pf (hash_key_of p tid pr) w = Inr None \<Longrightarrow> plain_dates pf"
  shows "fst (run (process_webhook pf st tid p raw hs) w) = decide pf tid p raw hs w"
  using run_process_webhook_answer [OF assms] by (simp add: answers_def)

text \<open>A stored key is detected.\<close>

lemma detection_of_stored:
  assumes inv: "Inv w" and codec: "jsonb_codec pf" and key: "h \<in> hash_keys w"
  obtains m where "detection pf h w = Inr (Some m)" "m \<in> {''redis_cache'', ''db_lookup''}"
proof (cases "redis_lookup w (idempotency_key h)")
  case (Some v)
  then show thesis by (intro that [of "''redis_cache''"]) (simp_all add: detection_def)
next
  case None
  obtain r where r: "select_by_pr_hash_key h w = Some r" using key select_by_pr_hash_key_iff [of h w] by blast
  have "r \<in> set (w_inbound w)" using r by (auto simp: select_by_pr_hash_key_def find_Some_iff)
  then have "inbound_ok r" using inv by (simp add: Inv_def tables_ok_def list_all_iff)
  then have "validate_inbound pf r = Inr r" using codec by (auto simp: inbound_ok_def validate_inbound_def)
  then show thesis using None r by (intro that [of "''db_lookup''"]) (simp_all add: detection_def)
qed

end
