(* ===== verification/Dispatch.thy ===== *)
theory Dispatch
  imports Decision
begin

text \<open>
  What the outbox publisher (\<open>OutboxPublisher\<close> in \<open>src/vcs_gateway/db/outbox.py\<close>) does with a
  batch: without faults, when the broker fails, and when an error escapes.
\<close>

section \<open>Statements of the dispatch transaction\<close>

lemma set_tx_again [simp]: "set_tx p x (set_tx p y w) = set_tx p x w"
  by (simp add: set_tx_def)

lemma set_tx_fields [simp]:
  "w_published (set_tx p x w) = w_published w" "w_outbox (set_tx p x w) = w_outbox w"
  "w_inbound (set_tx p x w) = w_inbound w" "w_open_channels (set_tx p x w) = w_open_channels w"
  "w_db_clock (set_tx p x w) = w_db_clock w" "w_app_clock (set_tx p x w) = w_app_clock w"
  "w_publishers (set_tx p x w) = w_publishers w" "healthy (set_tx p x w) = healthy w"
  "w_next_channel (set_tx p x w) = w_next_channel w"
  "w_amqp_faults (set_tx p x w) = w_amqp_faults w" "w_amqp_calls (set_tx p x w) = w_amqp_calls w"
  by (simp_all add: set_tx_def healthy_def)

text \<open>A publisher inside a transaction that is not aborted; \<open>ws\<close> are its writes so far.\<close>

definition dispatching :: "nat \<Rightarrow> tx \<Rightarrow> world \<Rightarrow> bool" where
  "dispatching p x w \<longleftrightarrow> tx_of w p = Some x \<and> \<not> tx_aborted x \<and> w_db_faults w = (\<lambda>_. NoFault)"

lemma run_tx_stmt:
  assumes "dispatching p x w" and "f x (w\<lparr>w_db_calls := Suc (w_db_calls w)\<rparr>) = (Inr a, x')"
  shows "run (atomic (tx_stmt p f)) w = (Inr a, set_tx p x' (w\<lparr>w_db_calls := Suc (w_db_calls w)\<rparr>))"
  using assms by (simp add: dispatching_def tx_stmt_def Let_def tx_of_def)

lemma dispatching_step:
  "dispatching p x w \<Longrightarrow> \<not> tx_aborted x' \<Longrightarrow>
     dispatching p x' (set_tx p x' (w\<lparr>w_db_calls := n\<rparr>))"
  by (simp add: dispatching_def set_tx_def tx_of_def)

lemma dispatching_other [simp]:
  "dispatching p x (w\<lparr>w_amqp_calls := n\<rparr>) = dispatching p x w" "dispatching p x (w\<lparr>w_published := ms\<rparr>) = dispatching p x w"
  "dispatching p x (w\<lparr>w_publishers := ps\<rparr>) = dispatching p x w" "dispatching p x (w\<lparr>w_db_calls := n\<rparr>) = dispatching p x w"
  "dispatching p x (w\<lparr>w_open_channels := cs\<rparr>) = dispatching p x w" "dispatching p x (w\<lparr>w_next_channel := n\<rparr>) = dispatching p x w"
  by (simp_all add: dispatching_def tx_of_def)

section \<open>One row\<close>

definition row_message :: "string \<Rightarrow> outbox_event \<Rightarrow> broker_message" where
  "row_message name r =
     \<lparr>bm_exchange = name, bm_routing_key = oe_event_type r, bm_body = oe_payload r,
      bm_content_type = ''application/json'',
      bm_headers = (case oe_headers r of JObj d \<Rightarrow> d | _ \<Rightarrow> [])\<rparr>"

text \<open>What a row's processing leaves alone.\<close>

definition beside :: "world \<Rightarrow> world \<Rightarrow> bool" where
  "beside w w' \<longleftrightarrow> w_outbox w' = w_outbox w \<and> w_inbound w' = w_inbound w \<and> w_open_channels w' = w_open_channels w \<and>
     w_db_faults w' = w_db_faults w \<and> w_amqp_faults w' = w_amqp_faults w \<and> w_redis_faults w' = w_redis_faults w \<and>
     w_app_clock w' = w_app_clock w \<and> w_db_clock w' = w_db_clock w"

lemma beside_refl [simp]: "beside w w"
  by (simp add: beside_def)

lemma beside_trans: "beside u v \<Longrightarrow> beside v w \<Longrightarrow> beside u w"
  by (simp add: beside_def)

lemma beside_simps [simp]:
  "beside w (set_tx p x w') = beside w w'" "beside w (w'\<lparr>w_db_calls := n\<rparr>) = beside w w'"
  "beside w (w'\<lparr>w_amqp_calls := n\<rparr>) = beside w w'" "beside w (w'\<lparr>w_published := ms\<rparr>) = beside w w'"
  "beside w (w'\<lparr>w_publishers := ps\<rparr>) = beside w w'"
  by (simp_all add: beside_def set_tx_def)

text \<open>A statement of the transaction: besides the transaction only the call counter changes.\<close>

lemma tx_step:
  assumes x: "dispatching p x w" and f: "f x (w\<lparr>w_db_calls := Suc (w_db_calls w)\<rparr>) = (Inr a, x')" and "\<not> tx_aborted x'"
  obtains v where "run (atomic (tx_stmt p f)) w = (Inr a, v)" "dispatching p x' v" "beside w v"
    "w_published v = w_published w" "w_publishers v = w_publishers w"
  using run_tx_stmt [of p x w f a x', OF x f] dispatching_step [OF x assms(3)]
  by (rule that) simp_all

lemma publish_step:
  assumes "dispatching p x w" and "w_amqp_faults w = (\<lambda>_. NoFault)" "fst ex \<in> set (w_open_channels w)"
    and "oe_headers r = JObj d"
  obtains v where "run (exchange_publish ex (oe_event_type r) (oe_payload r) d) w = (Inr (), v)" "dispatching p x v" "beside w v"
    "w_published v = w_published w @ [row_message (snd ex) r]" "w_publishers v = w_publishers w"
proof -
  let ?v = "w\<lparr>w_amqp_calls := Suc (w_amqp_calls w), w_published := w_published w @ [row_message (snd ex) r]\<rparr>"
  have "run (exchange_publish ex (oe_event_type r) (oe_payload r) d) w = (Inr (), ?v)"
    using assms by (simp add: exchange_publish_def amqp_call_def row_message_def)
  then show thesis by (rule that) (use assms(1) in simp_all)
qed

lemma run_process_row_healthy:
  assumes x: "dispatching p x w" and amqp: "w_amqp_faults w = (\<lambda>_. NoFault)" "fst ex \<in> set (w_open_channels w)"
    and hd: "oe_headers r = JObj d"
  obtains v where "run (process_row pf p ex r) w = (Inr (), v)" "beside w v"
    "dispatching p (x\<lparr>tx_writes := tx_writes x @ [(oe_outbox_id r, MarkDispatched (tx_now x))]\<rparr>) v"
    "w_published v = w_published w @ [row_message (snd ex) r]" "w_publishers v = w_publishers w"
proof -
  let ?x = "x\<lparr>tx_writes := tx_writes x @ [(oe_outbox_id r, MarkDispatched (tx_now x))]\<rparr>"
  have na: "\<not> tx_aborted x" "\<not> tx_aborted ?x" using x by (simp_all add: dispatching_def)
  obtain w1 where w1: "run (savepoint p) w = (Inr (length (tx_writes x)), w1)" "dispatching p x w1" "beside w w1"
    "w_published w1 = w_published w" "w_publishers w1 = w_publishers w"
    unfolding savepoint_def by (rule tx_step [OF x _ na(1)]) (rule refl)
  have amqp1: "w_amqp_faults w1 = (\<lambda>_. NoFault)" "fst ex \<in> set (w_open_channels w1)"
    using w1(3) amqp by (simp_all add: beside_def)
  obtain w2 where w2: "run (exchange_publish ex (oe_event_type r) (oe_payload r) d) w1 = (Inr (), w2)"
    "dispatching p x w2" "beside w1 w2"
    "w_published w2 = w_published w1 @ [row_message (snd ex) r]" "w_publishers w2 = w_publishers w1"
    by (rule publish_step [OF w1(2) amqp1 hd])
  obtain w3 where w3: "run (mark_dispatched p (oe_outbox_id r)) w2 = (Inr (), w3)" "dispatching p ?x w3" "beside w2 w3"
    "w_published w3 = w_published w2" "w_publishers w3 = w_publishers w2"
    unfolding mark_dispatched_def mark_def by (rule tx_step [OF w2(2) _ na(2)]) (rule refl)
  obtain w4 where w4: "run (release_savepoint p) w3 = (Inr (), w4)" "dispatching p ?x w4" "beside w3 w4"
    "w_published w4 = w_published w3" "w_publishers w4 = w_publishers w3"
    unfolding release_savepoint_def by (rule tx_step [OF w3(2) _ na(2)]) (rule refl)
  have "run (process_row pf p ex r) w = (Inr (), w4)"
    by (simp add: process_row_def in_savepoint_def run_and_then run_attempt run_except_exception publish_row_def hd
        w1(1) w2(1) w3(1) w4(1))
  moreover have "beside w w4" using w1(3) w2(3) w3(3) w4(3) beside_trans by blast
  ultimately show thesis using that w4 w3 w2 w1 by simp
qed

text \<open>The rows of a batch, in order.\<close>

lemma run_rows_healthy:
  assumes "dispatching p x w" and "w_amqp_faults w = (\<lambda>_. NoFault)" "fst ex \<in> set (w_open_channels w)"
    and "\<And>r. r \<in> set rows \<Longrightarrow> \<exists>d. oe_headers r = JObj d"
  shows "\<exists>v. run (for_each rows (process_row pf p ex)) w = (Inr (), v) \<and> beside w v \<and>
    dispatching p (x\<lparr>tx_writes := tx_writes x @ map (\<lambda>r. (oe_outbox_id r, MarkDispatched (tx_now x))) rows\<rparr>) v \<and>
    w_published v = w_published w @ map (row_message (snd ex)) rows \<and> w_publishers v = w_publishers w"
  using assms
proof (induction rows arbitrary: w x)
  case Nil
  then show ?case by simp
next
  case (Cons r rows)
  obtain d where hd: "oe_headers r = JObj d" using Cons.prems(4) [of r] by auto
  let ?x = "x\<lparr>tx_writes := tx_writes x @ [(oe_outbox_id r, MarkDispatched (tx_now x))]\<rparr>"
  obtain u where u: "run (process_row pf p ex r) w = (Inr (), u)" "beside w u" "dispatching p ?x u"
    "w_published u = w_published w @ [row_message (snd ex) r]" "w_publishers u = w_publishers w"
    by (rule run_process_row_healthy [OF Cons.prems(1,2,3) hd])
  have "w_amqp_faults u = (\<lambda>_. NoFault)" "fst ex \<in> set (w_open_channels u)"
    using u(2) Cons.prems(2,3) by (simp_all add: beside_def)
  from Cons.IH [OF u(3) this] Cons.prems(4) obtain v where v:
    "run (for_each rows (process_row pf p ex)) u = (Inr (), v)" "beside u v"
    "dispatching p (?x\<lparr>tx_writes := tx_writes ?x @ map (\<lambda>r. (oe_outbox_id r, MarkDispatched (tx_now ?x))) rows\<rparr>) v"
    "w_published v = w_published u @ map (row_message (snd ex)) rows" "w_publishers v = w_publishers u"
    by auto
  then show ?case
    using u beside_trans [OF u(2) v(2)] by (intro exI [of _ v]) (simp add: run_and_then)
qed

section \<open>A batch without faults\<close>

text \<open>The channel that a publisher holds is closed, or its exchange is the one it publishes to.\<close>

definition exchange_ready :: "nat \<Rightarrow> string \<Rightarrow> world \<Rightarrow> bool" where
  "exchange_ready p name w \<longleftrightarrow> (channel_usable (w_publishers w p) (w_open_channels w) \<longrightarrow>
     (\<exists>c. ps_channel (w_publishers w p) = Some c \<and> ps_exchange (w_publishers w p) = Some (c, name)))"

lemma run_cached_exchange_healthy:
  assumes amqp: "w_amqp_faults w = (\<lambda>_. NoFault)" and ready: "exchange_ready p name w" and x: "dispatching p x w"
  obtains c v where "run (cached_exchange p name) w = (Inr (c, name), v)" "c \<in> set (w_open_channels v)"
    "dispatching p x v" "w_outbox v = w_outbox w" "w_inbound v = w_inbound w" "w_published v = w_published w"
    "w_amqp_faults v = w_amqp_faults w" "w_publishers v p = \<lparr>ps_channel = Some c, ps_exchange = Some (c, name)\<rparr>"
proof (cases "channel_usable (w_publishers w p) (w_open_channels w)")
  case True
  obtain c where c: "ps_channel (w_publishers w p) = Some c" "ps_exchange (w_publishers w p) = Some (c, name)"
    using ready True by (auto simp: exchange_ready_def)
  moreover have "c \<in> set (w_open_channels w)" using True c by (simp add: channel_usable_def)
  moreover have "run (cached_exchange p name) w = (Inr (c, name), w)"
    using True c by (simp add: cached_exchange_def run_and_then get_publisher_def)
  moreover have "w_publishers w p = \<lparr>ps_channel = Some c, ps_exchange = Some (c, name)\<rparr>" using c by simp
  ultimately show thesis using that x by blast
next
  case False
  let ?c = "w_next_channel w"
  let ?w1 = "w\<lparr>w_amqp_calls := Suc (w_amqp_calls w), w_open_channels := ?c # w_open_channels w, w_next_channel := Suc ?c\<rparr>"
  let ?w2 = "?w1\<lparr>w_publishers := (w_publishers w)(p := (w_publishers w p)\<lparr>ps_channel := Some ?c\<rparr>)\<rparr>"
  let ?w3 = "?w2\<lparr>w_amqp_calls := Suc (w_amqp_calls ?w2)\<rparr>"
  let ?v = "?w3\<lparr>w_publishers := (w_publishers ?w3)(p := \<lparr>ps_channel = Some ?c, ps_exchange = Some (?c, name)\<rparr>)\<rparr>"
  have "run (cached_exchange p name) w = (Inr (?c, name), ?v)"
    using False amqp
    by (simp add: cached_exchange_def run_and_then get_publisher_def set_publisher_def open_channel_def get_exchange_def
        amqp_call_def)
  then show thesis by (rule that) (use x in simp_all)
qed

lemma apply_dispatched:
  assumes ids: "distinct (map oe_outbox_id outbox)" and sub: "set rows \<subseteq> set outbox" and rows: "distinct (map oe_outbox_id rows)"
    and r: "r \<in> set outbox"
  shows "apply_writes (map (\<lambda>r. (oe_outbox_id r, MarkDispatched now)) rows) r =
    (if r \<in> set rows then r\<lparr>oe_status := DISPATCHED, oe_published_at := Some now\<rparr> else r)"
proof -
  let ?ws = "map (\<lambda>r. (oe_outbox_id r, MarkDispatched now)) rows"
  have d: "distinct (map fst ?ws)" using rows by (simp add: comp_def)
  show ?thesis
  proof (cases "r \<in> set rows")
    case True
    then have "apply_writes ?ws r = apply_write (MarkDispatched now) r"
      by (intro apply_writes_written [OF d]) auto
    then show ?thesis using True by simp
  next
    case False
    have "oe_outbox_id r \<notin> oe_outbox_id ` set rows"
      using False ids sub r by (auto simp: distinct_map dest: inj_onD)
    then show ?thesis using False apply_writes_unwritten [of r ?ws] by (simp add: image_image)
  qed
qed

lemma begin_step:
  assumes "healthy w" and "tx_of w p = None"
  obtains v where "run (begin_tx p) w = (Inr (), v)" "beside w v" "locked_ids v = locked_ids w"
    "dispatching p \<lparr>tx_now = w_db_clock w, tx_locks = [], tx_writes = [], tx_aborted = False\<rparr> v"
    "w_published v = w_published w" "w_publishers v = w_publishers w"
proof -
  let ?x = "\<lparr>tx_now = w_db_clock w, tx_locks = [], tx_writes = [], tx_aborted = False\<rparr>"
  let ?v = "set_tx p ?x (w\<lparr>w_db_calls := Suc (w_db_calls w)\<rparr>)"
  have "filter (\<lambda>e. fst e \<noteq> p) (w_txs w) = w_txs w"
    using assms(2) by (force simp: tx_of_def map_of_eq_None_iff filter_id_conv)
  then have "locked_ids ?v = locked_ids w"
    unfolding locked_ids_set_tx by (simp add: other_locks_def) (simp add: locked_ids_def)
  moreover have "run (begin_tx p) w = (Inr (), ?v)" using assms(1) by (simp add: begin_tx_def served_healthy)
  moreover have "dispatching p ?x ?v"
    using assms(1) by (simp add: dispatching_def healthy_def set_tx_def tx_of_def)
  ultimately show thesis by (intro that [of ?v]) simp_all
qed

lemma commit_step:
  assumes "dispatching p x w"
  obtains v where "run (commit_tx p) w = (Inr (), v)" "w_outbox v = map (apply_writes (tx_writes x)) (w_outbox w)"
    "w_published v = w_published w" "w_inbound v = w_inbound w" "w_publishers v = w_publishers w" "tx_of v p = None"
proof -
  let ?v = "snd (run (commit_tx p) w)"
  have "fst (run (commit_tx p) w) = Inr ()" and "w_outbox ?v = map (apply_writes (tx_writes x)) (w_outbox w)"
    and "w_published ?v = w_published w" and "w_inbound ?v = w_inbound w" and "w_publishers ?v = w_publishers w"
    and "tx_of ?v p = None"
    using assms by (simp_all add: commit_tx_def commit_stmt_def dispatching_def tx_of_def Let_def end_tx_def map_of_filter_other)
  then show thesis by (intro that [of ?v]) (simp_all add: prod_eq_iff)
qed

lemma run_process_batch_healthy:
  assumes w: "healthy w" "Inv w" and ready: "exchange_ready p name w" and n: "0 \<le> n"
    and none: "tx_of w p = None" and rows_def: "rows = due_rows (nat n) (w_db_clock w) w"
  obtains v where "run (process_batch pf p name n) w = (Inr (), v)"
    "w_outbox v = map (\<lambda>r. if r \<in> set rows
       then r\<lparr>oe_status := DISPATCHED, oe_published_at := Some (w_db_clock w)\<rparr> else r) (w_outbox w)"
    "w_published v = w_published w @ map (row_message name) rows" "w_inbound v = w_inbound w" "tx_of v p = None"
proof -
  have t: "tables_ok w" using w(2) by (simp add: Inv_def)
  note due = due_rows_facts [OF t, where n = "nat n" and now = "w_db_clock w", folded rows_def]
  let ?x = "\<lparr>tx_now = w_db_clock w, tx_locks = [], tx_writes = [], tx_aborted = False\<rparr>"
  let ?x2 = "?x\<lparr>tx_locks := map oe_outbox_id rows\<rparr>"
  let ?x3 = "?x2\<lparr>tx_writes := map (\<lambda>r. (oe_outbox_id r, MarkDispatched (w_db_clock w))) rows\<rparr>"
  obtain w1 where w1: "run (begin_tx p) w = (Inr (), w1)" "beside w w1" "locked_ids w1 = locked_ids w"
    "dispatching p ?x w1" "w_published w1 = w_published w" "w_publishers w1 = w_publishers w"
    by (rule begin_step [OF w(1) none])
  have rows: "due_rows (nat n) (w_db_clock w) (w1\<lparr>w_db_calls := k\<rparr>) = rows" for k
    using w1(2,3) by (simp add: due_rows_def rows_def locked_ids_def beside_def)
  let ?f = "\<lambda>x w. if n < 0 then (Inl (PostgresError ''LIMIT must not be negative''), x)
     else let rows = due_rows (nat n) (tx_now x) w
          in (Inr rows, x\<lparr>tx_locks := tx_locks x @ map oe_outbox_id rows\<rparr>)"
  have "?f ?x (w1\<lparr>w_db_calls := Suc (w_db_calls w1)\<rparr>) = (Inr rows, ?x2)" using n rows by (simp add: Let_def)
  from tx_step [where f = ?f, OF w1(4) this] obtain w2 where w2: "run (select_due p n) w1 = (Inr rows, w2)" "dispatching p ?x2 w2" "beside w1 w2"
    "w_published w2 = w_published w1" "w_publishers w2 = w_publishers w1"
    unfolding select_due_def by auto
  have b2: "beside w w2" using w1(2) w2(3) beside_trans by blast
  have "\<exists>u. run (if rows = [] then ret () else and_then (cached_exchange p name)
        (\<lambda>exchange. for_each rows (process_row pf p exchange))) w2 = (Inr (), u) \<and>
      dispatching p ?x3 u \<and> w_outbox u = w_outbox w \<and> w_inbound u = w_inbound w \<and>
      w_published u = w_published w @ map (row_message name) rows"
  proof (cases "rows = []")
    case True
    then show ?thesis using w2 w1 b2 by (auto simp: beside_def)
  next
    case False
    have a2: "w_amqp_faults w2 = (\<lambda>_. NoFault)" using b2 w(1) by (simp add: beside_def healthy_def)
    have r2: "exchange_ready p name w2" using ready b2 w1(6) w2(5) by (simp add: exchange_ready_def beside_def)
    obtain c u where u: "run (cached_exchange p name) w2 = (Inr (c, name), u)" "c \<in> set (w_open_channels u)"
      "dispatching p ?x2 u" "w_outbox u = w_outbox w2" "w_inbound u = w_inbound w2" "w_published u = w_published w2"
      "w_amqp_faults u = w_amqp_faults w2"
      by (rule run_cached_exchange_healthy [OF a2 r2 w2(2)])
    have headers: "\<exists>d. oe_headers r = JObj d" if "r \<in> set rows" for r
      using due(2) [OF that] t by (auto simp: tables_ok_def list_all_iff outbox_ok_def)
    have au: "w_amqp_faults u = (\<lambda>_. NoFault)" "fst (c, name) \<in> set (w_open_channels u)" using u(2,7) a2 by simp_all
    obtain u' where u': "run (for_each rows (process_row pf p (c, name))) u = (Inr (), u')" "beside u u'"
      "dispatching p (?x2\<lparr>tx_writes := tx_writes ?x2 @ map (\<lambda>r. (oe_outbox_id r, MarkDispatched (tx_now ?x2))) rows\<rparr>) u'"
      "w_published u' = w_published u @ map (row_message (snd (c, name))) rows"
      using run_rows_healthy [OF u(3) au headers, where pf = pf] by blast
    have "dispatching p ?x3 u'" using u'(3) by simp
    then show ?thesis
      using False u u'(1,2,4) w1(5) w2(4) b2 by (intro exI [of _ u']) (simp add: run_and_then beside_def)
  qed
  then obtain u where u: "run (if rows = [] then ret () else and_then (cached_exchange p name)
        (\<lambda>exchange. for_each rows (process_row pf p exchange))) w2 = (Inr (), u)"
      "dispatching p ?x3 u" "w_outbox u = w_outbox w" "w_inbound u = w_inbound w"
      "w_published u = w_published w @ map (row_message name) rows"
    by blast
  obtain v where v: "run (commit_tx p) u = (Inr (), v)" "w_outbox v = map (apply_writes (tx_writes ?x3)) (w_outbox u)"
    "w_published v = w_published u" "w_inbound v = w_inbound u" "tx_of v p = None"
    by (rule commit_step [OF u(2)])
  have "run (process_batch pf p name n) w = (Inr (), v)"
    unfolding process_batch_def in_transaction_def using u(1) v(1) by (simp add: run_and_then run_attempt w1(1) w2(1))
  moreover have "w_outbox v = map (\<lambda>r. if r \<in> set rows
       then r\<lparr>oe_status := DISPATCHED, oe_published_at := Some (w_db_clock w)\<rparr> else r) (w_outbox w)"
  proof -
    have "apply_writes (tx_writes ?x3) r = (if r \<in> set rows
       then r\<lparr>oe_status := DISPATCHED, oe_published_at := Some (w_db_clock w)\<rparr> else r)" if "r \<in> set (w_outbox w)" for r
      using apply_dispatched [OF _ _ due(1) that] t due(2) by (simp add: tables_ok_def subset_iff)
    then show ?thesis using u(3) v(2) by simp
  qed
  ultimately show thesis using that u(4,5) v(3,4,5) by simp
qed

section \<open>When the broker fails\<close>

definition failure_write :: "platform \<Rightarrow> world \<Rightarrow> outbox_event \<Rightarrow> exn \<Rightarrow> row_write" where
  "failure_write pf w r e =
     (if oe_max_retries r \<le> oe_retry_count r + 1 then MarkFailed (exc_text pf e)
      else MarkRetry (exc_text pf e) (w_app_clock w + seconds (backoff (oe_retry_count r))))"

lemma run_process_row_failed:
  assumes x: "dispatching p x w" and amqp: "w_amqp_faults w (w_amqp_calls w) = Fault ap False"
    and hd: "oe_headers r = JObj d"
  obtains v where "run (process_row pf p ex r) w = (Inr (), v)"
    "dispatching p (x\<lparr>tx_writes := tx_writes x @ [(oe_outbox_id r, failure_write pf w r AmqpError)]\<rparr>) v"
    "w_publishers v p = \<lparr>ps_channel = None, ps_exchange = None\<rparr>" "w_outbox v = w_outbox w"
    "w_published v = w_published w \<or> ap \<and> w_published v = w_published w @ [row_message (snd ex) r]"
proof -
  let ?x = "x\<lparr>tx_writes := tx_writes x @ [(oe_outbox_id r, failure_write pf w r AmqpError)]\<rparr>"
  have na: "\<not> tx_aborted x" "\<not> tx_aborted ?x" using x by (simp_all add: dispatching_def)
  obtain w1 where w1: "run (savepoint p) w = (Inr (length (tx_writes x)), w1)" "dispatching p x w1" "beside w w1"
    "w_published w1 = w_published w" "w_amqp_calls w1 = w_amqp_calls w"
  proof -
    have "run (savepoint p) w = (Inr (length (tx_writes x)), set_tx p x (w\<lparr>w_db_calls := Suc (w_db_calls w)\<rparr>))"
      unfolding savepoint_def by (rule run_tx_stmt [OF x]) (rule refl)
    then show thesis using dispatching_step [OF x na(1)] by (rule that) (simp_all add: set_tx_def beside_def)
  qed
  have f1: "w_amqp_faults w1 (w_amqp_calls w1) = Fault ap False" using w1(3,5) amqp by (simp add: beside_def)
  obtain w2 where w2: "run (exchange_publish ex (oe_event_type r) (oe_payload r) d) w1 = (Inl AmqpError, w2)"
    "dispatching p x w2" "beside w1 w2"
    "w_published w2 = w_published w1 \<or> ap \<and> w_published w2 = w_published w1 @ [row_message (snd ex) r]"
  proof -
    let ?v = "snd (run (exchange_publish ex (oe_event_type r) (oe_payload r) d) w1)"
    have "run (exchange_publish ex (oe_event_type r) (oe_payload r) d) w1 = (Inl AmqpError, ?v)"
      using f1 by (simp add: exchange_publish_def amqp_call_def)
    moreover have "dispatching p x ?v" "beside w1 ?v"
      "w_published ?v = w_published w1 \<or> ap \<and> w_published ?v = w_published w1 @ [row_message (snd ex) r]"
      using f1 w1(2) hd by (auto simp: exchange_publish_def amqp_call_def row_message_def)
    ultimately show thesis by (rule that)
  qed
  have now: "w_app_clock w2 = w_app_clock w" using w1(3) w2(3) by (simp add: beside_def)
  let ?mark = "if oe_max_retries r \<le> oe_retry_count r + 1 then mark_failed p (oe_outbox_id r) (exc_text pf AmqpError)
     else mark_retry p (oe_outbox_id r) (exc_text pf AmqpError) (w_app_clock w2 + seconds (backoff (oe_retry_count r)))"
  have mark: "?mark = atomic (tx_stmt p (\<lambda>y w'. (Inr (), y\<lparr>tx_writes := tx_writes y @ [(oe_outbox_id r, failure_write pf w r AmqpError)]\<rparr>)))"
    using now by (simp add: mark_failed_def mark_retry_def mark_def failure_write_def)
  obtain w3 where w3: "run ?mark w2 = (Inr (), w3)" "dispatching p ?x w3" "beside w2 w3"
    "w_published w3 = w_published w2" "w_publishers w3 = w_publishers w2"
    unfolding mark
    by (rule tx_step [where a = "()" and x' = ?x and
          f = "\<lambda>y w'. (Inr (), y\<lparr>tx_writes := tx_writes y @ [(oe_outbox_id r, failure_write pf w r AmqpError)]\<rparr>)",
          OF w2(2) _ na(2)]) auto
  let ?w4 = "w3\<lparr>w_publishers := (w_publishers w3)(p := \<lparr>ps_channel = None, ps_exchange = None\<rparr>)\<rparr>"
  have failed: "run (dispatch_failed pf p r AmqpError) w2 = (Inr (), ?w4)"
    using w3(1) by (auto simp: dispatch_failed_def run_and_then reset_channel_def set_publisher_def split: if_splits)
  have x4: "dispatching p ?x ?w4" using w3(2) by simp
  obtain w5 where w5: "run (release_savepoint p) ?w4 = (Inr (), w5)" "dispatching p ?x w5" "beside ?w4 w5"
    "w_published w5 = w_published ?w4" "w_publishers w5 = w_publishers ?w4"
    unfolding release_savepoint_def by (rule tx_step [OF x4 _ na(2)]) (rule refl)
  have "run (process_row pf p ex r) w = (Inr (), w5)"
    by (simp add: process_row_def in_savepoint_def run_and_then run_attempt run_except_exception publish_row_def hd
        is_exception_def w1(1) w2(1) failed w5(1))
  moreover have "w_publishers w5 p = \<lparr>ps_channel = None, ps_exchange = None\<rparr>" using w5(5) by simp
  moreover have "w_outbox w5 = w_outbox w" using w1(3) w2(3) w3(3) w5(3) by (simp add: beside_def)
  moreover have "w_published w5 = w_published w \<or> ap \<and> w_published w5 = w_published w @ [row_message (snd ex) r]"
    using w1(4) w2(4) w3(4) w5(4) by simp
  ultimately show thesis using that w5(2) by blast
qed

section \<open>When an error escapes\<close>

lemma read_only_tx [read_only_intros]: "read_only (atomic (tx_stmt p f))"
  by (auto simp: read_only_def tx_stmt_def Let_def same_tables_def abort_tx_def set_tx_def tx_of_def
      split: option.split fault.split prod.split sum.split)

lemma read_only_dispatch [read_only_intros]:
  "read_only (begin_tx p)" "read_only (rollback_tx p)" "read_only (rollback_to p n)"
  "read_only (set_publisher p s)" "read_only (get_publisher p)"
  by (auto simp: read_only_def begin_tx_def rollback_tx_def rollback_to_def rollback_to_stmt_def db_call_def served_def
      same_tables_def set_tx_def end_tx_def abort_tx_def tx_of_def set_publisher_def get_publisher_def Let_def
      split: option.split fault.split)

lemma read_only_process_row [read_only_intros]: "read_only (process_row pf p ex r)"
  unfolding process_row_def in_savepoint_def publish_row_def dispatch_failed_def savepoint_def release_savepoint_def
    mark_dispatched_def mark_failed_def mark_retry_def mark_def reset_channel_def
  by (auto intro!: read_only_intros split: json.split sum.split)

lemma read_only_cached_exchange [read_only_intros]: "read_only (cached_exchange p name)"
  unfolding cached_exchange_def by (auto intro!: read_only_intros split: option.split)

lemma read_only_for_each: "(\<And>x. read_only (body x)) \<Longrightarrow> read_only (for_each xs body)"
  by (induction xs) (auto intro!: read_only_intros)

text \<open>The batch's rows change at the commit only.\<close>

lemma commit_failed:
  assumes "run (commit_tx p) w = (Inl e, v)"
  shows "same_tables w v \<or> (\<exists>ca. w_db_faults w (w_db_calls w) = Fault True ca)"
proof (cases "w_db_faults w (w_db_calls w)")
  case NoFault
  then show ?thesis
    using assms by (cases "tx_of w p") (auto simp: commit_tx_def commit_stmt_def Let_def tx_of_def same_tables_def)
next
  case (Fault ap ca)
  then show ?thesis
    using assms
    by (cases ap; cases "tx_of w p")
      (auto simp: commit_tx_def commit_stmt_def Let_def tx_of_def same_tables_def end_tx_def)
qed

lemma in_transaction_failed:
  assumes body: "read_only body" and run: "run (in_transaction p body) w = (Inl e, v)"
  shows "same_tables w v \<or>
    (\<exists>a u ca. run (and_then (begin_tx p) (\<lambda>_. body)) w = (Inr a, u) \<and> w_db_faults u (w_db_calls u) = Fault True ca)"
proof -
  obtain r1 w1 where w1: "run (begin_tx p) w = (r1, w1)" by (cases "run (begin_tx p) w")
  have s1: "same_tables w w1" by (rule read_only_run [OF _ w1]) (rule read_only_intros)
  obtain r2 w2 where w2: "run body w1 = (r2, w2)" by (cases "run body w1")
  have s2: "same_tables w1 w2" by (rule read_only_run [OF body w2])
  show ?thesis
  proof (cases r1)
    case (Inl e')
    then show ?thesis using run w1 s1 by (simp add: in_transaction_def run_and_then)
  next
    case 1: (Inr u)
    show ?thesis
    proof (cases r2)
      case (Inl e')
      obtain r3 w3 where w3: "run (rollback_tx p) w2 = (r3, w3)" by (cases "run (rollback_tx p) w2")
      have s3: "same_tables w2 w3" by (rule read_only_run [OF _ w3]) (rule read_only_intros)
      have "v = w3" using run w1 w2 w3 1 Inl by (cases r3) (simp_all add: in_transaction_def run_and_then run_attempt)
      then show ?thesis using s1 s2 s3 same_tables_trans by blast
    next
      case (Inr a)
      obtain r3 w3 where w3: "run (commit_tx p) w2 = (r3, w3)" by (cases "run (commit_tx p) w2")
      have c: "run (commit_tx p) w2 = (Inl e, v)"
        using run w1 w2 w3 1 Inr by (cases r3) (simp_all add: in_transaction_def run_and_then run_attempt)
      have both: "run (and_then (begin_tx p) (\<lambda>_. body)) w = (Inr a, w2)" using w1 w2 1 Inr by (simp add: run_and_then)
      show ?thesis using commit_failed [OF c] both s1 s2 same_tables_trans by blast
    qed
  qed
qed

lemma read_only_batch_body:
  "read_only (and_then (select_due p n) (\<lambda>rows. if rows = [] then ret ()
     else and_then (cached_exchange p name) (\<lambda>exchange. for_each rows (process_row pf p exchange))))"
  unfolding select_due_def by (auto intro!: read_only_intros read_only_for_each)

text \<open>Which calls will fail is not changed by the program.\<close>

definition same_faults :: "world \<Rightarrow> world \<Rightarrow> bool" where
  "same_faults w w' \<longleftrightarrow> w_db_faults w' = w_db_faults w"

interpretation faults: preserved same_faults
  by unfold_locales (simp_all add: same_faults_def)

named_theorems fault_intros \<open>introduction rules for programs that keep the fault schedule\<close>

lemmas fault_control [fault_intros] = faults.keeps_control

lemma faults_tx [fault_intros]: "faults.keeps (atomic (tx_stmt p f))"
  by (rule faults.keeps_atomic)
    (simp add: tx_stmt_def Let_def same_faults_def abort_tx_def set_tx_def tx_of_def
      split: option.split fault.split prod.split sum.split)

lemma faults_leaves [fault_intros]:
  "faults.keeps (begin_tx p)" "faults.keeps (rollback_to p n)" "faults.keeps utc_now"
  "faults.keeps (set_publisher p s)" "faults.keeps (get_publisher p)"
  "faults.keeps open_channel" "faults.keeps (get_exchange c name)" "faults.keeps (exchange_publish x rk body hs)"
  unfolding begin_tx_def rollback_to_def utc_now_def set_publisher_def get_publisher_def open_channel_def
    get_exchange_def exchange_publish_def
  by (rule faults.keeps_atomic,
      simp add: rollback_to_stmt_def db_call_def amqp_call_def served_def same_faults_def set_tx_def abort_tx_def
        tx_of_def Let_def split: option.split fault.split)+

lemma faults_batch_body:
  "faults.keeps (and_then (begin_tx p) (\<lambda>_. and_then (select_due p n) (\<lambda>rows. if rows = [] then ret ()
     else and_then (cached_exchange p name) (\<lambda>exchange. for_each rows (process_row pf p exchange)))))"
proof -
  have row: "faults.keeps (process_row pf p ex r)" for ex r
    unfolding process_row_def in_savepoint_def publish_row_def dispatch_failed_def savepoint_def release_savepoint_def
      mark_dispatched_def mark_failed_def mark_retry_def mark_def reset_channel_def
    by (auto intro!: fault_intros split: json.split sum.split)
  have exchange: "faults.keeps (cached_exchange p name)"
    unfolding cached_exchange_def by (auto intro!: fault_intros split: option.split)
  show ?thesis unfolding select_due_def by (auto intro!: fault_intros row exchange)
qed

lemma process_batch_failed:
  assumes run: "run (process_batch pf p name n) w = (Inl e, v)" and commits: "\<forall>k ca. w_db_faults w k \<noteq> Fault True ca"
  shows "same_tables w v"
proof (rule ccontr)
  assume "\<not> same_tables w v"
  with in_transaction_failed [OF read_only_batch_body run [unfolded process_batch_def]]
  obtain a u ca where u: "run (and_then (begin_tx p) (\<lambda>_. and_then (select_due p n) (\<lambda>rows. if rows = [] then ret ()
     else and_then (cached_exchange p name) (\<lambda>exchange. for_each rows (process_row pf p exchange))))) w = (Inr a, u)"
    "w_db_faults u (w_db_calls u) = Fault True ca"
    by blast
  from faults.keeps_run [OF faults_batch_body u(1)] show False
    using commits u(2) by (simp add: same_faults_def)
qed

section \<open>The polling loop\<close>

lemma run_turn_failed:
  assumes "run (process_batch pf p name n) w = (Inl e, v)" and "e \<noteq> Cancelled"
  obtains u where "run (run_turn pf p name n) w = (if w_sleep_cancelled v (w_sleeps v) then Inl Cancelled else Inr Continue, u)"
    "w_publishers u p = \<lparr>ps_channel = None, ps_exchange = None\<rparr>" "w_outbox u = w_outbox v"
proof -
  let ?u = "snd (run (run_turn pf p name n) w)"
  have "run (run_turn pf p name n) w = (if w_sleep_cancelled v (w_sleeps v) then Inl Cancelled else Inr Continue, ?u)"
    "w_publishers ?u p = \<lparr>ps_channel = None, ps_exchange = None\<rparr>" "w_outbox ?u = w_outbox v"
    using assms by (simp_all add: run_turn_def run_attempt run_and_then reset_channel_def set_publisher_def sleep_def)
  then show thesis by (rule that)
qed

section \<open>Webhook requests leave the publishers alone\<close>

definition same_publishers :: "world \<Rightarrow> world \<Rightarrow> bool" where
  "same_publishers w w' \<longleftrightarrow> w_txs w' = w_txs w \<and> w_publishers w' = w_publishers w"

interpretation publishers: preserved same_publishers
  by unfold_locales (simp_all add: same_publishers_def)

named_theorems aside_intros \<open>introduction rules for programs that leave the publishers alone\<close>

lemmas aside_control [aside_intros] = publishers.keeps_control

lemma same_publishers_served:
  "(\<And>w. same_publishers w (snd (f w))) \<Longrightarrow> same_publishers w u \<Longrightarrow> same_publishers w (snd (served flt e f u))"
  using served_cases [of flt e f u] by (auto simp: same_publishers_def)

lemma aside_calls:
  assumes "\<And>w. same_publishers w (snd (f w))"
  shows "publishers.keeps (atomic (db_call f))" "publishers.keeps (atomic (redis_call f))"
    "publishers.keeps (atomic (amqp_call f))"
  unfolding db_call_def redis_call_def amqp_call_def
  by (auto intro!: publishers.keeps_atomic same_publishers_served assms simp: same_publishers_def)

lemma aside_leaves [aside_intros]:
  "publishers.keeps (query q)" "publishers.keeps uuid4" "publishers.keeps utc_now" "publishers.keeps (redis_get k)"
  "publishers.keeps (redis_setex k ttl v)" "publishers.keeps open_channel" "publishers.keeps (get_exchange c name)"
  "publishers.keeps (close_channel c)" "publishers.keeps (exchange_publish x rk body hs)"
  "publishers.keeps (execute (insert_inbound_stmt pf values))"
  "publishers.keeps (execute (cancel_previous_stmt h n reason))"
  "publishers.keeps (execute (insert_event_stmt et cid h n pl hdr d))"
  unfolding query_def redis_get_def redis_setex_def open_channel_def get_exchange_def close_channel_def
    exchange_publish_def execute_def insert_inbound_stmt_def insert_event_stmt_def cancel_previous_stmt_def
    uuid4_def utc_now_def Let_def
  by (rule aside_calls publishers.keeps_atomic | simp add: same_publishers_def redis_store_def split: option.split)+

lemma aside_transaction [aside_intros]:
  assumes "publishers.keeps body"
  shows "publishers.keeps (transaction body)"
  unfolding transaction_def
proof (rule publishers.keeps_atomic)
  fix w
  have "publishers.keeps (and_then (query (\<lambda>_. ())) (\<lambda>_. body))" by (intro aside_intros assms)
  then obtain r v where rv: "run (and_then (query (\<lambda>_. ())) (\<lambda>_. body)) w = (r, v)" "same_publishers w v"
    by (metis prod.collapse publishers.keeps_run)
  then show "same_publishers w (snd (transaction_stmt body w))"
    by (cases r) (auto simp: transaction_stmt_def commit_def served_def undo_tables_def same_publishers_def Let_def
        split: fault.split)
qed

lemma aside_emit [aside_intros]: "publishers.keeps (emit pf st s t c tid md)"
  unfolding emit_def publish_def by (intro aside_intros)

lemma aside_process_webhook: "publishers.keeps (process_webhook pf st tid p raw hs)"
proof -
  have secret: "publishers.keeps (get_webhook_secret pf tid)"
    unfolding get_webhook_secret_def get_tenant_cache_def set_tenant_cache_def suppress_def get_by_id_query
    by (auto intro!: aside_intros split: option.split)
  have whitelist: "publishers.keeps (get_event_whitelist p)"
    unfolding get_event_whitelist_def fetch_def by (intro aside_intros)
  have check: "publishers.keeps (check pf ttl h)" for ttl h
    unfolding check_def get_idempotency_cache_def get_by_pr_hash_key_def fetchrow_def set_idempotency_cache_def suppress_def
    by (auto intro!: aside_intros split: option.split)
  have persist: "publishers.keeps (persist pf st tid p cid pr h raw hs)" for cid pr h
    unfolding persist_def persist_body_def insert_inbound_def schedule_event_def
    by (auto intro!: aside_intros split: option.split)
  have report: "publishers.keeps (persist_and_report pf st tid p cid pr h raw hs)" for cid pr h
    unfolding persist_and_report_def mark_processed_def set_idempotency_cache_def suppress_def
    by (auto intro!: aside_intros persist split: sum.split exn.split)
  have verified: "publishers.keeps (process_verified pf st tid p cid et wl raw hs)" for cid et wl
    unfolding process_verified_def Let_def
    by (auto intro!: aside_intros check report split: option.split)
  show ?thesis
    unfolding process_webhook_def validate_signature_def Let_def
    by (auto intro!: aside_intros secret whitelist verified)
qed

end
