(* ===== verification/Samples.thy ===== *)
theory Samples
  imports Dispatch
begin

text \<open>
  A concrete deployment for the witnesses: one active tenant with its customer, the whitelist
  of the seed migration (\<open>migrations/versions/0002_seed_shared_schema.py\<close>) for merge requests,
  a platform with the plain validators, and a GitLab webhook of that tenant, executed.
\<close>

definition sample_body :: json where
  "sample_body = JObj
     [(''object_kind'', JStr ''merge_request''),
      (''object_attributes'', JObj
        [(''iid'', JInt 7), (''title'', JStr ''t''), (''url'', JStr ''u''),
         (''last_commit'', JObj [(''id'', JStr ''c0ffee'')]), (''action'', JStr ''open''),
         (''author_id'', JInt 1)]),
      (''project'', JObj [(''id'', JInt 5), (''path_with_namespace'', JStr ''g/p''), (''web_url'', JStr ''w'')]),
      (''user'', JObj [(''username'', JStr ''ann'')])]"

fun plain_int :: "json \<Rightarrow> int option" where
  "plain_int (JInt i) = Some i"
| "plain_int _ = None"

fun plain_str :: "json \<Rightarrow> string option" where
  "plain_str (JStr s) = Some s"
| "plain_str _ = None"

fun plain_dict :: "json \<Rightarrow> pydict option" where
  "plain_dict (JObj d) = Some d"
| "plain_dict _ = None"

text \<open>The parser of the sample knows the text of one webhook body and one cached tenant.\<close>

definition sample_raw :: bytes where
  "sample_raw = [123, 125]"

definition sample_tenant_row :: tenant_row where
  "sample_tenant_row =
     \<lparr>tr_tenant_id = 11, tr_customer_id = 22, tr_tenant_name = ''acme'', tr_is_active = True,
      tr_webhook_secret = ''s3cret''\<rparr>"

definition sample_tenant :: tenant where
  "sample_tenant =
     \<lparr>tn_tenant_id = 11, tn_customer_id = 22, tn_name = ''acme'', tn_is_active = True,
      tn_webhook_secret = ''s3cret'', tn_plan_type = ''pro'', tn_customer_plan_type = Some ''pro''\<rparr>"

definition sample_platform :: platform where
  "sample_platform =
     \<lparr>json_loads = (\<lambda>b. if b = sample_raw then Some sample_body
                       else if b = encode ''cached'' then Some (dump_tenant sample_tenant) else None),
      json_dumps = (\<lambda>j. ''cached''),
      pyd_parse = (\<lambda>b. if b = sample_raw then Some sample_body else None),
      pyd_int = plain_int, pyd_str = plain_str, pyd_dict = plain_dict,
      py_repr = (\<lambda>j. ''repr''), iso_utc = (\<lambda>t. ''time''), exc_text = (\<lambda>e. ''error''),
      jsonb_codec = True\<rparr>"

definition sample_settings :: settings where
  "sample_settings = default_settings ''db'' ''amqp'' ''redis''"

definition sample_world :: world where
  "sample_world =
     \<lparr>w_tenants = [sample_tenant_row],
      w_customers = [\<lparr>cr_customer_id = 22, cr_plan_type = ''pro''\<rparr>],
      w_whitelist = [\<lparr>wl_vcs_provider = ''gitlab'', wl_event_type = ''Merge Request Hook'',
                      wl_event_action = ''open'', wl_is_active = True\<rparr>],
      w_vcs_configs = [], w_inbound = [], w_outbox = [], w_txs = [],
      w_db_clock = 0, w_db_faults = (\<lambda>n. NoFault), w_db_calls = 0,
      w_redis = Map.empty, w_redis_clock = 0, w_redis_faults = (\<lambda>n. NoFault), w_redis_calls = 0,
      w_published = [], w_open_channels = [], w_next_channel = 0,
      w_amqp_faults = (\<lambda>n. NoFault), w_amqp_calls = 0,
      w_sleeps = 0, w_sleep_cancelled = (\<lambda>n. False), w_app_clock = 0,
      w_uuid_source = (\<lambda>n. word_of_nat (100 + n)), w_uuids_drawn = 0,
      w_publishers = (\<lambda>p. \<lparr>ps_channel = None, ps_exchange = None\<rparr>)\<rparr>"

definition sample_headers :: "(string \<times> string) list" where
  "sample_headers = [(''X-Gitlab-Token'', ''s3cret''), (''X-Gitlab-Event'', ''Merge Request Hook'')]"

definition sample_pr :: pull_request_data where
  "sample_pr =
     \<lparr>pd_pr_id = ''7'', pd_repo_id = ''5'', pd_repo_name = Some ''g/p'', pd_pr_title = ''t'',
      pd_pr_author = ''ann'', pd_pr_url = ''u'', pd_commit_sha = ''c0ffee'', pd_action = ''open'',
      pd_vcs_instance_id = ''gitlab.com''\<rparr>"

lemma sample_parse: "parse_payload sample_platform ''gitlab'' sample_raw = Inr sample_pr"
  by (simp add: parse_payload_def model_validate_json_def gitlab_payload_def sample_platform_def
      sample_body_def gitlab_object_attributes_def gitlab_project_def required_def of_gitlab_def
      sample_pr_def dict_get_or_def py_str_int_def dec_nat.simps digit_def)

lemma sample_fresh: "fresh_world sample_world"
  by (simp add: fresh_world_def sample_world_def)

definition sample_key :: string where
  "sample_key = hash_key_of ''gitlab'' 11 sample_pr"

lemma sample_healthy: "healthy sample_world"
  by (simp add: healthy_def sample_world_def)

lemma sample_Inv: "Inv sample_world"
  by (rule Inv_fresh [OF sample_fresh])

definition sample_dict :: pydict where
  "sample_dict = (case sample_body of JObj d \<Rightarrow> d | _ \<Rightarrow> [])"

definition sample_row :: inbound_event where
  "sample_row = inbound_values 104 100 11 ''gitlab'' sample_pr sample_key (JObj sample_dict) (stored_headers sample_headers)"

lemma sample_key_fits: "varchar 64 sample_key = Some sample_key"
  by (rule varchar_fits) (simp add: sample_key_def py_len_hash_key)

lemma sample_no_nul_key: "no_nul sample_key"
  by (simp add: sample_key_def)

lemma sample_plain_dates: "plain_dates sample_platform"
  by (simp add: plain_dates_def sample_platform_def)

lemma sample_encodable: "encodable sample_row"
  by (simp add: sample_row_def inbound_values_def sample_pr_def encodable_def sample_no_nul_key sample_dict_def
      sample_body_def stored_headers_def relevant_headers_def sample_headers_def)

lemma sample_fits: "fit_inbound sample_row = Some sample_row"
  using sample_encodable unfolding sample_row_def inbound_values_def sample_pr_def
  by (simp add: fit_inbound_def varchar_null_def sample_key_fits varchar_fits
      py_len_def is_continuation_def bind_eq_Some_conv)

lemma sample_ids:
  "w_uuid_source sample_world 0 = 100" "w_uuid_source sample_world 4 = 104" "w_uuid_source sample_world 5 = 105"
  "w_uuids_drawn sample_world = 0"
  by (simp_all add: sample_world_def)

lemma sample_acceptable:
  "acceptable sample_platform sample_settings 11 ''gitlab'' sample_raw sample_headers sample_world
     sample_tenant sample_pr sample_dict sample_row"
proof -
  have "signature_valid ''gitlab'' sample_raw sample_headers ''s3cret'' = Inr True"
    by (simp add: signature_valid_def sample_headers_def gitlab_token_accepts dict_get_or_def)
  moreover have "is_event_allowed (extract_event_type sample_headers) (pd_action sample_pr)
      (select_whitelist ''gitlab'' sample_world)"
    by (simp add: is_event_allowed_def extract_event_type_def sample_headers_def sample_pr_def
        select_whitelist_def sample_world_def opt_or_def)
  moreover have "select_tenant 11 sample_world = Some sample_tenant"
    by (simp add: select_tenant_def sample_world_def sample_tenant_row_def sample_tenant_def)
  moreover have "redis_lookup sample_world k = None" "h \<notin> hash_keys sample_world" for k h
    by (simp_all add: redis_lookup_def sample_world_def hash_keys_def)
  moreover have "json_loads sample_platform sample_raw = Some (JObj sample_dict)" "jsonb_codec sample_platform"
    by (simp_all add: sample_platform_def sample_dict_def sample_body_def)
  moreover have "storable sample_world sample_row sample_row 105"
    using sample_fits by (simp add: storable_def sample_world_def)
  ultimately show ?thesis
    unfolding acceptable_def Let_def sample_ids
    by (simp add: sample_plain_dates supported_providers_def sample_parse sample_tenant_def sample_settings_def default_settings_def
        sample_ids sample_row_def [symmetric] sample_key_def [symmetric])
qed

definition sample_outcome :: "exn + webhook_result" where
  "sample_outcome = fst (run (process_webhook sample_platform sample_settings 11 ''gitlab'' sample_raw
     sample_headers) sample_world)"

definition sample_after :: world where
  "sample_after = snd (run (process_webhook sample_platform sample_settings 11 ''gitlab'' sample_raw
     sample_headers) sample_world)"

lemma sample_accepted:
  "accepted_from sample_platform sample_settings 11 ''gitlab'' sample_pr sample_dict sample_row sample_world
     sample_outcome sample_after"
  by (rule run_process_webhook_healthy [OF sample_healthy sample_Inv sample_acceptable])
     (simp add: sample_outcome_def sample_after_def)

lemma sample_result: "sample_outcome = Inr (WebhookAccepted 100 104 105)"
  using sample_accepted by (simp add: accepted_from_def sample_ids Let_def)

section \<open>An execution of the service\<close>

definition sample_request :: "string option \<times> request" where
  "sample_request = (Some ''c-1'', GitlabWebhook 11 sample_raw ''s3cret'' ''Merge Request Hook'')"

lemma sample_web_task:
  "run (web_task sample_platform sample_settings sample_request) sample_world =
     (Inr (Responded \<lparr>hr_status = 202, hr_headers = [(correlation_header, ''c-1'')],
        hr_content = response_body (WebhookAccepted 100 104 105)\<rparr>), sample_after)"
proof -
  have "run (process_webhook sample_platform sample_settings 11 ''gitlab'' sample_raw sample_headers) sample_world =
      (Inr (WebhookAccepted 100 104 105), sample_after)"
    using sample_result unfolding sample_outcome_def sample_after_def by (metis prod.collapse)
  then show ?thesis
    by (simp add: web_task_def sample_request_def application_def server_error_middleware_def
        correlation_id_middleware_def exception_middleware_def receive_gitlab_webhook_def receive_webhook_def
        check_body_size_def sample_raw_def [symmetric] sample_headers_def [symmetric] run_and_then run_on_error
        run_except_exception opt_or_def to_response_def dict_set_def max_body_bytes_def)
       (simp add: sample_raw_def max_body_bytes_def run_and_then to_response_def dict_set_def)
qed

text \<open>Requests 2 and 3 are internal checks of the sample's key.\<close>

definition sample_requests :: "nat \<Rightarrow> string option \<times> request" where
  "sample_requests = (\<lambda>n. if n = 2 then (Some ''c-2'', CheckDuplicate sample_key)
     else if n = 3 then (Some ''c-3'', CheckStale sample_key 1) else sample_request)"

definition sample_response :: http_response where
  "sample_response = \<lparr>hr_status = 202, hr_headers = [(correlation_header, ''c-1'')],
      hr_content = response_body (WebhookAccepted 100 104 105)\<rparr>"

definition sample_pool :: "actor \<rightharpoonup> task_result io" where
  "sample_pool = Map.empty(Web 0 \<mapsto> Done (Inr (Responded sample_response)))"

lemma sample_reachable:
  "reachable sample_platform sample_settings sample_requests sample_pool sample_after"
  using reachable_run [OF sample_fresh, of sample_platform sample_settings sample_requests "Web 0"
      "web_task sample_platform sample_settings sample_request"]
  by (simp add: sample_web_task sample_pool_def sample_response_def sample_requests_def)

text \<open>The stored rows.\<close>

lemma sample_tables:
  "w_inbound sample_after = [committed_row 0 sample_row]"
  "\<exists>r. w_outbox sample_after = [r] \<and> oe_outbox_id r = 105 \<and> oe_status r = SCHEDULED"
  using sample_accepted
  by (simp_all add: accepted_from_def Let_def sample_ids scheduled_row_def) (simp_all add: sample_world_def)

lemma sample_cached: "redis_lookup sample_after (idempotency_key sample_key) = Some ''1''"
  using sample_accepted by (simp add: accepted_from_def Let_def sample_key_def)

section \<open>The same delivery again\<close>

text \<open>Later the cache has lost its data, and the provider delivers the same webhook once more.\<close>

definition sample_later :: world where
  "sample_later = sample_after
     \<lparr>w_tenants := w_tenants sample_world, w_customers := w_customers sample_world,
      w_whitelist := w_whitelist sample_world, w_redis := Map.empty,
      w_db_faults := (\<lambda>n. NoFault), w_redis_faults := (\<lambda>n. NoFault), w_amqp_faults := (\<lambda>n. NoFault),
      w_db_clock := seconds 30, w_open_channels := [], w_sleep_cancelled := (\<lambda>n. False), w_db_calls := 0, w_amqp_calls := 0\<rparr>"

lemma later_reachable:
  "reachable sample_platform sample_settings sample_requests sample_pool sample_later"
  by (rule reachable_environment [OF sample_reachable]) (simp add: quiet_def sample_later_def)

lemma later_healthy: "healthy sample_later" and later_Inv: "Inv sample_later"
  using reachable_sound [OF later_reachable] by (simp_all add: healthy_def sample_later_def)

definition later_id :: uuid where
  "later_id = w_uuid_source sample_later (w_uuids_drawn sample_later)"

lemma later_secret: "secret_of sample_platform 11 sample_later = Inr ''s3cret''"
proof -
  have "redis_lookup sample_later (tenant_key 11) = None" by (simp add: redis_lookup_def sample_later_def)
  moreover have "select_tenant 11 sample_later = select_tenant 11 sample_world"
    by (simp add: select_tenant_def sample_later_def)
  ultimately show ?thesis
    using sample_acceptable by (simp add: secret_of_def acceptable_def Let_def sample_tenant_def)
qed

lemma later_request:
  "signature_valid ''gitlab'' sample_raw sample_headers ''s3cret'' = Inr True"
  "is_event_allowed (extract_event_type sample_headers) (pd_action sample_pr) (select_whitelist ''gitlab'' sample_later)"
proof -
  have "select_whitelist ''gitlab'' sample_later = select_whitelist ''gitlab'' sample_world"
    by (simp add: select_whitelist_def sample_later_def)
  then show "signature_valid ''gitlab'' sample_raw sample_headers ''s3cret'' = Inr True"
    "is_event_allowed (extract_event_type sample_headers) (pd_action sample_pr) (select_whitelist ''gitlab'' sample_later)"
    using sample_acceptable by (simp_all add: acceptable_def Let_def sample_tenant_def)
qed

lemma later_detection: "detection sample_platform sample_key sample_later = Inr (Some ''db_lookup'')"
proof -
  have "redis_lookup sample_later (idempotency_key sample_key) = None" by (simp add: redis_lookup_def sample_later_def)
  moreover have "ie_pr_hash_key (committed_row 0 sample_row) = sample_key" "ie_raw_payload (committed_row 0 sample_row) = JObj sample_dict"
    "ie_webhook_headers (committed_row 0 sample_row) = Some (JObj (stored_headers sample_headers))"
    by (simp_all add: committed_row_def sample_row_def inbound_values_def)
  moreover have "w_inbound sample_later = [committed_row 0 sample_row]"
    using sample_tables(1) by (simp add: sample_later_def)
  ultimately show ?thesis
    by (simp add: detection_def select_by_pr_hash_key_def validate_inbound_def)
       (simp add: sample_platform_def)
qed

lemma later_answer:
  "fst (run (process_webhook sample_platform sample_settings 11 ''gitlab'' sample_raw sample_headers) sample_later) =
     Inr (WebhookDuplicate later_id sample_key ''db_lookup'')"
  unfolding process_webhook_answer [OF later_healthy later_Inv sample_plain_dates]
  using later_request later_detection
  by (simp add: decide_def later_secret sample_parse Let_def supported_providers_def later_id_def
      sample_key_def [symmetric])

definition second_response :: http_response where
  "second_response = \<lparr>hr_status = 200, hr_headers = [(correlation_header, ''c-1'')],
      hr_content = response_body (WebhookDuplicate later_id sample_key ''db_lookup'')\<rparr>"

lemma second_web_task:
  "fst (run (web_task sample_platform sample_settings sample_request) sample_later) = Inr (Responded second_response)"
proof -
  obtain v where "run (process_webhook sample_platform sample_settings 11 ''gitlab'' sample_raw sample_headers) sample_later =
      (Inr (WebhookDuplicate later_id sample_key ''db_lookup''), v)"
    using later_answer by (metis prod.collapse)
  then show ?thesis
    by (simp add: web_task_def sample_request_def application_def server_error_middleware_def
        correlation_id_middleware_def exception_middleware_def receive_gitlab_webhook_def receive_webhook_def
        check_body_size_def sample_raw_def [symmetric] sample_headers_def [symmetric] run_and_then run_on_error
        run_except_exception opt_or_def to_response_def dict_set_def max_body_bytes_def)
       (simp add: sample_raw_def max_body_bytes_def run_and_then to_response_def dict_set_def second_response_def)
qed

definition second_after :: world where
  "second_after = snd (run (web_task sample_platform sample_settings sample_request) sample_later)"

definition second_pool :: "actor \<rightharpoonup> task_result io" where
  "second_pool = sample_pool(Web 1 \<mapsto> Done (Inr (Responded second_response)))"

lemma second_reachable:
  "reachable sample_platform sample_settings sample_requests second_pool second_after"
  using reachable_more [OF later_reachable, of "Web 1" "web_task sample_platform sample_settings sample_request"]
  by (simp add: sample_pool_def sample_requests_def second_pool_def second_after_def second_web_task)

lemma second_finished: "second_pool (Web 1) = Some (Done (Inr (Responded second_response)))"
  by (simp add: second_pool_def)

section \<open>The internal checks\<close>

lemma later_row: "select_by_pr_hash_key sample_key w = Some (committed_row 0 sample_row)"
  if "w_inbound w = [committed_row 0 sample_row]" for w
  using that by (simp add: select_by_pr_hash_key_def committed_row_def sample_row_def inbound_values_def)

lemma later_inbound: "w_inbound sample_later = [committed_row 0 sample_row]"
  using sample_tables(1) by (simp add: sample_later_def)

lemma later_valid: "validate_inbound sample_platform (committed_row 0 sample_row) = Inr (committed_row 0 sample_row)"
  by (simp add: validate_inbound_def committed_row_def sample_row_def inbound_values_def sample_platform_def)

definition stale_response :: http_response where
  "stale_response = \<lparr>hr_status = 200, hr_headers = [(correlation_header, ''c-3'')],
      hr_content = JObj [(''is_stale'', JBool False), (''pr_hash_key'', JStr sample_key)]\<rparr>"

lemma stale_web_task:
  "fst (run (web_task sample_platform sample_settings (sample_requests 3)) sample_later) = Inr (Responded stale_response)"
proof -
  let ?w = "sample_later\<lparr>w_db_calls := Suc (w_db_calls sample_later)\<rparr>"
  have "run (get_by_pr_hash_key sample_platform sample_key) sample_later = (Inr (Some (committed_row 0 sample_row)), ?w)"
    using later_healthy later_row [of ?w] later_inbound later_valid
    by (simp add: get_by_pr_hash_key_def run_and_then run_query_healthy sample_no_nul_key)
  moreover have "ie_pr_version (committed_row 0 sample_row) = 1"
    by (simp add: committed_row_def sample_row_def inbound_values_def)
  ultimately show ?thesis
    by (simp add: web_task_def sample_requests_def application_def server_error_middleware_def
        correlation_id_middleware_def exception_middleware_def check_stale_endpoint_def check_stale_def
        run_and_then run_on_error run_except_exception opt_or_def json_response_def dict_set_def stale_response_def)
qed

definition stale_pool :: "actor \<rightharpoonup> task_result io" where
  "stale_pool = sample_pool(Web 3 \<mapsto> Done (Inr (Responded stale_response)))"

definition stale_after :: world where
  "stale_after = snd (run (web_task sample_platform sample_settings (sample_requests 3)) sample_later)"

lemma stale_reachable: "reachable sample_platform sample_settings sample_requests stale_pool stale_after"
  using reachable_more [OF later_reachable, of "Web 3" "web_task sample_platform sample_settings (sample_requests 3)"]
  by (simp add: sample_pool_def stale_pool_def stale_after_def stale_web_task)

definition cached_response :: http_response where
  "cached_response = \<lparr>hr_status = 200, hr_headers = [(correlation_header, ''c-2'')],
      hr_content = JObj [(''is_duplicate'', JBool True), (''cache_hit'', JBool True), (''pr_hash_key'', JStr sample_key)]\<rparr>"

text \<open>Just after the webhook was accepted, its key is in the cache; the calls are served.\<close>

definition cached_world :: world where
  "cached_world = sample_after\<lparr>w_db_faults := (\<lambda>n. NoFault), w_redis_faults := (\<lambda>n. NoFault), w_amqp_faults := (\<lambda>n. NoFault)\<rparr>"

lemma cached_reachable:
  "reachable sample_platform sample_settings sample_requests sample_pool cached_world"
  by (rule reachable_environment [OF sample_reachable]) (simp add: quiet_def cached_world_def)

lemma cached_web_task:
  "fst (run (web_task sample_platform sample_settings (sample_requests 2)) cached_world) = Inr (Responded cached_response)"
proof -
  have h: "healthy cached_world" by (simp add: healthy_def cached_world_def)
  have "redis_lookup cached_world (idempotency_key sample_key) = redis_lookup sample_after (idempotency_key sample_key)"
    by (rule redis_lookup_same) (simp_all add: cached_world_def)
  then have "redis_lookup cached_world (idempotency_key sample_key) = Some ''1''" using sample_cached by simp
  from run_check_cached [OF h this] show ?thesis
    by (simp add: web_task_def sample_requests_def application_def server_error_middleware_def
        correlation_id_middleware_def exception_middleware_def check_duplicate_endpoint_def check_duplicate_def
        run_and_then run_on_error run_except_exception opt_or_def json_response_def dict_set_def cached_response_def)
qed

definition cached_pool :: "actor \<rightharpoonup> task_result io" where
  "cached_pool = sample_pool(Web 2 \<mapsto> Done (Inr (Responded cached_response)))"

definition cached_after :: world where
  "cached_after = snd (run (web_task sample_platform sample_settings (sample_requests 2)) cached_world)"

lemma cached_after_reachable: "reachable sample_platform sample_settings sample_requests cached_pool cached_after"
  using reachable_more [OF cached_reachable, of "Web 2" "web_task sample_platform sample_settings (sample_requests 2)"]
  by (simp add: sample_pool_def cached_pool_def cached_after_def cached_web_task)

section \<open>The outbox event is due\<close>

lemma later_publishers: "w_txs sample_later = []" "exchange_ready p name sample_later"
proof -
  have "same_publishers sample_world sample_after"
    unfolding sample_after_def
    using aside_process_webhook [of sample_platform sample_settings 11 "''gitlab''" sample_raw sample_headers]
    by (simp add: publishers.keeps_def)
  then show "w_txs sample_later = []" by (simp add: same_publishers_def sample_later_def) (simp add: sample_world_def)
  show "exchange_ready p name sample_later"
    by (auto simp: exchange_ready_def channel_usable_def sample_later_def split: option.split)
qed

lemma later_due:
  obtains r where "w_outbox sample_later = [r]" "due_rows 50 (seconds 30) sample_later = [r]" "oe_outbox_id r = 105"
    "oe_status r = SCHEDULED" "w_db_clock sample_later = seconds 30"
proof -
  have "w_outbox sample_after = [scheduled_row 105 ''vcs.webhook.received'' 100 (hash_key_of ''gitlab'' 11 sample_pr)
        (payload_of sample_platform 104 100 11 0 ''gitlab'' sample_pr (hash_key_of ''gitlab'' 11 sample_pr) (JObj sample_dict))
        (JObj [(''correlation_id'', JStr (uuid_str 100))]) 30 0]"
    using sample_accepted
    by (simp add: accepted_from_def Let_def sample_ids sample_settings_def default_settings_def) (simp add: sample_world_def)
  then have "\<exists>r. w_outbox sample_later = [r] \<and> oe_dispatch_at r = seconds 30 \<and> oe_outbox_id r = 105 \<and> oe_status r = SCHEDULED"
    by (simp add: sample_later_def scheduled_row_def)
  then obtain r where r: "w_outbox sample_later = [r]" "oe_dispatch_at r = seconds 30" "oe_outbox_id r = 105"
    "oe_status r = SCHEDULED"
    by blast
  moreover have "due_rows 50 (seconds 30) sample_later = [r]"
    using r by (simp add: due_rows_def is_due_def locked_ids_def later_publishers)
  moreover have "w_db_clock sample_later = seconds 30" by (simp add: sample_later_def)
  ultimately show thesis using that by blast
qed

text \<open>A publisher's turn sends it.\<close>

definition delivered_after :: world where
  "delivered_after = snd (run (publisher_task sample_platform sample_settings 0 1) sample_later)"

lemma delivered_reachable:
  "\<exists>r. reachable sample_platform sample_settings sample_requests (sample_pool(Pub 0 \<mapsto> Done r)) delivered_after"
  using reachable_more [OF later_reachable, of "Pub 0" "publisher_task sample_platform sample_settings 0 1"]
  by (auto simp: sample_pool_def delivered_after_def)

lemma delivered:
  obtains r where "w_outbox sample_later = [r]" "oe_outbox_id r = 105"
    "w_outbox delivered_after = [r\<lparr>oe_status := DISPATCHED, oe_published_at := Some (seconds 30)\<rparr>]"
    "w_published delivered_after = w_published sample_later @ [row_message ''vcs.webhook.received'' r]"
proof -
  obtain r where r: "w_outbox sample_later = [r]" "due_rows 50 (seconds 30) sample_later = [r]" "oe_outbox_id r = 105"
    "w_db_clock sample_later = seconds 30"
    by (rule later_due)
  have none: "tx_of sample_later 0 = None" by (simp add: tx_of_def later_publishers)
  have due: "due_rows (nat 50) (w_db_clock sample_later) sample_later = [r]" using r(2,4) by simp
  obtain v where v: "run (process_batch sample_platform 0 ''vcs.webhook.received'' 50) sample_later = (Inr (), v)"
    "w_outbox v = map (\<lambda>r'. if r' \<in> set [r]
       then r'\<lparr>oe_status := DISPATCHED, oe_published_at := Some (w_db_clock sample_later)\<rparr> else r') (w_outbox sample_later)"
    "w_published v = w_published sample_later @ map (row_message ''vcs.webhook.received'') [r]"
    by (rule run_process_batch_healthy [OF later_healthy later_Inv later_publishers(2) _ none due [symmetric]]) simp
  have "w_outbox delivered_after = w_outbox v" "w_published delivered_after = w_published v"
    using v(1)
    by (auto simp: delivered_after_def publisher_task_def run_turn_def run_and_then run_attempt sleep_def
        sample_settings_def default_settings_def)
  then show thesis using that r v(2,3) by simp
qed

section \<open>An execution step by step\<close>

lemma attempt_atomic: "attempt (atomic g) h = Act (\<lambda>w. (h (fst (g w)), snd (g w)))"
  by (simp add: atomic_def fun_eq_iff map_prod_def split_beta)

lemma reachable_act:
  assumes "reachable pf st rq ps w" and "ps i = Some (attempt (atomic g) h)"
  shows "reachable pf st rq (ps(i \<mapsto> h (fst (g w)))) (snd (g w))"
proof -
  obtain w0 where w0: "fresh_world w0" "(service_step pf st rq)\<^sup>*\<^sup>* (Map.empty, w0) (ps, w)"
    using assms(1) by (auto simp: reachable_def)
  have "service_step pf st rq (ps, w) (ps(i \<mapsto> h (fst (g w))), snd (g w))"
    unfolding service_step_def
    using pool_step.task [of ps i "\<lambda>w. (h (fst (g w)), snd (g w))" quiet "task_of pf st rq" w] assms(2)
    by (simp add: attempt_atomic)
  with w0 show ?thesis unfolding reachable_def by (blast intro: rtranclp.rtrancl_into_rtrancl)
qed

lemma reachable_spawn:
  assumes "reachable pf st rq ps w" and "ps i = None" and "task_of pf st rq i p"
  shows "reachable pf st rq (ps(i \<mapsto> p)) w"
proof -
  obtain w0 where w0: "fresh_world w0" "(service_step pf st rq)\<^sup>*\<^sup>* (Map.empty, w0) (ps, w)"
    using assms(1) by (auto simp: reachable_def)
  have "service_step pf st rq (ps, w) (ps(i \<mapsto> p), w)"
    unfolding service_step_def by (rule pool_step.spawn) (simp_all add: assms(2,3))
  with w0 show ?thesis unfolding reachable_def by (blast intro: rtranclp.rtrancl_into_rtrancl)
qed

text \<open>The publisher has begun its transaction and selected the due row.\<close>

lemma selecting:
  "\<exists>ps w x. reachable sample_platform sample_settings sample_requests ps w \<and> tx_of w 0 = Some x \<and> tx_locks x = [105]"
proof -
  define p where "p = publisher_task sample_platform sample_settings 0 1"
  have st: "rabbitmq_exchange_webhook sample_settings = ''vcs.webhook.received''" "outbox_batch_size sample_settings = 50"
    by (simp_all add: sample_settings_def default_settings_def)
  have "\<exists>h. p = attempt (begin_tx 0) h \<and> (\<exists>k. h (Inr ()) = attempt (select_due 0 50) k)"
    unfolding p_def publisher_task_def One_nat_def run_turns.simps run_turn_def process_batch_def in_transaction_def
      and_then_def attempt_attempt st
    by (rule exI, rule conjI, rule refl) (simp add: attempt_attempt, rule exI, rule refl)
  then obtain h where p: "p = attempt (begin_tx 0) h" and h: "\<exists>k. h (Inr ()) = attempt (select_due 0 50) k"
    by blast
  obtain k where k: "h (Inr ()) = attempt (select_due 0 50) k" using h by blast
  let ?x = "\<lparr>tx_now = seconds 30, tx_locks = [], tx_writes = [], tx_aborted = False\<rparr>"
  let ?w1 = "set_tx 0 ?x (sample_later\<lparr>w_db_calls := Suc (w_db_calls sample_later)\<rparr>)"
  let ?w2 = "set_tx 0 (?x\<lparr>tx_locks := [105]\<rparr>) (?w1\<lparr>w_db_calls := Suc (w_db_calls ?w1)\<rparr>)"
  obtain r where r: "w_outbox sample_later = [r]" "due_rows 50 (seconds 30) sample_later = [r]" "oe_outbox_id r = 105"
    "w_db_clock sample_later = seconds 30"
    by (rule later_due)
  have "reachable sample_platform sample_settings sample_requests (sample_pool(Pub 0 \<mapsto> p)) sample_later"
    by (rule reachable_spawn [OF later_reachable]) (auto simp: sample_pool_def p_def)
  from reachable_act [OF this, of "Pub 0" _ h, unfolded fun_upd_same p begin_tx_def, OF refl]
  have 1: "reachable sample_platform sample_settings sample_requests
      (sample_pool(Pub 0 \<mapsto> p, Pub 0 \<mapsto> attempt (select_due 0 50) k)) ?w1"
    using later_healthy k r(4) by (simp add: served_healthy p begin_tx_def)
  have due: "due_rows 50 (seconds 30) (?w1\<lparr>w_db_calls := n\<rparr>) = [r]" for n
    using r by (simp add: due_rows_def locked_ids_def later_publishers set_tx_def)
  have d: "dispatching 0 ?x ?w1" using later_healthy by (simp add: dispatching_def healthy_def set_tx_def tx_of_def)
  have "run (select_due 0 50) ?w1 = (Inr [r], ?w2)"
    unfolding select_due_def by (rule run_tx_stmt [OF d]) (use due r(3) in \<open>simp add: Let_def\<close>)
  from reachable_act [OF 1, of "Pub 0" _ k, unfolded fun_upd_same select_due_def, OF refl] this
  have "\<exists>ps. reachable sample_platform sample_settings sample_requests ps ?w2"
    by (auto simp: select_due_def)
  moreover have "tx_of ?w2 0 = Some (?x\<lparr>tx_locks := [105]\<rparr>)" by (simp add: tx_of_def set_tx_def)
  ultimately show ?thesis by fastforce
qed

end
