(* ===== verification/Delivery.thy ===== *)
theory Delivery
  imports Samples
begin

text \<open>
  Properties of the transactional outbox (\<open>src/vcs_gateway/db/outbox.py\<close>): scheduling, the
  retry schedule, a batch without faults, broker failures, and errors that escape.
\<close>

section \<open>Scheduling\<close>

text \<open>The row that replaces an older scheduled version of the same pull request.\<close>

definition superseded :: "string \<Rightarrow> int \<Rightarrow> outbox_event \<Rightarrow> bool" where
  "superseded k v r \<longleftrightarrow> oe_pr_hash_key r = Some k \<and> oe_status r = SCHEDULED \<and>
     (\<exists>v'. oe_pr_version r = Some v' \<and> v' < v)"

text \<open>C34: Scheduling an event cancels exactly the scheduled events of older versions under the same
  key, keeps every other row, and appends one scheduled row that is due after the debounce
  delay.\<close>

theorem schedule_event_supersedes:
  assumes "healthy w" and "fits_int4 v" and "py_len k \<le> 64"
    and "no_nul et" and "no_nul k" and "jsonb_ok pl" and "jsonb_ok hs"
    and "w_uuid_source w (w_uuids_drawn w) \<notin> oe_outbox_id ` set (w_outbox w)"
  shows "fst (run (schedule_event et cid k v pl hs d) w) = Inr (w_uuid_source w (w_uuids_drawn w)) \<and>
    w_outbox (snd (run (schedule_event et cid k v pl hs d) w)) =
      map (\<lambda>r. if superseded k v r
        then r\<lparr>oe_status := CANCELLED, oe_cancel_reason := Some ''superseded_by_newer_version''\<rparr> else r) (w_outbox w) @
      [\<lparr>oe_outbox_id = w_uuid_source w (w_uuids_drawn w), oe_event_type = et, oe_correlation_id = cid,
        oe_pr_hash_key = Some k, oe_pr_version = Some v, oe_payload = pl, oe_headers = hs,
        oe_status = SCHEDULED, oe_dispatch_at = w_db_clock w + seconds d, oe_cancel_reason = None,
        oe_retry_count = 0, oe_max_retries = 3, oe_next_retry_at = None, oe_error_message = None,
        oe_created_at = w_db_clock w, oe_published_at = None\<rparr>]"
proof -
  let ?cancel = "\<lambda>r. if oe_pr_hash_key r = Some k \<and> oe_status r = SCHEDULED \<and>
      (case oe_pr_version r of None \<Rightarrow> False | Some v' \<Rightarrow> v' < v)
    then r\<lparr>oe_status := CANCELLED, oe_cancel_reason := Some ''superseded_by_newer_version''\<rparr> else r"
  have cancel: "?cancel = (\<lambda>r. if superseded k v r
      then r\<lparr>oe_status := CANCELLED, oe_cancel_reason := Some ''superseded_by_newer_version''\<rparr> else r)"
    by (auto simp: fun_eq_iff superseded_def split: option.split)
  let ?w1 = "w\<lparr>w_db_calls := Suc (w_db_calls w), w_outbox := map ?cancel (w_outbox w)\<rparr>"
  have r1: "run (execute (cancel_previous_stmt k v ''superseded_by_newer_version'')) w = (Inr (), ?w1)"
    using assms(1,2,5) by (simp add: run_execute_healthy cancel_previous_stmt_def)
  have ids: "oe_outbox_id ` set (map ?cancel (w_outbox w)) = oe_outbox_id ` set (w_outbox w)"
    unfolding set_map image_image by (rule image_cong) simp_all
  have r2: "run (execute (insert_event_stmt et cid k v pl hs d)) ?w1 =
      insert_event_stmt et cid k v pl hs d (?w1\<lparr>w_db_calls := Suc (w_db_calls ?w1)\<rparr>)"
    using assms(1) by (intro run_execute_healthy) simp
  have "w_uuid_source w (w_uuids_drawn w) \<notin> oe_outbox_id ` set (map ?cancel (w_outbox w))"
    unfolding ids by (rule assms(8))
  then have r3: "insert_event_stmt et cid k v pl hs d (?w1\<lparr>w_db_calls := Suc (w_db_calls ?w1)\<rparr>) =
    (Inr (w_uuid_source w (w_uuids_drawn w)), ?w1\<lparr>w_db_calls := Suc (w_db_calls ?w1),
      w_uuids_drawn := Suc (w_uuids_drawn w), w_outbox := map ?cancel (w_outbox w) @
      [\<lparr>oe_outbox_id = w_uuid_source w (w_uuids_drawn w), oe_event_type = et, oe_correlation_id = cid,
        oe_pr_hash_key = Some k, oe_pr_version = Some v, oe_payload = pl, oe_headers = hs,
        oe_status = SCHEDULED, oe_dispatch_at = w_db_clock w + seconds d, oe_cancel_reason = None,
        oe_retry_count = 0, oe_max_retries = 3, oe_next_retry_at = None, oe_error_message = None,
        oe_created_at = w_db_clock w, oe_published_at = None\<rparr>]\<rparr>)"
    using assms(2-7) by (simp add: insert_event_stmt_def varchar_fits Let_def del: set_map)
  show ?thesis
    unfolding schedule_event_def run_and_then r1 prod.case sum.case r2 r3 unfolding cancel by simp
qed

text \<open>A row of version 1 that is scheduled, and the world that holds it.\<close>

definition first_version :: outbox_event where
  "first_version = scheduled_row 1 ''vcs.webhook.received'' 2 ''key'' JNull (JObj []) 30 0"

definition versions_world :: world where
  "versions_world = sample_world\<lparr>w_outbox := [first_version]\<rparr>"

theorem schedule_event_supersedes_witness:
  "map oe_status (w_outbox (snd (run (schedule_event ''e'' 3 ''key'' 2 JNull (JObj []) 30) versions_world))) =
     [CANCELLED, SCHEDULED]"
proof -
  have w: "healthy versions_world" "py_len ''key'' \<le> 64" "fits_int4 2"
    "w_uuid_source versions_world (w_uuids_drawn versions_world) \<notin> oe_outbox_id ` set (w_outbox versions_world)"
    by (simp_all add: versions_world_def healthy_def sample_world_def py_len_def is_continuation_def fits_int4_def
        first_version_def scheduled_row_def)
  have "w_outbox versions_world = [first_version]" by (simp add: versions_world_def)
  moreover have "superseded ''key'' 2 first_version" by (simp add: superseded_def first_version_def scheduled_row_def)
  ultimately show ?thesis
    using schedule_event_supersedes [OF w(1,3,2) _ _ _ _ w(4), of "''e''" JNull "JObj []" 3 30] by simp
qed

section \<open>Retries\<close>

text \<open>C35: The delay before a retry is at least a minute, at most an hour, does not fall from one
  attempt to the next, and doubles until it reaches the hour.\<close>

theorem backoff_bounds:
  assumes "0 \<le> n"
  shows "60 \<le> backoff n \<and> backoff n \<le> max_backoff_seconds \<and> backoff n \<le> backoff (n + 1) \<and>
    (backoff (n + 1) < max_backoff_seconds \<longrightarrow> backoff (n + 1) = 2 * backoff n)"
proof -
  have nat: "nat (n + 1) = Suc (nat n)" "nat (2 + n) = Suc (Suc (nat n))" "nat (n + 1 + 1) = Suc (Suc (nat n))"
    using assms by simp_all
  have "1 \<le> (2 :: int) ^ nat n" by simp
  then show ?thesis by (auto simp: backoff_def max_backoff_seconds_def nat min_def)
qed

theorem backoff_bounds_witness:
  "60 \<le> backoff 0 \<and> backoff 0 \<le> max_backoff_seconds \<and> backoff 0 \<le> backoff 1 \<and> backoff 1 = 120"
proof -
  have "backoff 1 = 120" by (simp add: backoff_def max_backoff_seconds_def)
  then show ?thesis using backoff_bounds [of 0] by simp
qed

section \<open>A batch\<close>



text \<open>C20: When the broker fails to take a message, the row is not lost and the batch goes on: the
  third failed attempt marks it failed, an earlier one schedules the next attempt after the
  backoff, and the publisher forgets its channel.\<close>

theorem broker_failure_schedules_retry:
  assumes "dispatching p x w" and "w_amqp_faults w (w_amqp_calls w) = Fault ap False"
    and "oe_headers r = JObj d"
  shows "\<exists>v. run (process_row pf p ex r) w = (Inr (), v) \<and>
    dispatching p (x\<lparr>tx_writes := tx_writes x @
      [(oe_outbox_id r,
        if oe_max_retries r \<le> oe_retry_count r + 1 then MarkFailed (exc_text pf AmqpError)
        else MarkRetry (exc_text pf AmqpError) (w_app_clock w + seconds (backoff (oe_retry_count r))))]\<rparr>) v \<and>
    w_publishers v p = \<lparr>ps_channel = None, ps_exchange = None\<rparr>"
  using run_process_row_failed [OF assms, where pf = pf and ex = ex] unfolding failure_write_def by metis

definition broken_world :: world where
  "broken_world = sample_world\<lparr>w_txs := [(0, \<lparr>tx_now = 0, tx_locks = [1], tx_writes = [], tx_aborted = False\<rparr>)],
     w_amqp_faults := (\<lambda>n. Fault False False)\<rparr>"

theorem broker_failure_schedules_retry_witness:
  "\<exists>v. run (process_row sample_platform 0 (7, ''x'') first_version) broken_world = (Inr (), v) \<and>
    (\<exists>y. tx_of v 0 = Some y \<and> tx_writes y = [(1, MarkRetry ''error'' (seconds 60))])"
proof -
  have "dispatching 0 \<lparr>tx_now = 0, tx_locks = [1], tx_writes = [], tx_aborted = False\<rparr> broken_world"
    by (simp add: dispatching_def broken_world_def tx_of_def) (simp add: sample_world_def)
  moreover have "w_amqp_faults broken_world (w_amqp_calls broken_world) = Fault False False"
    by (simp add: broken_world_def)
  moreover have "oe_headers first_version = JObj []" by (simp add: first_version_def scheduled_row_def)
  moreover have "w_app_clock broken_world + seconds (backoff (oe_retry_count first_version)) = seconds 60"
    "exc_text sample_platform AmqpError = ''error''" "oe_outbox_id first_version = 1"
    "\<not> oe_max_retries first_version \<le> oe_retry_count first_version + 1"
    by (simp_all add: broken_world_def sample_world_def first_version_def scheduled_row_def backoff_def
        max_backoff_seconds_def sample_platform_def)
  ultimately show ?thesis
    using broker_failure_schedules_retry [of 0 _ broken_world False first_version "[]" sample_platform "(7, ''x'')"]
    by (auto simp: dispatching_def)
qed

text \<open>The fourth call to the database (the update after the message was taken) fails.\<close>

definition failing_world :: world where
  "failing_world = sample_later\<lparr>w_db_faults := (\<lambda>n. if n = 3 then Fault False False else NoFault)\<rparr>"




section \<open>The polling loop\<close>

text \<open>No call and no sleep is cancelled; calls may fail.\<close>

definition calm :: "world \<Rightarrow> bool" where
  "calm w \<longleftrightarrow> (\<forall>n ap. w_db_faults w n \<noteq> Fault ap True \<and> w_amqp_faults w n \<noteq> Fault ap True) \<and>
     (\<forall>n. \<not> w_sleep_cancelled w n)"

definition proceeds :: "'a io \<Rightarrow> bool" where
  "proceeds p \<longleftrightarrow> (\<forall>w. calm w \<longrightarrow> calm (snd (run p w)) \<and> w_sleeps (snd (run p w)) = w_sleeps w \<and>
     fst (run p w) \<noteq> Inl Cancelled)"

named_theorems proceeds_intros \<open>introduction rules for programs that no error cancels\<close>

lemma proceedsD:
  assumes "proceeds p" and "calm w" and "run p w = (r, v)"
  shows "calm v" "w_sleeps v = w_sleeps w" "r \<noteq> Inl Cancelled"
  using assms unfolding proceeds_def by (metis fst_conv snd_conv)+

lemma proceeds_atomic:
  "(\<And>w. calm w \<Longrightarrow> calm (snd (f w)) \<and> w_sleeps (snd (f w)) = w_sleeps w \<and> fst (f w) \<noteq> Inl Cancelled) \<Longrightarrow> proceeds (atomic f)"
  by (simp add: proceeds_def)

lemma proceeds_Done [proceeds_intros]: "r \<noteq> Inl Cancelled \<Longrightarrow> proceeds (Done r)"
  by (simp add: proceeds_def)

lemma proceeds_attempt:
  assumes "proceeds p" and "\<And>r. r \<noteq> Inl Cancelled \<Longrightarrow> proceeds (h r)"
  shows "proceeds (attempt p h)"
  unfolding proceeds_def
proof (intro allI impI)
  fix w assume w: "calm w"
  obtain r v where rv: "run p w = (r, v)" by (cases "run p w")
  have v: "calm v" "w_sleeps v = w_sleeps w" "r \<noteq> Inl Cancelled"
    using proceedsD [OF assms(1) w rv] by blast+
  obtain s u where su: "run (h r) v = (s, u)" by (cases "run (h r) v")
  then show "calm (snd (run (attempt p h) w)) \<and> w_sleeps (snd (run (attempt p h) w)) = w_sleeps w \<and>
      fst (run (attempt p h) w) \<noteq> Inl Cancelled"
    using proceedsD [OF assms(2) [OF v(3)] v(1) su] v(2) by (simp add: run_attempt rv)
qed

lemma proceeds_and_then [proceeds_intros]: "proceeds p \<Longrightarrow> (\<And>x. proceeds (k x)) \<Longrightarrow> proceeds (and_then p k)"
  unfolding and_then_def by (rule proceeds_attempt) (auto intro: proceeds_Done split: sum.split)

lemma proceeds_except [proceeds_intros]: "proceeds p \<Longrightarrow> (\<And>e. proceeds (h e)) \<Longrightarrow> proceeds (except_exception p h)"
  unfolding except_exception_def on_error_def
  by (rule proceeds_attempt) (auto intro: proceeds_Done simp: is_exception_def split: sum.split)

lemma proceeds_for_each [proceeds_intros]: "(\<And>x. proceeds (body x)) \<Longrightarrow> proceeds (for_each xs body)"
  by (induction xs) (auto intro!: proceeds_intros)

definition same_schedule :: "world \<Rightarrow> world \<Rightarrow> bool" where
  "same_schedule w v \<longleftrightarrow> w_db_faults v = w_db_faults w \<and> w_amqp_faults v = w_amqp_faults w \<and>
     w_sleep_cancelled v = w_sleep_cancelled w \<and> w_sleeps v = w_sleeps w"

lemma proceeds_action:
  assumes "\<And>w. same_schedule w (snd (f w))"
    and "\<And>w. fst (f w) = Inl Cancelled \<Longrightarrow> \<exists>n ap. w_db_faults w n = Fault ap True \<or> w_amqp_faults w n = Fault ap True"
  shows "proceeds (atomic f)"
proof (rule proceeds_atomic)
  fix w assume w: "calm w"
  then have "fst (f w) \<noteq> Inl Cancelled" using assms(2) [of w] unfolding calm_def by blast
  then show "calm (snd (f w)) \<and> w_sleeps (snd (f w)) = w_sleeps w \<and> fst (f w) \<noteq> Inl Cancelled"
    using w assms(1) [of w] by (simp add: calm_def same_schedule_def)
qed

lemma proceeds_tx:
  assumes "\<And>x w. fst (f x w) \<noteq> Inl Cancelled"
  shows "proceeds (atomic (tx_stmt p f))"
proof (rule proceeds_action)
  fix w
  show "same_schedule w (snd (tx_stmt p f w))"
    by (simp add: tx_stmt_def Let_def same_schedule_def abort_tx_def set_tx_def tx_of_def
      split: option.split fault.split prod.split sum.split)
  show "\<exists>n ap. w_db_faults w n = Fault ap True \<or> w_amqp_faults w n = Fault ap True"
    if "fst (tx_stmt p f w) = Inl Cancelled"
    using that assms
    by (auto simp: tx_stmt_def Let_def split: option.splits fault.splits prod.splits sum.splits if_splits) (metis fst_conv)+
qed

lemma proceeds_leaves [proceeds_intros]:
  "proceeds (begin_tx p)" "proceeds (rollback_to p n)" "proceeds (commit_tx p)" "proceeds (rollback_tx p)"
  "proceeds utc_now" "proceeds (set_publisher p s)" "proceeds (get_publisher p)"
  "proceeds open_channel" "proceeds (get_exchange c name)" "proceeds (exchange_publish x rk body hs)"
  unfolding begin_tx_def rollback_to_def commit_tx_def rollback_tx_def utc_now_def set_publisher_def get_publisher_def
    open_channel_def get_exchange_def exchange_publish_def
  by (rule proceeds_action,
      simp add: rollback_to_stmt_def commit_stmt_def end_tx_def db_call_def amqp_call_def served_def same_schedule_def
        set_tx_def abort_tx_def tx_of_def Let_def split: option.split fault.split,
      auto simp: rollback_to_stmt_def commit_stmt_def db_call_def amqp_call_def served_def Let_def
        split: option.splits fault.splits if_splits)+

lemma proceeds_tx_leaves [proceeds_intros]:
  "proceeds (select_due p n)" "proceeds (savepoint p)" "proceeds (release_savepoint p)"
  "proceeds (mark_dispatched p i)" "proceeds (mark_failed p i m)" "proceeds (mark_retry p i m t)"
  unfolding select_due_def savepoint_def release_savepoint_def mark_dispatched_def mark_failed_def mark_retry_def mark_def
  by (rule proceeds_tx, simp add: Let_def)+

lemma proceeds_batch: "proceeds (process_batch pf p name n)"
proof -
  have row: "proceeds (process_row pf p ex r)" for ex r
    unfolding process_row_def in_savepoint_def publish_row_def dispatch_failed_def reset_channel_def
    by (auto intro!: proceeds_intros proceeds_attempt split: json.split sum.split)
  have exchange: "proceeds (cached_exchange p name)"
    unfolding cached_exchange_def by (auto intro!: proceeds_intros split: option.split)
  show ?thesis
    unfolding process_batch_def in_transaction_def
    by (auto intro!: proceeds_intros proceeds_attempt row exchange split: sum.split)
qed

text \<open>C22: Without a cancellation the polling loop never ends early: whatever errors its batches
  raise, it executes every turn and sleeps once after each.\<close>

theorem publisher_loop_survives_errors:
  assumes "calm w"
  shows "\<exists>v. run (run_turns pf p name n k) w = (Inr (), v) \<and> w_sleeps v = w_sleeps w + k"
  using assms
proof (induction k arbitrary: w)
  case 0
  then show ?case by simp
next
  case (Suc k)
  obtain r u where ru: "run (process_batch pf p name n) w = (r, u)" by (cases "run (process_batch pf p name n) w")
  have u: "calm u" "w_sleeps u = w_sleeps w" "r \<noteq> Inl Cancelled"
    using proceedsD [OF proceeds_batch Suc.prems ru] by blast+
  let ?v = "snd (run (run_turn pf p name n) w)"
  have "run (run_turn pf p name n) w = (Inr Continue, ?v)" "w_sleeps ?v = Suc (w_sleeps w)" "calm ?v"
    using u by (cases r; simp add: run_turn_def run_attempt run_and_then ru reset_channel_def set_publisher_def sleep_def
        calm_def)+
  note v = this
  obtain v where "run (run_turns pf p name n k) ?v = (Inr (), v)" "w_sleeps v = w_sleeps ?v + k"
    using Suc.IH [OF v(3)] by blast
  then show ?case
    by (intro exI [of _ v]) (simp add: run_and_then v(2), subst v(1), simp)
qed

theorem publisher_loop_survives_errors_witness:
  "\<exists>v. run (run_turns sample_platform 0 ''vcs.webhook.received'' 50 100) failing_world = (Inr (), v) \<and>
    w_sleeps v = w_sleeps failing_world + 100"
proof -
  have "calm failing_world" by (simp add: failing_world_def calm_def sample_later_def)
  then show ?thesis by (rule publisher_loop_survives_errors)
qed

end
