(* ===== verification/Schema.thy ===== *)
theory Schema
  imports Outbox Requests Signature
begin

text \<open>
  The migrations \<open>src/migrations/versions/0001_initial.py\<close> and \<open>0002_seed_shared_schema.py\<close>: the
  DDL as data, the statements as partial functions on a catalog (PostgreSQL's documented
  behaviour of \<open>IF NOT EXISTS\<close>, \<open>IF EXISTS\<close>, \<open>RESTRICT\<close> and \<open>ON CONFLICT\<close>), and the
  seeded rows. A migration stops at its first error. Of the rows, those of the seeded tables are
  part of the catalog.
\<close>

section \<open>Tables as data\<close>

datatype sql_type = UUID | TEXT | VARCHAR nat | INTEGER | JSONB | BOOLEAN | TIMESTAMPTZ

datatype sql_default =
    GenRandomUuid
  | Now
  | NowPlusSeconds int
  | TextDefault string
  | IntDefault int
  | BoolDefault bool
  | JsonDefault json

record column =
  col_name :: string
  col_type :: sql_type
  col_not_null :: bool
  col_default :: "sql_default option"
  col_references :: "(string \<times> string) option"

record table =
  tab_schema :: string
  tab_name :: string
  tab_columns :: "column list"
  tab_primary_key :: string
  tab_uniques :: "string list list"
  tab_check :: "(string \<times> string list) option"

record index =
  idx_schema :: string
  idx_table :: string
  idx_name :: string
  idx_unique :: bool
  idx_columns :: "string list"
  idx_where :: "(string \<times> string) option"

definition column :: "string \<Rightarrow> sql_type \<Rightarrow> column" where
  "column n t = \<lparr>col_name = n, col_type = t, col_not_null = False, col_default = None, col_references = None\<rparr>"

definition not_null :: "column \<Rightarrow> column" where
  "not_null c = c\<lparr>col_not_null := True\<rparr>"

definition default :: "sql_default \<Rightarrow> column \<Rightarrow> column" where
  "default d c = c\<lparr>col_default := Some d\<rparr>"

definition references :: "string \<Rightarrow> string \<Rightarrow> column \<Rightarrow> column" where
  "references s t c = c\<lparr>col_references := Some (s, t)\<rparr>"

text \<open>\<open>UUID PRIMARY KEY DEFAULT gen_random_uuid()\<close> and the two audit columns.\<close>

definition id_column :: "string \<Rightarrow> column" where
  "id_column n = default GenRandomUuid (not_null (column n UUID))"

definition audit_columns :: "column list" where
  "audit_columns =
     [default Now (not_null (column ''created_at'' TIMESTAMPTZ)),
      default Now (not_null (column ''updated_at'' TIMESTAMPTZ))]"

section \<open>Migration 0001\<close>

definition gateway_schema :: string where
  "gateway_schema = ''vcs_gateway_schema''"

definition outbox_event_table :: table where
  "outbox_event_table =
     \<lparr>tab_schema = gateway_schema, tab_name = ''outbox_event'',
      tab_columns =
        [id_column ''outbox_id'',
         not_null (column ''event_type'' TEXT),
         not_null (column ''correlation_id'' UUID),
         column ''pr_hash_key'' (VARCHAR 64),
         column ''pr_version'' INTEGER,
         not_null (column ''payload'' JSONB),
         default (JsonDefault (JObj [])) (not_null (column ''headers'' JSONB)),
         default (TextDefault ''SCHEDULED'') (not_null (column ''status'' (VARCHAR 20))),
         default (NowPlusSeconds 30) (not_null (column ''dispatch_at'' TIMESTAMPTZ)),
         column ''cancel_reason'' (VARCHAR 50),
         default (IntDefault 0) (not_null (column ''retry_count'' INTEGER)),
         default (IntDefault 3) (not_null (column ''max_retries'' INTEGER)),
         column ''next_retry_at'' TIMESTAMPTZ,
         column ''error_message'' TEXT,
         default Now (not_null (column ''created_at'' TIMESTAMPTZ)),
         column ''published_at'' TIMESTAMPTZ],
      tab_primary_key = ''outbox_id'', tab_uniques = [],
      tab_check = Some (''status'', [''SCHEDULED'', ''CANCELLED'', ''DISPATCHED'', ''FAILED''])\<rparr>"

definition outbox_indexes :: "index list" where
  "outbox_indexes =
     [\<lparr>idx_schema = gateway_schema, idx_table = ''outbox_event'', idx_name = ''idx_outbox_scheduled'',
       idx_unique = False, idx_columns = [''dispatch_at''], idx_where = Some (''status'', ''SCHEDULED'')\<rparr>]"

definition inbound_event_table :: table where
  "inbound_event_table =
     \<lparr>tab_schema = gateway_schema, tab_name = ''inbound_event'',
      tab_columns =
        [id_column ''event_id'',
         not_null (column ''correlation_id'' UUID),
         not_null (column ''tenant_id'' UUID),
         not_null (column ''vcs_provider'' (VARCHAR 50)),
         default (TextDefault ''github.com'') (not_null (column ''vcs_instance_id'' (VARCHAR 255))),
         not_null (column ''repo_id'' (VARCHAR 255)),
         column ''repo_name'' (VARCHAR 500),
         not_null (column ''pr_id'' (VARCHAR 255)),
         column ''pr_title'' TEXT,
         column ''pr_author'' (VARCHAR 255),
         column ''pr_url'' (VARCHAR 1000),
         not_null (column ''commit_sha'' (VARCHAR 64)),
         not_null (column ''action'' (VARCHAR 50)),
         not_null (column ''pr_hash_key'' (VARCHAR 64)),
         default (IntDefault 1) (not_null (column ''pr_version'' INTEGER)),
         default (TextDefault ''accepted'') (not_null (column ''processing_status'' (VARCHAR 50))),
         column ''rejection_reason'' (VARCHAR 255),
         not_null (column ''raw_payload'' JSONB),
         column ''webhook_headers'' JSONB] @ audit_columns,
      tab_primary_key = ''event_id'', tab_uniques = [],
      tab_check = Some (''processing_status'', [''accepted'', ''rejected'', ''duplicate''])\<rparr>"

definition inbound_index :: "string \<Rightarrow> bool \<Rightarrow> string list \<Rightarrow> index" where
  "inbound_index n uq cols =
     \<lparr>idx_schema = gateway_schema, idx_table = ''inbound_event'', idx_name = n, idx_unique = uq,
      idx_columns = cols, idx_where = None\<rparr>"

definition inbound_indexes :: "index list" where
  "inbound_indexes =
     [inbound_index ''uq_inbound_event_correlation_id'' True [''correlation_id''],
      inbound_index ''uq_inbound_event_pr_hash_key'' True [''pr_hash_key''],
      inbound_index ''idx_inbound_event_tenant_created'' False [''tenant_id'', ''created_at''],
      inbound_index ''idx_inbound_event_tenant_pr'' False [''tenant_id'', ''pr_id''],
      inbound_index ''idx_inbound_event_status_created'' False [''processing_status'', ''created_at'']]"

section \<open>The tables of migration 0002\<close>

definition shared_schema :: string where
  "shared_schema = ''shared_schema''"

definition customer_table :: table where
  "customer_table =
     \<lparr>tab_schema = shared_schema, tab_name = ''customer'',
      tab_columns =
        [id_column ''customer_id'',
         not_null (column ''company_name'' (VARCHAR 255)),
         not_null (column ''contact_email'' (VARCHAR 255)),
         column ''billing_email'' (VARCHAR 255),
         default (TextDefault ''starter'') (not_null (column ''plan_type'' (VARCHAR 50))),
         default (BoolDefault True) (not_null (column ''is_active'' BOOLEAN))] @ audit_columns,
      tab_primary_key = ''customer_id'', tab_uniques = [[''contact_email'']], tab_check = None\<rparr>"

definition tenant_table :: table where
  "tenant_table =
     \<lparr>tab_schema = shared_schema, tab_name = ''tenant'',
      tab_columns =
        [id_column ''tenant_id'',
         references shared_schema ''customer'' (not_null (column ''customer_id'' UUID)),
         not_null (column ''tenant_name'' (VARCHAR 255)),
         not_null (column ''slug'' (VARCHAR 100)),
         default (BoolDefault True) (not_null (column ''is_active'' BOOLEAN)),
         not_null (column ''webhook_secret'' (VARCHAR 255))] @ audit_columns,
      tab_primary_key = ''tenant_id'', tab_uniques = [[''slug'']], tab_check = None\<rparr>"

definition tenant_vcs_config_table :: table where
  "tenant_vcs_config_table =
     \<lparr>tab_schema = shared_schema, tab_name = ''tenant_vcs_config'',
      tab_columns =
        [id_column ''config_id'',
         references shared_schema ''tenant'' (not_null (column ''tenant_id'' UUID)),
         not_null (column ''vcs_provider'' (VARCHAR 50)),
         default (TextDefault ''github.com'') (not_null (column ''vcs_instance_id'' (VARCHAR 255))),
         not_null (column ''repo_id'' (VARCHAR 255)),
         column ''repo_name'' (VARCHAR 500),
         column ''repo_url'' (VARCHAR 1000),
         default (BoolDefault True) (not_null (column ''is_active'' BOOLEAN))] @ audit_columns,
      tab_primary_key = ''config_id'', tab_uniques = [[''tenant_id'', ''vcs_provider'', ''repo_id'']],
      tab_check = None\<rparr>"

definition vcs_event_whitelist_table :: table where
  "vcs_event_whitelist_table =
     \<lparr>tab_schema = shared_schema, tab_name = ''vcs_event_whitelist'',
      tab_columns =
        [id_column ''whitelist_id'',
         not_null (column ''vcs_provider'' (VARCHAR 50)),
         not_null (column ''event_type'' (VARCHAR 100)),
         not_null (column ''event_action'' (VARCHAR 100)),
         default (BoolDefault True) (not_null (column ''is_active'' BOOLEAN)),
         column ''description'' TEXT] @ audit_columns,
      tab_primary_key = ''whitelist_id'',
      tab_uniques = [[''vcs_provider'', ''event_type'', ''event_action'']], tab_check = None\<rparr>"

definition shared_index :: "string \<Rightarrow> string \<Rightarrow> string list \<Rightarrow> (string \<times> string) option \<Rightarrow> index" where
  "shared_index n t cols cond =
     \<lparr>idx_schema = shared_schema, idx_table = t, idx_name = n, idx_unique = False, idx_columns = cols,
      idx_where = cond\<rparr>"

section \<open>The catalog and its statements\<close>

record seed_customer =
  sc_customer_id :: uuid
  sc_company_name :: string
  sc_contact_email :: string
  sc_plan_type :: string
  sc_is_active :: bool

record seed_tenant =
  st_tenant_id :: uuid
  st_customer_id :: uuid
  st_tenant_name :: string
  st_slug :: string
  st_is_active :: bool
  st_webhook_secret :: string

record catalog =
  cat_schemas :: "string list"
  cat_tables :: "table list"
  cat_indexes :: "index list"
  cat_whitelist :: "whitelist_entry list"
  cat_customers :: "seed_customer list"
  cat_tenants :: "seed_tenant list"
  cat_uuid_source :: "nat \<Rightarrow> uuid"
  cat_uuids_drawn :: nat

type_synonym ddl = "catalog \<Rightarrow> string + catalog"

definition find_table :: "string \<Rightarrow> string \<Rightarrow> catalog \<Rightarrow> table option" where
  "find_table s t c = find (\<lambda>x. tab_schema x = s \<and> tab_name x = t) (cat_tables c)"

definition has_index :: "string \<Rightarrow> string \<Rightarrow> catalog \<Rightarrow> bool" where
  "has_index s n c \<longleftrightarrow> list_ex (\<lambda>x. idx_schema x = s \<and> idx_name x = n) (cat_indexes c)"

definition referenced :: "table \<Rightarrow> (string \<times> string) list" where
  "referenced t = List.map_filter col_references (tab_columns t)"

definition create_schema :: "string \<Rightarrow> ddl" where
  "create_schema s c = Inr (if s \<in> set (cat_schemas c) then c else c\<lparr>cat_schemas := cat_schemas c @ [s]\<rparr>)"

definition create_table :: "table \<Rightarrow> ddl" where
  "create_table t c =
     (if find_table (tab_schema t) (tab_name t) c \<noteq> None then Inr c
      else if tab_schema t \<notin> set (cat_schemas c) then Inl ''schema does not exist''
      else if list_ex (\<lambda>(s, n). find_table s n c = None) (referenced t) then Inl ''relation does not exist''
      else Inr (c\<lparr>cat_tables := cat_tables c @ [t]\<rparr>))"

definition create_index :: "bool \<Rightarrow> index \<Rightarrow> ddl" where
  "create_index if_not_exists i c =
     (if has_index (idx_schema i) (idx_name i) c
      then if if_not_exists then Inr c else Inl ''relation already exists''
      else case find_table (idx_schema i) (idx_table i) c of
          None \<Rightarrow> Inl ''relation does not exist''
        | Some t \<Rightarrow>
            if set (idx_columns i) \<subseteq> col_name ` set (tab_columns t)
            then Inr (c\<lparr>cat_indexes := cat_indexes c @ [i]\<rparr>)
            else Inl ''column does not exist'')"

text \<open>\<open>DROP TABLE IF EXISTS\<close> removes the table, its indexes and its rows.\<close>

definition drop_table :: "string \<Rightarrow> string \<Rightarrow> ddl" where
  "drop_table s t c =
     (if find_table s t c = None then Inr c
      else if list_ex (\<lambda>x. (s, t) \<in> set (referenced x) \<and> (tab_schema x, tab_name x) \<noteq> (s, t)) (cat_tables c)
      then Inl ''other objects depend on it''
      else Inr (c\<lparr>
        cat_tables := filter (\<lambda>x. (tab_schema x, tab_name x) \<noteq> (s, t)) (cat_tables c),
        cat_indexes := filter (\<lambda>x. (idx_schema x, idx_table x) \<noteq> (s, t)) (cat_indexes c),
        cat_whitelist := if (s, t) = (shared_schema, ''vcs_event_whitelist'') then [] else cat_whitelist c,
        cat_customers := if (s, t) = (shared_schema, ''customer'') then [] else cat_customers c,
        cat_tenants := if (s, t) = (shared_schema, ''tenant'') then [] else cat_tenants c\<rparr>))"

definition drop_schema :: "string \<Rightarrow> ddl" where
  "drop_schema s c =
     (if list_ex (\<lambda>x. tab_schema x = s) (cat_tables c) then Inl ''other objects depend on it''
      else Inr (c\<lparr>cat_schemas := removeAll s (cat_schemas c)\<rparr>))"

text \<open>\<open>ON CONFLICT (cols)\<close> needs a unique constraint on these columns.\<close>

definition arbitrated :: "string \<Rightarrow> string list \<Rightarrow> catalog \<Rightarrow> bool" where
  "arbitrated t cols c \<longleftrightarrow>
     (case find_table shared_schema t c of None \<Rightarrow> False | Some x \<Rightarrow> cols \<in> set (tab_uniques x))"

definition insert_whitelist :: "(string \<times> string \<times> string) list \<Rightarrow> ddl" where
  "insert_whitelist rows c =
     (if \<not> arbitrated ''vcs_event_whitelist'' [''vcs_provider'', ''event_type'', ''event_action''] c
      then Inl ''no unique constraint matching the ON CONFLICT specification''
      else Inr (c\<lparr>cat_whitelist := foldl (\<lambda>acc (p, e, a).
          if list_ex (\<lambda>x. (wl_vcs_provider x, wl_event_type x, wl_event_action x) = (p, e, a)) acc then acc
          else acc @ [\<lparr>wl_vcs_provider = p, wl_event_type = e, wl_event_action = a, wl_is_active = True\<rparr>])
        (cat_whitelist c) rows\<rparr>))"

definition seeded_events :: "(string \<times> string \<times> string) list" where
  "seeded_events =
     [(''github'', ''pull_request'', ''opened''), (''github'', ''pull_request'', ''synchronize''),
      (''github'', ''pull_request'', ''reopened''), (''gitlab'', ''Merge Request Hook'', ''open''),
      (''gitlab'', ''Merge Request Hook'', ''update''), (''gitlab'', ''Merge Request Hook'', ''reopen'')]"

text \<open>
  The customer is inserted unless its address is taken; the tenant is inserted for a new
  customer only, unless its slug is taken.
\<close>

definition insert_test_tenant :: ddl where
  "insert_test_tenant c =
     (if \<not> arbitrated ''customer'' [''contact_email''] c \<or> \<not> arbitrated ''tenant'' [''slug''] c
      then Inl ''no unique constraint matching the ON CONFLICT specification''
      else if list_ex (\<lambda>x. sc_contact_email x = ''admin@acme.com'') (cat_customers c) then Inr c
      else
        let n = cat_uuids_drawn c; customer_id = cat_uuid_source c n; tenant_id = cat_uuid_source c (Suc n);
            customer = \<lparr>sc_customer_id = customer_id, sc_company_name = ''Acme Corp'',
              sc_contact_email = ''admin@acme.com'', sc_plan_type = ''growth'', sc_is_active = True\<rparr>;
            tenant = \<lparr>st_tenant_id = tenant_id, st_customer_id = customer_id, st_tenant_name = ''Acme Dev Team'',
              st_slug = ''acme-dev'', st_is_active = True, st_webhook_secret = ''test-secret-12345''\<rparr>
        in Inr (c\<lparr>cat_uuids_drawn := n + 2, cat_customers := cat_customers c @ [customer],
            cat_tenants := if list_ex (\<lambda>x. st_slug x = ''acme-dev'') (cat_tenants c) then cat_tenants c
                           else cat_tenants c @ [tenant]\<rparr>))"

section \<open>Upgrades and downgrades\<close>

fun migrate :: "ddl list \<Rightarrow> ddl" where
  "migrate [] c = Inr c"
| "migrate (f # fs) c = (case f c of Inl e \<Rightarrow> Inl e | Inr c' \<Rightarrow> migrate fs c')"

definition upgrade_0001 :: ddl where
  "upgrade_0001 = migrate
     ([create_schema gateway_schema, create_table outbox_event_table] @
      map (create_index False) outbox_indexes @
      [create_table inbound_event_table] @
      map (create_index False) inbound_indexes)"

definition downgrade_0001 :: ddl where
  "downgrade_0001 = migrate
     [drop_table gateway_schema ''inbound_event'', drop_table gateway_schema ''outbox_event'',
      drop_schema gateway_schema]"

definition create_shared_tables :: "ddl list" where
  "create_shared_tables =
     [create_schema shared_schema,
      create_table customer_table,
      create_index True (shared_index ''idx_customer_email'' ''customer'' [''contact_email''] None),
      create_table tenant_table,
      create_index True (shared_index ''idx_tenant_customer'' ''tenant'' [''customer_id''] None),
      create_index True (shared_index ''idx_tenant_slug'' ''tenant'' [''slug''] None),
      create_table tenant_vcs_config_table,
      create_index True (shared_index ''idx_tenant_vcs_config_tenant'' ''tenant_vcs_config'' [''tenant_id''] None),
      create_index True (shared_index ''idx_tenant_vcs_config_lookup'' ''tenant_vcs_config''
        [''tenant_id'', ''vcs_provider'', ''repo_id''] (Some (''is_active'', ''TRUE''))),
      create_table vcs_event_whitelist_table,
      create_index True (shared_index ''idx_vcs_event_whitelist_lookup'' ''vcs_event_whitelist''
        [''vcs_provider'', ''event_type'', ''event_action''] (Some (''is_active'', ''TRUE'')))]"

definition upgrade_0002 :: ddl where
  "upgrade_0002 = migrate (create_shared_tables @ [insert_whitelist seeded_events, insert_test_tenant])"

definition downgrade_0002 :: ddl where
  "downgrade_0002 = migrate
     [drop_table shared_schema ''tenant_vcs_config'', drop_table shared_schema ''vcs_event_whitelist'',
      drop_table shared_schema ''tenant'', drop_table shared_schema ''customer'']"

section \<open>Lemmas on catalogs\<close>

lemma find_append: "find P (xs @ ys) = (case find P xs of None \<Rightarrow> find P ys | Some x \<Rightarrow> Some x)"
  by (induction xs) auto

text \<open>Statements that only add.\<close>

definition grown :: "catalog \<Rightarrow> catalog \<Rightarrow> bool" where
  "grown c d \<longleftrightarrow> set (cat_schemas c) \<subseteq> set (cat_schemas d) \<and>
     (\<forall>s t x. find_table s t c = Some x \<longrightarrow> find_table s t d = Some x) \<and>
     (\<forall>s n. has_index s n c \<longrightarrow> has_index s n d) \<and>
     set (cat_whitelist c) \<subseteq> set (cat_whitelist d) \<and> set (cat_customers c) \<subseteq> set (cat_customers d) \<and>
     set (cat_tenants c) \<subseteq> set (cat_tenants d)"

lemma grown_refl: "grown c c"
  by (simp add: grown_def)

lemma grown_trans:
  assumes "grown c d" and "grown d e"
  shows "grown c e"
  unfolding grown_def
proof (intro conjI allI impI)
  show "set (cat_schemas c) \<subseteq> set (cat_schemas e)" "set (cat_whitelist c) \<subseteq> set (cat_whitelist e)"
    "set (cat_customers c) \<subseteq> set (cat_customers e)" "set (cat_tenants c) \<subseteq> set (cat_tenants e)"
    using assms unfolding grown_def by (meson subset_trans)+
qed (use assms in \<open>simp_all add: grown_def\<close>)

text \<open>A statement that changes nothing once it has been executed.\<close>

definition settling :: "ddl \<Rightarrow> bool" where
  "settling f \<longleftrightarrow> (\<forall>c c'. f c = Inr c' \<longrightarrow> grown c c' \<and> (\<forall>d. grown c' d \<longrightarrow> f d = Inr d))"

lemma settlingI:
  assumes "\<And>c c'. f c = Inr c' \<Longrightarrow> grown c c'" and "\<And>c c' d. f c = Inr c' \<Longrightarrow> grown c' d \<Longrightarrow> f d = Inr d"
  shows "settling f"
  unfolding settling_def using assms by blast

lemma settling_grown: "settling f \<Longrightarrow> f c = Inr c' \<Longrightarrow> grown c c'"
  by (simp add: settling_def)

lemma settling_again: "settling f \<Longrightarrow> f c = Inr c' \<Longrightarrow> grown c' d \<Longrightarrow> f d = Inr d"
  unfolding settling_def by blast

lemma migrate_settles: "list_all settling fs \<Longrightarrow> settling (migrate fs)"
proof (induction fs)
  case Nil
  then show ?case by (simp add: settling_def grown_refl)
next
  case (Cons f fs)
  then have f: "settling f" and fs: "settling (migrate fs)" by simp_all
  show ?case
  proof (rule settlingI)
    fix c c' assume "migrate (f # fs) c = Inr c'"
    then obtain c1 where c1: "f c = Inr c1" "migrate fs c1 = Inr c'" by (auto split: sum.splits)
    then have g: "grown c c1" "grown c1 c'" using settling_grown [OF f] settling_grown [OF fs] by blast+
    then show "grown c c'" by (rule grown_trans)
    fix d assume d: "grown c' d"
    with g(2) have "grown c1 d" by (rule grown_trans)
    then have "f d = Inr d" "migrate fs d = Inr d"
      using settling_again [OF f c1(1)] settling_again [OF fs c1(2) d] by blast+
    then show "migrate (f # fs) d = Inr d" by simp
  qed
qed

lemma settling_create_schema: "settling (create_schema s)"
  by (rule settlingI) (auto simp: create_schema_def grown_def find_table_def has_index_def split: if_splits)

lemma grown_create_table: "create_table t c = Inr c' \<Longrightarrow> grown c c'"
  by (auto simp: create_table_def grown_def find_table_def has_index_def find_append split: if_splits option.splits)

lemma settling_create_table: "settling (create_table t)"
proof (rule settlingI)
  fix c c' assume c': "create_table t c = Inr c'"
  then show "grown c c'" by (rule grown_create_table)
  have "\<exists>x. find_table (tab_schema t) (tab_name t) c' = Some x"
    using c' by (auto simp: create_table_def find_table_def find_append split: if_splits option.splits)
  then show "create_table t d = Inr d" if "grown c' d" for d
    using that by (auto simp: create_table_def grown_def)
qed

lemma has_index_create: "create_index b i c = Inr c' \<Longrightarrow> has_index (idx_schema i) (idx_name i) c' \<and> grown c c'"
  by (auto simp: create_index_def grown_def has_index_def find_table_def split: if_splits option.splits)

lemma settling_create_index: "settling (create_index True i)"
proof (rule settlingI)
  fix c c' assume c': "create_index True i c = Inr c'"
  then show "grown c c'" by (rule has_index_create [THEN conjunct2])
  show "create_index True i d = Inr d" if "grown c' d" for d
    using that has_index_create [OF c'] by (simp add: create_index_def grown_def)
qed

abbreviation wl_key :: "whitelist_entry \<Rightarrow> string \<times> string \<times> string" where
  "wl_key x \<equiv> (wl_vcs_provider x, wl_event_type x, wl_event_action x)"

definition add_event :: "whitelist_entry list \<Rightarrow> string \<times> string \<times> string \<Rightarrow> whitelist_entry list" where
  "add_event acc = (\<lambda>(p, e, a).
     if list_ex (\<lambda>x. (wl_vcs_provider x, wl_event_type x, wl_event_action x) = (p, e, a)) acc then acc
     else acc @ [\<lparr>wl_vcs_provider = p, wl_event_type = e, wl_event_action = a, wl_is_active = True\<rparr>])"

lemma add_event_keys: "wl_key ` set (add_event acc k) = insert k (wl_key ` set acc)"
  by (cases k) (force simp: add_event_def list_ex_iff)

lemma add_events_keys: "wl_key ` set (foldl add_event acc ks) = set ks \<union> wl_key ` set acc"
  by (induction ks arbitrary: acc) (auto simp: add_event_keys)

lemma add_events_mono: "set acc \<subseteq> set (foldl add_event acc ks)"
proof (induction ks arbitrary: acc)
  case (Cons k ks)
  have "set acc \<subseteq> set (add_event acc k)" by (cases k) (auto simp: add_event_def)
  then show ?case using Cons [of "add_event acc k"] by auto
qed simp

lemma add_events_known: "set ks \<subseteq> wl_key ` set acc \<Longrightarrow> foldl add_event acc ks = acc"
proof (induction ks)
  case (Cons k ks)
  then have "add_event acc k = acc" by (cases k) (auto simp: add_event_def list_ex_iff image_iff)
  then show ?case using Cons by simp
qed simp

lemma insert_whitelist_add:
  "insert_whitelist ks c =
     (if arbitrated ''vcs_event_whitelist'' [''vcs_provider'', ''event_type'', ''event_action''] c
      then Inr (c\<lparr>cat_whitelist := foldl add_event (cat_whitelist c) ks\<rparr>)
      else Inl ''no unique constraint matching the ON CONFLICT specification'')"
  by (simp add: insert_whitelist_def add_event_def [abs_def])

lemma arbitrated_mono: "arbitrated t cols c \<Longrightarrow> grown c d \<Longrightarrow> arbitrated t cols d"
  by (auto simp: arbitrated_def grown_def split: option.splits)

lemma arbitrated_update [simp]: "arbitrated t cols (c\<lparr>cat_whitelist := x\<rparr>) = arbitrated t cols c"
  "arbitrated t cols (c\<lparr>cat_customers := y\<rparr>) = arbitrated t cols c"
  "arbitrated t cols (c\<lparr>cat_tenants := z\<rparr>) = arbitrated t cols c"
  "arbitrated t cols (c\<lparr>cat_uuids_drawn := n\<rparr>) = arbitrated t cols c"
  by (simp_all add: arbitrated_def find_table_def)

lemma settling_insert_whitelist: "settling (insert_whitelist ks)"
proof (rule settlingI)
  fix c c' assume c': "insert_whitelist ks c = Inr c'"
  then have eq: "c' = c\<lparr>cat_whitelist := foldl add_event (cat_whitelist c) ks\<rparr>"
    and ok: "arbitrated ''vcs_event_whitelist'' [''vcs_provider'', ''event_type'', ''event_action''] c"
    by (simp_all add: insert_whitelist_add split: if_splits)
  show "grown c c'"
    unfolding eq using add_events_mono by (simp add: grown_def find_table_def has_index_def)
  fix d assume d: "grown c' d"
  have "set ks \<subseteq> wl_key ` set (cat_whitelist c')" using add_events_keys by (simp add: eq)
  then have "set ks \<subseteq> wl_key ` set (cat_whitelist d)" using d unfolding grown_def by blast
  moreover have "arbitrated ''vcs_event_whitelist'' [''vcs_provider'', ''event_type'', ''event_action''] d"
    using ok d by (intro arbitrated_mono [of _ _ c' d]) (simp_all add: eq)
  ultimately show "insert_whitelist ks d = Inr d"
    by (simp add: insert_whitelist_add add_events_known)
qed

lemma settling_insert_test_tenant: "settling insert_test_tenant"
proof (rule settlingI)
  fix c c' assume c': "insert_test_tenant c = Inr c'"
  have "arbitrated t cols c' = arbitrated t cols c" for t cols
    using c' by (auto simp: insert_test_tenant_def Let_def split: if_splits)
  moreover have ok: "arbitrated ''customer'' [''contact_email''] c" "arbitrated ''tenant'' [''slug''] c"
    using c' by (auto simp: insert_test_tenant_def split: if_splits)
  moreover have "list_ex (\<lambda>x. sc_contact_email x = ''admin@acme.com'') (cat_customers c')"
    using c' by (auto simp: insert_test_tenant_def Let_def split: if_splits)
  ultimately show "insert_test_tenant d = Inr d" if "grown c' d" for d
    using that arbitrated_mono [OF _ that] unfolding insert_test_tenant_def grown_def list_ex_iff by auto
  show "grown c c'"
    using c' by (auto simp: insert_test_tenant_def Let_def grown_def find_table_def has_index_def split: if_splits)
qed

section \<open>Properties of the migrations\<close>

text \<open>A catalog in which nothing belongs to schema \<open>s\<close>.\<close>

definition without_schema :: "string \<Rightarrow> catalog \<Rightarrow> bool" where
  "without_schema s c \<longleftrightarrow> s \<notin> set (cat_schemas c) \<and> (\<forall>t \<in> set (cat_tables c). tab_schema t \<noteq> s) \<and>
     (\<forall>i \<in> set (cat_indexes c). idx_schema i \<noteq> s) \<and>
     (\<forall>t \<in> set (cat_tables c). \<forall>n. (s, n) \<notin> set (referenced t))"

lemma without_schema_table: "without_schema s c \<Longrightarrow> find_table s n c = None"
  by (auto simp: without_schema_def find_table_def find_None_iff)

lemma without_schema_index: "without_schema s c \<Longrightarrow> \<not> list_ex (\<lambda>x. idx_schema x = s \<and> idx_name x = n) (cat_indexes c)"
  by (auto simp: without_schema_def list_ex_iff)

lemma gateway_tables [simp]:
  "referenced outbox_event_table = []" "referenced inbound_event_table = []"
  "tab_schema outbox_event_table = gateway_schema" "tab_schema inbound_event_table = gateway_schema"
  "tab_name outbox_event_table = ''outbox_event''" "tab_name inbound_event_table = ''inbound_event''"
  by (simp_all add: referenced_def outbox_event_table_def inbound_event_table_def id_column_def audit_columns_def
      column_def not_null_def default_def map_filter_simps)

lemma gateway_columns:
  "col_name ` set (tab_columns outbox_event_table) = {''outbox_id'', ''event_type'', ''correlation_id'', ''pr_hash_key'',
     ''pr_version'', ''payload'', ''headers'', ''status'', ''dispatch_at'', ''cancel_reason'', ''retry_count'',
     ''max_retries'', ''next_retry_at'', ''error_message'', ''created_at'', ''published_at''}"
  "{''correlation_id'', ''pr_hash_key'', ''tenant_id'', ''pr_id'', ''processing_status'', ''created_at''} \<subseteq>
     col_name ` set (tab_columns inbound_event_table)"
  by (simp_all add: outbox_event_table_def inbound_event_table_def id_column_def audit_columns_def
      column_def not_null_def default_def)

definition after_0001 :: "catalog \<Rightarrow> catalog" where
  "after_0001 c = c\<lparr>cat_schemas := cat_schemas c @ [gateway_schema],
     cat_tables := cat_tables c @ [outbox_event_table, inbound_event_table],
     cat_indexes := cat_indexes c @ outbox_indexes @ inbound_indexes\<rparr>"

lemma find_gateway:
  assumes "without_schema gateway_schema c"
  shows "find (\<lambda>x. tab_schema x = gateway_schema \<and> tab_name x = n) (cat_tables c) = None"
  using without_schema_table [OF assms] by (simp add: find_table_def)

lemma upgrade_0001_fresh:
  assumes "without_schema gateway_schema c"
  shows "upgrade_0001 c = Inr (after_0001 c)"
proof -
  have "gateway_schema \<notin> set (cat_schemas c)" using assms by (simp add: without_schema_def)
  then show ?thesis
    using find_gateway [OF assms] without_schema_index [OF assms] gateway_columns(2)
    by (simp add: upgrade_0001_def create_schema_def create_table_def create_index_def outbox_indexes_def
        inbound_indexes_def inbound_index_def find_table_def find_append has_index_def gateway_columns(1) after_0001_def)
qed

lemma downgrade_after_0001:
  assumes "without_schema gateway_schema c"
  shows "downgrade_0001 (after_0001 c) = Inr c"
proof -
  let ?c1 = "c\<lparr>cat_schemas := cat_schemas c @ [gateway_schema], cat_tables := cat_tables c @ [outbox_event_table],
    cat_indexes := cat_indexes c @ outbox_indexes\<rparr>"
  have s: "\<forall>t \<in> set (cat_tables c). tab_schema t \<noteq> gateway_schema" "\<forall>i \<in> set (cat_indexes c). idx_schema i \<noteq> gateway_schema"
    "gateway_schema \<notin> set (cat_schemas c)" "\<forall>t \<in> set (cat_tables c). \<forall>n. (gateway_schema, n) \<notin> set (referenced t)"
    using assms by (simp_all add: without_schema_def)
  then have keep: "filter (\<lambda>x. tab_schema x = gateway_schema \<longrightarrow> P x) (cat_tables c) = cat_tables c"
    "filter (\<lambda>x. idx_schema x = gateway_schema \<longrightarrow> Q x) (cat_indexes c) = cat_indexes c" for P Q
    by (simp_all add: filter_id_conv)
  have free: "\<not> list_ex (\<lambda>x. (gateway_schema, n) \<in> set (referenced x) \<and> P x) (cat_tables c)" for n P
    using s(4) by (auto simp: list_ex_iff)
  have "gateway_schema \<noteq> shared_schema" by (simp add: gateway_schema_def shared_schema_def)
  then have "drop_table gateway_schema ''inbound_event'' (after_0001 c) = Inr ?c1"
    using keep free find_gateway [OF assms]
    by (simp add: drop_table_def after_0001_def find_table_def find_append outbox_indexes_def inbound_indexes_def inbound_index_def)
  moreover have "drop_table gateway_schema ''outbox_event'' ?c1 = Inr (c\<lparr>cat_schemas := cat_schemas c @ [gateway_schema]\<rparr>)"
    using keep free find_gateway [OF assms] \<open>gateway_schema \<noteq> shared_schema\<close>
    by (simp add: drop_table_def find_table_def find_append outbox_indexes_def)
  moreover have "drop_schema gateway_schema (c\<lparr>cat_schemas := cat_schemas c @ [gateway_schema]\<rparr>) = Inr c"
    using s(1,3) by (simp add: drop_schema_def list_ex_iff)
  ultimately show ?thesis by (simp add: downgrade_0001_def)
qed

text \<open>C32: On a database without the gateway's schema the first migration succeeds, creates the
  two tables as declared, and its downgrade restores the database exactly; executed a second
  time it stops at the first index, whose creation is not guarded.\<close>

theorem initial_migration_roundtrip:
  assumes "without_schema gateway_schema c"
  shows "\<exists>c'. upgrade_0001 c = Inr c' \<and>
    find_table gateway_schema ''outbox_event'' c' = Some outbox_event_table \<and>
    find_table gateway_schema ''inbound_event'' c' = Some inbound_event_table \<and>
    downgrade_0001 c' = Inr c \<and> upgrade_0001 c' = Inl ''relation already exists''"
proof (intro exI [of _ "after_0001 c"] conjI upgrade_0001_fresh downgrade_after_0001 assms)
  show tabs: "find_table gateway_schema ''outbox_event'' (after_0001 c) = Some outbox_event_table"
    "find_table gateway_schema ''inbound_event'' (after_0001 c) = Some inbound_event_table"
    using find_gateway [OF assms] by (simp_all add: after_0001_def find_table_def find_append)
  have "has_index gateway_schema ''idx_outbox_scheduled'' (after_0001 c)"
    by (simp add: has_index_def after_0001_def outbox_indexes_def)
  moreover have "gateway_schema \<in> set (cat_schemas (after_0001 c))" by (simp add: after_0001_def)
  ultimately show "upgrade_0001 (after_0001 c) = Inl ''relation already exists''"
    using tabs by (simp add: upgrade_0001_def create_schema_def create_table_def create_index_def outbox_indexes_def)
qed

definition blank_catalog :: catalog where
  "blank_catalog = \<lparr>cat_schemas = [''public''], cat_tables = [], cat_indexes = [], cat_whitelist = [],
     cat_customers = [], cat_tenants = [], cat_uuid_source = of_nat, cat_uuids_drawn = 0\<rparr>"

lemma blank_without: "s \<noteq> ''public'' \<Longrightarrow> without_schema s blank_catalog"
  by (simp add: without_schema_def blank_catalog_def)

theorem initial_migration_roundtrip_witness:
  "\<exists>c'. upgrade_0001 blank_catalog = Inr c' \<and> downgrade_0001 c' = Inr blank_catalog"
  using initial_migration_roundtrip [OF blank_without [of gateway_schema]] by (auto simp: gateway_schema_def)

lemma settling_upgrade_0002: "settling upgrade_0002"
  by (simp add: upgrade_0002_def create_shared_tables_def migrate_settles settling_create_schema settling_create_table settling_create_index
      settling_insert_whitelist settling_insert_test_tenant del: migrate.simps)

lemma migrate_append: "migrate (fs @ gs) c = (case migrate fs c of Inl e \<Rightarrow> Inl e | Inr c' \<Rightarrow> migrate gs c')"
  by (induction fs arbitrary: c) (auto split: sum.split)

lemma blank_seeded: "\<exists>c'. upgrade_0002 blank_catalog = Inr c'"
proof -
  have "case upgrade_0002 blank_catalog of Inl _ \<Rightarrow> False | Inr _ \<Rightarrow> True" by code_simp
  then show ?thesis by (auto split: sum.splits)
qed

text \<open>The seed migration is idempotent: executed on the database it has produced, it changes
  nothing, and it only ever adds to a database.\<close>

theorem seed_migration_idempotent:
  assumes "upgrade_0002 c = Inr c'"
  shows "upgrade_0002 c' = Inr c' \<and> grown c c'"
  using settling_grown [OF settling_upgrade_0002 assms] settling_again [OF settling_upgrade_0002 assms grown_refl] by blast

text \<open>The statements before the two inserts leave the rows alone.\<close>

definition keeps_rows :: "ddl \<Rightarrow> bool" where
  "keeps_rows f \<longleftrightarrow> (\<forall>c c'. f c = Inr c' \<longrightarrow> cat_whitelist c' = cat_whitelist c \<and>
     cat_customers c' = cat_customers c \<and> cat_tenants c' = cat_tenants c)"

lemma keeps_rows_create:
  "keeps_rows (create_schema s)" "keeps_rows (create_table t)" "keeps_rows (create_index b i)"
  by (auto simp: keeps_rows_def create_schema_def create_table_def create_index_def split: if_splits option.splits)

lemma keeps_rows_migrate: "list_all keeps_rows fs \<Longrightarrow> keeps_rows (migrate fs)"
proof (induction fs)
  case (Cons f fs)
  then have f: "keeps_rows f" and fs: "keeps_rows (migrate fs)" by simp_all
  show ?case
    unfolding keeps_rows_def
  proof (intro allI impI)
    fix c c' assume "migrate (f # fs) c = Inr c'"
    then obtain c1 where "f c = Inr c1" "migrate fs c1 = Inr c'" by (auto split: sum.splits)
    then show "cat_whitelist c' = cat_whitelist c \<and> cat_customers c' = cat_customers c \<and> cat_tenants c' = cat_tenants c"
      using f fs unfolding keeps_rows_def by metis
  qed
qed (simp add: keeps_rows_def)

lemma upgrade_0002_seeds:
  assumes "upgrade_0002 c = Inr c'"
  obtains c1 c2 where "cat_whitelist c1 = cat_whitelist c" "cat_customers c1 = cat_customers c"
    "cat_tenants c1 = cat_tenants c" "insert_whitelist seeded_events c1 = Inr c2" "insert_test_tenant c2 = Inr c'"
proof -
  have keeps: "keeps_rows (migrate create_shared_tables)"
    by (rule keeps_rows_migrate) (simp add: create_shared_tables_def keeps_rows_create)
  obtain c1 where c1: "migrate create_shared_tables c = Inr c1"
    using assms unfolding upgrade_0002_def migrate_append by (cases "migrate create_shared_tables c") auto
  obtain c2 where c2: "insert_whitelist seeded_events c1 = Inr c2" "insert_test_tenant c2 = Inr c'"
    using assms c1 unfolding upgrade_0002_def migrate_append by (auto split: sum.splits)
  show thesis
    using c1 keeps by (intro that [OF _ _ _ c2]) (simp_all add: keeps_rows_def)
qed

text \<open>The seed opens exactly the six pull-request events: on a fresh installation an event is
  allowed if and only if it is one of them.\<close>

theorem seeded_whitelist_exact:
  assumes "upgrade_0002 c = Inr c'" and "cat_whitelist c = []"
  shows "is_event_allowed et a (select_whitelist p (w\<lparr>w_whitelist := cat_whitelist c'\<rparr>)) \<longleftrightarrow>
    (p, et, a) \<in> set seeded_events"
proof -
  obtain c1 c2 where c: "cat_whitelist c1 = cat_whitelist c" "insert_whitelist seeded_events c1 = Inr c2"
    "insert_test_tenant c2 = Inr c'"
    by (rule upgrade_0002_seeds [OF assms(1)])
  have "cat_whitelist c' = cat_whitelist c2"
    using c(3) by (auto simp: insert_test_tenant_def Let_def split: if_splits)
  also have "\<dots> = foldl add_event [] seeded_events"
    using c(1,2) assms(2) by (auto simp: insert_whitelist_add split: if_splits)
  also have "\<dots> = map (\<lambda>(p, e, a). \<lparr>wl_vcs_provider = p, wl_event_type = e, wl_event_action = a, wl_is_active = True\<rparr>)
      seeded_events"
    by (simp add: add_event_def seeded_events_def)
  finally show ?thesis
    by (auto simp: is_event_allowed_def select_whitelist_def list_ex_iff image_iff)
qed

text \<open>The seed migration is not confined to local development: in every environment in which
  the two names are free it installs an active tenant whose webhook secret is public, and that
  secret passes the token check.\<close>

theorem seed_installs_public_secret:
  assumes "upgrade_0002 c = Inr c'"
    and "\<forall>x \<in> set (cat_customers c). sc_contact_email x \<noteq> ''admin@acme.com''"
    and "\<forall>x \<in> set (cat_tenants c). st_slug x \<noteq> ''acme-dev''"
  shows "\<exists>t \<in> set (cat_tenants c'). st_slug t = ''acme-dev'' \<and> st_is_active t \<and>
    validate_gitlab_token ''test-secret-12345'' (st_webhook_secret t)"
proof -
  obtain c1 c2 where c: "cat_customers c1 = cat_customers c" "cat_tenants c1 = cat_tenants c"
    "insert_whitelist seeded_events c1 = Inr c2" "insert_test_tenant c2 = Inr c'"
    by (rule upgrade_0002_seeds [OF assms(1)])
  have "cat_customers c2 = cat_customers c" "cat_tenants c2 = cat_tenants c"
    using c by (auto simp: insert_whitelist_add split: if_splits)
  with c(4) assms(2,3) show ?thesis
    by (auto simp: insert_test_tenant_def Let_def list_ex_iff gitlab_token_accepts split: if_splits)
qed

section \<open>Rows conform to the declared tables\<close>

datatype sql_value =
    SUuid uuid
  | SText string
  | SInt int
  | SJson json
  | STime time
  | SNull

fun of_type :: "sql_type \<Rightarrow> sql_value \<Rightarrow> bool" where
  "of_type UUID (SUuid _) = True"
| "of_type TEXT (SText s) = no_nul s"
| "of_type (VARCHAR n) (SText s) = (py_len s \<le> n \<and> no_nul s)"
| "of_type INTEGER (SInt i) = fits_int4 i"
| "of_type JSONB (SJson j) = jsonb_ok j"
| "of_type TIMESTAMPTZ (STime _) = True"
| "of_type _ _ = False"

definition cell_ok :: "column \<Rightarrow> string \<times> sql_value \<Rightarrow> bool" where
  "cell_ok c kv \<longleftrightarrow> fst kv = col_name c \<and>
     (if snd kv = SNull then \<not> col_not_null c else of_type (col_type c) (snd kv))"







lemma cell_ok_simps [simp]:
  "cell_ok (column n t) (m, v) \<longleftrightarrow> m = n \<and> (v = SNull \<or> of_type t v)"
  "cell_ok (not_null c) (m, v) \<longleftrightarrow> cell_ok c (m, v) \<and> v \<noteq> SNull"
  "cell_ok (default d c) kv \<longleftrightarrow> cell_ok c kv"
  "cell_ok (id_column n) (m, v) \<longleftrightarrow> m = n \<and> v \<noteq> SNull \<and> of_type UUID v"
  by (auto simp: cell_ok_def column_def not_null_def default_def id_column_def)










end
