(* ===== verification/Edge.thy ===== *)
theory Edge
  imports Delivery Schema
begin

text \<open>
  Properties of single components at the edges of the service: signatures and keys, the tenant
  cache, the JSONB columns, error responses, and the readiness probe.
\<close>

section \<open>Signatures and keys\<close>

text \<open>C30: The GitHub check compares the whole header with the prefixed HMAC of the exact body bytes;
  it raises an error, instead of refusing, for a header with the prefix and a non-ASCII character.\<close>

theorem github_signature_decision:
  "validate_github_signature payload secret header =
     (if startswith header ''sha256='' \<and> \<not> is_ascii header then Inl TypeError
      else Inr (header = ''sha256='' @ hmac_sha256_hexdigest (encode secret) payload))"
proof (cases "validate_github_signature payload secret header")
  case (Inl e)
  then show ?thesis using github_signature_raises [of payload secret header e] by simp
next
  case (Inr b)
  then have "\<not> (startswith header ''sha256='' \<and> \<not> is_ascii header)"
    using github_signature_raises [of payload secret header TypeError] by auto
  moreover have "b \<longleftrightarrow> header = ''sha256='' @ hmac_sha256_hexdigest (encode secret) payload"
    using Inr github_signature_accepts [of payload secret header] by (cases b) auto
  ultimately show ?thesis using Inr by simp
qed



section \<open>The tenant cache\<close>



section \<open>The JSONB columns\<close>

definition refuses :: "webhook_result io \<Rightarrow> bool" where
  "refuses p \<longleftrightarrow> (\<forall>w. same_tables w (snd (run p w)) \<and> (\<forall>c e i. fst (run p w) \<noteq> Inr (WebhookAccepted c e i)))"

lemma refuses_Done: "(\<And>c e i. r \<noteq> Inr (WebhookAccepted c e i)) \<Longrightarrow> refuses (Done r)"
  by (simp add: refuses_def)

lemma refuses_and_then:
  assumes "read_only q" and "\<And>x. refuses (k x)"
  shows "refuses (and_then q k)"
  unfolding refuses_def
proof
  fix w
  obtain r v where rv: "run q w = (r, v)" by (cases "run q w")
  have "same_tables w v" by (rule read_only_run [OF assms(1) rv])
  moreover have "same_tables v (snd (run (k x) v)) \<and> (\<forall>c e i. fst (run (k x) v) \<noteq> Inr (WebhookAccepted c e i))" for x
    using assms(2) [of x] unfolding refuses_def by blast
  ultimately show "same_tables w (snd (run (and_then q k) w)) \<and>
      (\<forall>c e i. fst (run (and_then q k) w) \<noteq> Inr (WebhookAccepted c e i))"
    by (cases r) (auto simp: run_and_then rv intro: same_tables_trans)
qed

text \<open>
  A document that the database cannot hold: none without a codec, and none with a NUL
  character or a special float. The insert fails, and the transaction is rolled back.
\<close>

definition unstorable :: "platform \<Rightarrow> bytes \<Rightarrow> bool" where
  "unstorable pf raw \<longleftrightarrow>
     \<not> jsonb_codec pf \<or> (case json_loads pf raw of None \<Rightarrow> False | Some j \<Rightarrow> \<not> jsonb_ok j)"

lemma insert_unstorable:
  assumes "\<not> jsonb_codec pf \<or> \<not> jsonb_ok (ie_raw_payload vals)"
  obtains e where "insert_inbound_stmt pf vals u = (Inl e, u)" "\<not> is_unique_violation e" "e \<noteq> already_persisted h"
proof (cases "jsonb_codec pf")
  case False
  then show thesis by (intro that [of "DataError ''expected str, got dict''"])
    (simp_all add: insert_inbound_stmt_def already_persisted_def)
next
  case True
  then have "fit_inbound vals = None" using assms by (simp add: fit_inbound_def encodable_def)
  then show thesis using True by (intro that [of "PostgresError ''value not representable''"])
    (simp_all add: insert_inbound_stmt_def already_persisted_def)
qed

lemma persist_unstorable:
  assumes "unstorable pf raw"
  obtains e v where "run (persist pf st tid p cid pr h raw hs) w = (Inl e, v)" "same_tables w v" "e \<noteq> already_persisted h"
proof -
  have body: "\<exists>e v. run (persist_body pf n vals x) u = (Inl e, v) \<and> same_tables u v \<and> \<not> is_unique_violation e \<and> e \<noteq> already_persisted h"
    if vals: "\<not> jsonb_codec pf \<or> \<not> jsonb_ok (ie_raw_payload vals)" for n vals x and u :: world
  proof -
    obtain e where "insert_inbound_stmt pf vals (u\<lparr>w_db_calls := Suc (w_db_calls u)\<rparr>) =
        (Inl e, u\<lparr>w_db_calls := Suc (w_db_calls u)\<rparr>)" "\<not> is_unique_violation e" "e \<noteq> already_persisted h"
      by (rule insert_unstorable [OF vals])
    then show ?thesis
      by (cases "w_db_faults u (w_db_calls u)")
        (auto simp: persist_body_def insert_inbound_def execute_def run_and_then db_call_def
          served_def same_tables_def already_persisted_def)
  qed
  have tx: "\<exists>e v. run (transaction (persist_body pf n vals x)) u = (Inl e, v) \<and> same_tables u v \<and>
      \<not> is_unique_violation e \<and> e \<noteq> already_persisted h"
    if vals: "\<not> jsonb_codec pf \<or> \<not> jsonb_ok (ie_raw_payload vals)" for n vals x and u :: world
  proof (cases "w_db_faults u (w_db_calls u)")
    case NoFault
    let ?u = "u\<lparr>w_db_calls := Suc (w_db_calls u)\<rparr>"
    obtain e v where "run (persist_body pf n vals x) ?u = (Inl e, v)" "same_tables ?u v"
      "\<not> is_unique_violation e" "e \<noteq> already_persisted h"
      using body [OF vals] by blast
    then show ?thesis
      using NoFault by (simp add: transaction_def transaction_stmt_def run_and_then query_def db_call_def
          undo_tables_def same_tables_def)
  next
    case (Fault ap ca)
    then show ?thesis
      by (simp add: transaction_def transaction_stmt_def run_and_then query_def db_call_def served_def
          undo_tables_def same_tables_def already_persisted_def)
  qed
  let ?r = "run (persist pf st tid p cid pr h raw hs) w"
  have "\<exists>e. fst ?r = Inl e \<and> same_tables w (snd ?r) \<and> e \<noteq> already_persisted h"
  proof (cases "json_loads pf raw")
    case None
    then show ?thesis by (simp add: persist_def run_and_then same_tables_def already_persisted_def)
  next
    case (Some j)
    let ?u = "w\<lparr>w_uuids_drawn := Suc (w_uuids_drawn w)\<rparr>" and ?eid = "w_uuid_source w (w_uuids_drawn w)"
    have vals: "\<not> jsonb_codec pf \<or> \<not> jsonb_ok (ie_raw_payload (inbound_values ?eid cid tid p pr h j (stored_headers hs)))"
      using assms Some by (simp add: unstorable_def inbound_values_def)
    obtain e v where "run (transaction (persist_body pf (outbox_debounce_seconds st)
        (inbound_values ?eid cid tid p pr h j (stored_headers hs))
        (dump_webhook_received pf (received_message ?eid cid tid (w_app_clock w) p pr h j)))) ?u = (Inl e, v)"
      "same_tables ?u v" "\<not> is_unique_violation e" "e \<noteq> already_persisted h"
      using tx [OF vals] by blast
    then show ?thesis
      using Some by (cases "is_dict j") (simp_all add: persist_def run_and_then run_on_error same_tables_def already_persisted_def)
  qed
  then show thesis using that by (metis prod.collapse)
qed

text \<open>C38: On a connection pool without a JSONB codec, which is the driver's default and what
  create_pool sets up, no webhook is ever stored or accepted, whichever calls fail; and with a
  codec none whose body has a NUL character or a special float anywhere, however often it is
  delivered.\<close>

theorem unstorable_webhook_rejected:
  assumes "unstorable pf raw"
  shows "same_tables w (snd (run (process_webhook pf st tid p raw hs) w)) \<and>
    (\<forall>c e i. fst (run (process_webhook pf st tid p raw hs) w) \<noteq> Inr (WebhookAccepted c e i))"
proof -
  have report: "refuses (persist_and_report pf st tid p cid pr h raw hs)" for cid pr h
    unfolding refuses_def
  proof
    fix w
    obtain e v where "run (persist pf st tid p cid pr h raw hs) w = (Inl e, v)" "same_tables w v" "e \<noteq> already_persisted h"
      by (rule persist_unstorable [OF assms])
    then show "same_tables w (snd (run (persist_and_report pf st tid p cid pr h raw hs) w)) \<and>
        (\<forall>c e i. fst (run (persist_and_report pf st tid p cid pr h raw hs) w) \<noteq> Inr (WebhookAccepted c e i))"
      by (simp add: persist_and_report_def run_attempt split: exn.split)
  qed
  have verified: "refuses (process_verified pf st tid p cid et wl raw hs)" for cid et wl
    unfolding process_verified_def Let_def
    by (auto intro!: refuses_and_then refuses_Done read_only_intros report split: option.split)
  have "refuses (process_webhook pf st tid p raw hs)"
    unfolding process_webhook_def Let_def
    by (auto intro!: refuses_and_then refuses_Done read_only_intros verified)
  then show ?thesis unfolding refuses_def by blast
qed

definition nul_platform :: platform where
  "nul_platform = sample_platform\<lparr>json_loads := (\<lambda>b. Some (JObj [(''title'', JStr [CHR 0x00])]))\<rparr>"

theorem unstorable_webhook_rejected_witness:
  "(\<forall>c e i. fst (run (process_webhook (sample_platform\<lparr>jsonb_codec := False\<rparr>) sample_settings 11 ''gitlab'' sample_raw
     sample_headers) sample_world) \<noteq> Inr (WebhookAccepted c e i)) \<and>
   w_inbound (snd (run (process_webhook nul_platform sample_settings 11 ''gitlab'' sample_raw
     sample_headers) sample_world)) = []"
proof
  have "unstorable (sample_platform\<lparr>jsonb_codec := False\<rparr>) raw" for raw by (simp add: unstorable_def)
  then show "\<forall>c e i. fst (run (process_webhook (sample_platform\<lparr>jsonb_codec := False\<rparr>) sample_settings 11 ''gitlab''
      sample_raw sample_headers) sample_world) \<noteq> Inr (WebhookAccepted c e i)"
    using unstorable_webhook_rejected by blast
  have "unstorable nul_platform sample_raw" by (simp add: unstorable_def nul_platform_def)
  from unstorable_webhook_rejected [OF this, of sample_world sample_settings 11 "''gitlab''" sample_headers]
  have "same_tables sample_world (snd (run (process_webhook nul_platform sample_settings 11 ''gitlab'' sample_raw
     sample_headers) sample_world))" by (rule conjunct1)
  then show "w_inbound (snd (run (process_webhook nul_platform sample_settings 11 ''gitlab'' sample_raw
     sample_headers) sample_world)) = []" by (simp add: same_tables_def sample_world_def)
qed

section \<open>Error responses\<close>

text \<open>C26: An endpoint that raises an exception is answered with the status and body that its
  exception maps to, whatever the layers in between; the answer carries the request's correlation
  id exactly when a handler is registered for the exception.\<close>

theorem errors_become_responses:
  assumes "run p w = (Inl e, v)" and "e \<noteq> Cancelled" and "cid \<noteq> ''''"
  shows "\<exists>resp. run (application (Some cid) p) w = (Inr resp, v) \<and>
    hr_status resp = hr_status (handle_exception e) \<and> hr_content resp = hr_content (handle_exception e) \<and>
    (map_of (hr_headers resp) correlation_header = Some cid \<longleftrightarrow>
      (\<exists>se. e = Service se \<and> registered_handler (se_kind se) \<noteq> None))"
proof (cases "\<exists>se h. e = Service se \<and> registered_handler (se_kind se) = Some h")
  case True
  then obtain se h where e: "e = Service se" "registered_handler (se_kind se) = Some h" by blast
  then have "run (application (Some cid) p) w =
      (Inr ((h se)\<lparr>hr_headers := dict_set (hr_headers (h se)) correlation_header cid\<rparr>), v)"
    using assms by (simp add: application_def server_error_middleware_def correlation_id_middleware_def
        exception_middleware_def opt_or_def run_and_then run_on_error run_except_exception)
  then show ?thesis using e by (simp add: map_of_dict_set)
next
  case False
  then have none: "registered_handler (se_kind se) = None" if "e = Service se" for se using that by auto
  then have "run (exception_middleware p) w = (Inl e, v)"
    using assms(1) by (cases e) (simp_all add: exception_middleware_def run_on_error)
  then have "run (application (Some cid) p) w = (Inr internal_server_error, v)"
    using assms(2,3) by (simp add: application_def server_error_middleware_def correlation_id_middleware_def
        opt_or_def run_and_then run_except_exception is_exception_def)
  moreover have "handle_exception e = internal_server_error" using none by (cases e) simp_all
  moreover have "map_of (hr_headers internal_server_error) correlation_header \<noteq> Some cid"
    by (simp add: internal_server_error_def)
  ultimately show ?thesis using False by auto
qed

theorem errors_become_responses_witness:
  "\<exists>resp. run (application (Some ''c-1'') (throw invalid_signature)) sample_world = (Inr resp, sample_world) \<and>
    hr_status resp = 401 \<and> map_of (hr_headers resp) correlation_header = Some ''c-1''"
proof -
  have "run (throw invalid_signature :: http_response io) sample_world = (Inl invalid_signature, sample_world)" by simp
  moreover have "hr_status (handle_exception invalid_signature) = 401"
    "\<exists>se. invalid_signature = Service se \<and> registered_handler (se_kind se) \<noteq> None" "invalid_signature \<noteq> Cancelled"
    by (simp_all add: invalid_signature_def service_error_def registered_handler_def validation_handler_def
        dict_get_or_def Let_def)
  ultimately show ?thesis
    using errors_become_responses [of "throw invalid_signature" sample_world invalid_signature sample_world "''c-1''"] by auto
qed

section \<open>Readiness\<close>

text \<open>The readiness endpoint never fails: it reports ready exactly when the database answers and
  the broker connection is open, whatever the state of Redis, but its HTTP status is 200 in every
  case, so a probe that looks at the status sees a service that is always ready.\<close>

theorem readiness_always_answers_200:
  assumes "\<forall>n ap. w_db_faults w n \<noteq> Fault ap True \<and> w_redis_faults w n \<noteq> Fault ap True"
    and "amqp_closed \<noteq> Inl Cancelled"
  shows "\<exists>resp v checks. run (readiness amqp_closed) w = (Inr resp, v) \<and> hr_status resp = 200 \<and>
    hr_content resp = JObj [(''status'', JStr (if w_db_faults w (w_db_calls w) = NoFault \<and> amqp_closed = Inr False
      then ''ready'' else ''not_ready'')), (''checks'', checks)]"
proof -
  let ?db = "if w_db_faults w (w_db_calls w) = NoFault then ''ok'' else ''error''"
  let ?mq = "if amqp_closed = Inr False then ''ok'' else ''error''"
  let ?q = "except_exception (and_then (query (\<lambda>_. ())) (\<lambda>_. ret ''ok'')) (\<lambda>_. ret ''error'') :: string io"
  define u where "u = snd (run ?q w)"
  have kinds: "f = NoFault \<or> (\<exists>ap. f = Fault ap False)" if "\<forall>ap. f \<noteq> Fault ap True" for f
    using that by (cases f) auto
  have u: "run ?q w = (Inr ?db, u)" and faults: "w_redis_faults u = w_redis_faults w"
    using kinds [of "w_db_faults w (w_db_calls w)"] assms(1)
    by (auto simp: u_def run_except_exception run_and_then query_def db_call_def is_exception_def)
  have mq: "run (except_exception (and_then (Done amqp_closed) (\<lambda>closed. ret (if \<not> closed then ''ok'' else ''error'')))
      (\<lambda>_. ret ''error'')) u = (Inr ?mq, u)"
    using assms(2) by (cases amqp_closed) (auto simp: run_except_exception run_and_then is_exception_def)
  have "\<exists>b v. run check_redis_health u = (Inr b, v)"
    using kinds [of "w_redis_faults u (w_redis_calls u)"] assms(1) faults
    by (auto simp: check_redis_health_def redis_ping_def run_except_exception redis_call_def is_exception_def)
  then obtain b v where b: "run check_redis_health u = (Inr b, v)" by blast
  have "run (readiness amqp_closed) w = (Inr (readiness_response ?db ?mq (if b then ''ok'' else ''degraded'')), v)"
    unfolding readiness_def run_and_then u mq prod.case sum.case b by simp
  then show ?thesis by (auto simp: readiness_response_def json_response_def)
qed

section \<open>The declared tables\<close>


end
