(* ===== verification/Recovery.thy ===== *)
theory Recovery
  imports Samples
begin

text \<open>
  Delivery stays possible (\<open>OutboxPublisher\<close> in \<open>src/vcs_gateway/db/outbox.py\<close>): from every
  state the service can reach, whatever has failed before and whichever rows are locked, the
  execution can go on so that a scheduled row is dispatched. The way there: the publisher that
  has locked the row, if there is one, ends and thereby releases it; the environment repairs
  what is broken and time passes; further replicas dispatch batches until the row is among the
  due ones.
\<close>

section \<open>Going on\<close>

lemma reachable_steps:
  assumes "reachable pf st rq ps w" and "(service_step pf st rq)\<^sup>*\<^sup>* (ps, w) (ps', w')"
  shows "reachable pf st rq ps' w'"
  using assms unfolding reachable_def by (blast intro: rtranclp_trans)

lemma reachable_finite:
  assumes "reachable pf st rq ps w"
  shows "finite (dom ps)"
proof -
  have "finite (dom (fst c'))" if "(service_step pf st rq)\<^sup>*\<^sup>* c c'" "finite (dom (fst c))" for c c'
    using that by (induction rule: rtranclp_induct) (auto simp: service_step_def elim!: pool_step.cases)
  then show ?thesis using assms unfolding reachable_def by fastforce
qed

text \<open>There is always a replica that has not been started.\<close>

lemma unused_publisher:
  assumes "reachable pf st rq ps w"
  obtains p where "ps (Pub p) = None" "tx_of w p = None"
proof -
  have "finite (Pub -` dom ps)"
    using reachable_finite [OF assms] by (rule finite_vimageI) (simp add: inj_def)
  then have "finite (Pub -` dom ps \<union> fst ` set (w_txs w))" by simp
  then obtain p where "p \<notin> Pub -` dom ps \<union> fst ` set (w_txs w)"
    using ex_new_if_finite [OF infinite_UNIV_nat] by blast
  then show thesis using that by (auto simp: tx_of_def map_of_eq_None_iff domIff)
qed

lemma guarantee_run: "(guarantee a)\<^sup>*\<^sup>* u v \<Longrightarrow> guarantee a u v"
  by (induction rule: rtranclp_induct) (auto intro: guarantee_trans neutral_guarantee)

lemma locked_idsE:
  assumes "i \<in> set (locked_ids w)" and "Inv w"
  obtains q x where "tx_of w q = Some x" "i \<in> set (tx_locks x)"
proof -
  obtain q x where "(q, x) \<in> set (w_txs w)" "i \<in> set (tx_locks x)"
    using assms(1) by (auto simp: locked_ids_def)
  moreover have "distinct (map fst (w_txs w))" using assms(2) by (simp add: Inv_def txs_ok_def)
  ultimately show thesis using that by (simp add: tx_of_def)
qed

lemma locked_idsI: "tx_of w q = Some x \<Longrightarrow> i \<in> set (tx_locks x) \<Longrightarrow> i \<in> set (locked_ids w)"
  using tx_of_in_txs [of w q x] by (auto simp: locked_ids_def)

section \<open>A repaired world\<close>

definition repaired :: "time \<Rightarrow> world \<Rightarrow> world" where
  "repaired t w = w\<lparr>w_db_faults := (\<lambda>_. NoFault), w_redis_faults := (\<lambda>_. NoFault),
     w_amqp_faults := (\<lambda>_. NoFault), w_open_channels := [], w_db_clock := max t (w_db_clock w)\<rparr>"

lemma repaired_simps [simp]:
  "quiet w (repaired t w)" "healthy (repaired t w)" "exchange_ready p name (repaired t w)"
  "w_outbox (repaired t w) = w_outbox w" "w_db_clock (repaired t w) = max t (w_db_clock w)"
  "tx_of (repaired t w) = tx_of w" "locked_ids (repaired t w) = locked_ids w"
  by (auto simp: repaired_def quiet_def healthy_def exchange_ready_def channel_usable_def tx_of_def
      locked_ids_def fun_eq_iff split: option.splits)

section \<open>A batch of a further replica\<close>

text \<open>The scheduled rows that nobody has locked.\<close>

definition waiting :: "world \<Rightarrow> outbox_event list" where
  "waiting w = filter (\<lambda>r. oe_status r = SCHEDULED \<and> oe_outbox_id r \<notin> set (locked_ids w)) (w_outbox w)"

lemma fewer_after_map:
  assumes "\<And>x. x \<in> set xs \<Longrightarrow> P (f x) \<Longrightarrow> P x" and "s \<in> set xs" "P s" "\<not> P (f s)"
  shows "length (filter P (map f xs)) < length (filter P xs)"
proof -
  have le: "length (filter P (map f ys)) \<le> length (filter P ys)" if "set ys \<subseteq> set xs" for ys
    using that assms(1) by (induction ys) auto
  obtain ys zs where xs: "xs = ys @ s # zs" using assms(2) by (auto simp: in_set_conv_decomp)
  have "length (filter P (map f ys)) \<le> length (filter P ys)" "length (filter P (map f zs)) \<le> length (filter P zs)"
    by (rule le; simp add: xs subset_iff)+
  then show ?thesis using assms(3,4) by (simp add: xs)
qed

lemma some_row_due:
  assumes "r \<in> set (waiting w)" and "oe_dispatch_at r \<le> now" and "0 < n"
  shows "due_rows n now w \<noteq> []"
proof -
  define rows where "rows = sort_key oe_dispatch_at
    (filter (\<lambda>r. is_due now r \<and> oe_outbox_id r \<notin> set (locked_ids w)) (w_outbox w))"
  have "r \<in> set rows" using assms(1,2) by (simp add: rows_def waiting_def is_due_def)
  then have "rows \<noteq> []" by auto
  then show ?thesis using assms(3) by (simp add: due_rows_def flip: rows_def)
qed

lemma run_one_turn:
  assumes "run (process_batch pf p (rabbitmq_exchange_webhook st) (outbox_batch_size st)) w = (Inr (), v)"
  shows "snd (run (publisher_task pf st p (Suc 0)) w) = v\<lparr>w_sleeps := Suc (w_sleeps v)\<rparr>"
  unfolding publisher_task_def run_turns.simps run_turn_def run_and_then run_attempt assms prod.case sum.case
  by (simp add: sleep_def run_and_then)

text \<open>After one batch the row is dispatched, or still waiting behind fewer rows.\<close>

lemma further_batch:
  assumes "reachable pf st rq ps w" and r: "r \<in> set (waiting w)" and n: "0 < outbox_batch_size st"
  obtains ps' w' where "(service_step pf st rq)\<^sup>*\<^sup>* (ps, w) (ps', w')"
    "(\<exists>r' \<in> set (w_outbox w'). progress r r' \<and> oe_status r' = DISPATCHED) \<or>
     r \<in> set (waiting w') \<and> length (waiting w') < length (waiting w)"
proof -
  obtain p where p: "ps (Pub p) = None" "tx_of w p = None" by (rule unused_publisher [OF assms(1)])
  let ?u = "repaired (oe_dispatch_at r) w" and ?task = "publisher_task pf st p (Suc 0)"
  let ?w' = "snd (run ?task ?u)" and ?ps' = "ps(Pub p \<mapsto> Done (fst (run ?task ?u)))"
  have u: "reachable pf st rq ps ?u" by (rule reachable_environment [OF assms(1)]) simp
  have inv: "Inv ?u" using reachable_sound [OF u] by blast
  define rows where "rows = due_rows (nat (outbox_batch_size st)) (w_db_clock ?u) ?u"
  let ?f = "\<lambda>r. if r \<in> set rows
     then r\<lparr>oe_status := DISPATCHED, oe_published_at := Some (w_db_clock ?u)\<rparr> else r"
  obtain v where v: "run (process_batch pf p (rabbitmq_exchange_webhook st) (outbox_batch_size st)) ?u = (Inr (), v)"
    "w_outbox v = map ?f (w_outbox ?u)" "tx_of v p = None"
    by (rule run_process_batch_healthy [OF _ inv _ _ _ rows_def, where p = p and pf = pf
          and name = "rabbitmq_exchange_webhook st"]) (use n p in simp_all)
  have w': "?w' = v\<lparr>w_sleeps := Suc (w_sleeps v)\<rparr>" by (rule run_one_turn [OF v(1)])
  have outbox: "w_outbox ?w' = map ?f (w_outbox w)" using v(2) by (simp add: w')
  have "spec (Pub p) ?task (task_outcome pf rq (Pub p) ?task) ?u"
    by (rule spec_task [OF inv]) (use p(2) in \<open>auto simp: idle_def\<close>)
  then have g: "guarantee (Pub p) ?u ?w'" using wp_run guarantee_run by blast
  have inv': "Inv ?w'" using g inv by (simp add: guarantee_def)
  have txs: "tx_of ?w' q = tx_of w q" for q
    using g inv v(3) p(2) by (cases "q = p") (simp_all add: guarantee_def frame_def w' tx_of_def)
  have invw: "Inv w" using reachable_sound [OF assms(1)] by blast
  have locked: "set (locked_ids ?w') = set (locked_ids w)"
    using txs by (auto elim!: locked_idsE [OF _ inv'] locked_idsE [OF _ invw] intro: locked_idsI)
  have t: "tables_ok ?u" using inv by (simp add: Inv_def)
  have rowsD: "s \<in> set (waiting w)" if "s \<in> set rows" for s
    using due_rows_facts(2) [OF t, of s] that by (simp add: rows_def waiting_def is_due_def)
  have rw: "r \<in> set (w_outbox w)" "oe_status r = SCHEDULED" using r by (simp_all add: waiting_def)
  have "(\<exists>r' \<in> set (w_outbox ?w'). progress r r' \<and> oe_status r' = DISPATCHED) \<or>
     r \<in> set (waiting ?w') \<and> length (waiting ?w') < length (waiting w)"
  proof (cases "r \<in> set rows")
    case True
    then have "?f r \<in> set (w_outbox ?w')" using rw(1) unfolding outbox set_map by blast
    then show ?thesis using True rw(2) by (intro disjI1 bexI [of _ "?f r"]) (simp_all add: progress_def)
  next
    case False
    let ?P = "\<lambda>r. oe_status r = SCHEDULED \<and> oe_outbox_id r \<notin> set (locked_ids w)"
    have "rows \<noteq> []" unfolding rows_def by (rule some_row_due [of r]) (use r n in \<open>simp_all add: waiting_def\<close>)
    then obtain s where s: "s \<in> set rows" by (cases rows) auto
    have "length (filter ?P (map ?f (w_outbox w))) < length (filter ?P (w_outbox w))"
      by (rule fewer_after_map [of _ _ _ s]) (use rowsD [OF s] s in \<open>auto simp: waiting_def split: if_splits\<close>)
    then have "length (waiting ?w') < length (waiting w)" unfolding waiting_def outbox locked .
    moreover have "?f r \<in> set (w_outbox ?w')" using rw(1) unfolding outbox set_map by blast
    then have "r \<in> set (waiting ?w')" using False r by (simp add: waiting_def locked)
    ultimately show ?thesis by blast
  qed
  moreover have "(service_step pf st rq)\<^sup>*\<^sup>* (ps, w) (?ps', ?w')"
  proof -
    have "task_of pf st rq (Pub p) ?task" by auto
    then have "service_step pf st rq (ps, ?u) (ps(Pub p \<mapsto> ?task), ?u)"
      unfolding service_step_def using p(1) by (intro pool_step.spawn) simp_all
    moreover have "service_step pf st rq (ps, w) (ps, ?u)"
      unfolding service_step_def by (rule pool_step.environment) simp
    moreover have "(service_step pf st rq)\<^sup>*\<^sup>* (ps(Pub p \<mapsto> ?task), ?u)
        (ps(Pub p \<mapsto> ?task, Pub p \<mapsto> Done (fst (run ?task ?u))), ?w')"
      unfolding service_step_def [abs_def] by (rule run_is_pool_execution) simp
    ultimately show ?thesis unfolding fun_upd_upd by (meson converse_rtranclp_into_rtranclp)
  qed
  ultimately show thesis using that by blast
qed

lemma waiting_row_dispatched:
  assumes "reachable pf st rq ps w" and "r \<in> set (waiting w)" and "0 < outbox_batch_size st"
  shows "\<exists>ps' w'. (service_step pf st rq)\<^sup>*\<^sup>* (ps, w) (ps', w') \<and>
    (\<exists>r' \<in> set (w_outbox w'). progress r r' \<and> oe_status r' = DISPATCHED)"
  using assms
proof (induction "length (waiting w)" arbitrary: ps w rule: less_induct)
  case less
  obtain ps' w' where step: "(service_step pf st rq)\<^sup>*\<^sup>* (ps, w) (ps', w')"
    and w': "(\<exists>r' \<in> set (w_outbox w'). progress r r' \<and> oe_status r' = DISPATCHED) \<or>
     r \<in> set (waiting w') \<and> length (waiting w') < length (waiting w)"
    by (rule further_batch [OF less.prems])
  show ?case
  proof (cases "\<exists>r' \<in> set (w_outbox w'). progress r r' \<and> oe_status r' = DISPATCHED")
    case True
    then show ?thesis using step by blast
  next
    case False
    then have "\<exists>ps'' w''. (service_step pf st rq)\<^sup>*\<^sup>* (ps', w') (ps'', w'') \<and>
        (\<exists>r' \<in> set (w_outbox w''). progress r r' \<and> oe_status r' = DISPATCHED)"
      using w' less.prems(3) by (intro less.hyps reachable_steps [OF less.prems(1) step]) auto
    then show ?thesis using step by (meson rtranclp_trans)
  qed
qed

section \<open>Every scheduled row\<close>

text \<open>A row that is locked belongs to a running publisher; when that ends, it is locked no longer.\<close>

lemma release_row:
  assumes "reachable pf st rq ps w" and "i \<in> set (locked_ids w)"
  obtains ps' w' where "(service_step pf st rq)\<^sup>*\<^sup>* (ps, w) (ps', w')" "i \<notin> set (locked_ids w')"
proof -
  have inv: "Inv w" and ok: "pool_ok (task_of pf st rq) at_rest (task_outcome pf rq) ps w"
    using reachable_sound [OF assms(1)] by blast+
  obtain q x where x: "tx_of w q = Some x" "i \<in> set (tx_locks x)" by (rule locked_idsE [OF assms(2) inv])
  then have "\<not> at_rest (Pub q) w" by (auto simp: idle_def)
  then obtain task where task: "ps (Pub q) = Some task" using pool_idle [OF ok, of "Pub q"] by fastforce
  then obtain p0 where p0: "spec (Pub q) task (task_outcome pf rq (Pub q) p0) w" using pool_task [OF ok] by blast
  let ?w' = "snd (run task w)"
  have steps: "(service_step pf st rq)\<^sup>*\<^sup>* (ps, w) (ps(Pub q \<mapsto> Done (fst (run task w))), ?w')"
    unfolding service_step_def [abs_def] using task by (rule run_is_pool_execution)
  have g: "guarantee (Pub q) w ?w'" and idle: "idle q ?w'"
    using wp_run [OF p0] guarantee_run by (auto simp: task_outcome_def)
  have inv': "Inv ?w'" using g inv by (simp add: guarantee_def)
  have "i \<notin> set (locked_ids ?w')"
  proof
    assume "i \<in> set (locked_ids ?w')"
    then obtain r y where y: "tx_of ?w' r = Some y" "i \<in> set (tx_locks y)" by (rule locked_idsE [OF _ inv'])
    then have "r \<noteq> q" using idle by (auto simp: idle_def)
    then have "tx_of w r = Some y" using g inv y(1) by (simp add: guarantee_def frame_def)
    then have "i \<in> set (other_locks q w)" using locks_of_others \<open>r \<noteq> q\<close> y(2) by blast
    then show False using own_facts(3) [of q x w] x inv by (auto simp: own_def)
  qed
  then show thesis using that steps by blast
qed

text \<open>A row that is dispatched has its message on the broker.\<close>

lemma dispatched_sent:
  assumes "reachable pf st rq ps w" and "r \<in> set (w_outbox w)" and "oe_status r = DISPATCHED"
  shows "on_broker (w_published w) r"
  using reachable_sound [OF assms(1)] assms(2,3) by (simp add: Inv_def sent_ok_def)

lemma waiting_row_delivered:
  assumes "reachable pf st rq ps w" and "r \<in> set (waiting w)" and "0 < outbox_batch_size st"
  shows "\<exists>ps' w' r'. (service_step pf st rq)\<^sup>*\<^sup>* (ps, w) (ps', w') \<and> r' \<in> set (w_outbox w') \<and> progress r r' \<and>
    oe_status r' = DISPATCHED \<and> on_broker (w_published w') r'"
  using waiting_row_dispatched [OF assms] dispatched_sent reachable_steps [OF assms(1)] by metis

text \<open>A row that is held is released first; then it is dispatched, unless it has failed meanwhile.\<close>

lemma scheduled_row_settles:
  assumes "reachable pf st rq ps w" and r: "r \<in> set (w_outbox w)" "oe_status r = SCHEDULED"
    and n: "0 < outbox_batch_size st"
  shows "\<exists>ps' w' r'. (service_step pf st rq)\<^sup>*\<^sup>* (ps, w) (ps', w') \<and> r' \<in> set (w_outbox w') \<and> progress r r' \<and>
    (oe_status r' = DISPATCHED \<and> on_broker (w_published w') r' \<or>
     oe_status r' = FAILED \<and> oe_outbox_id r \<in> set (locked_ids w))"
proof (cases "oe_outbox_id r \<in> set (locked_ids w)")
  case False
  then have "r \<in> set (waiting w)" using r by (simp add: waiting_def)
  from waiting_row_delivered [OF assms(1) this n] show ?thesis by blast
next
  case True
  obtain ps' w' where steps: "(service_step pf st rq)\<^sup>*\<^sup>* (ps, w) (ps', w')"
    and free: "oe_outbox_id r \<notin> set (locked_ids w')"
    by (rule release_row [OF assms(1) True])
  have reach: "reachable pf st rq ps' w'" by (rule reachable_steps [OF assms(1) steps])
  obtain r' where r': "r' \<in> set (w_outbox w')" "progress r r'"
    using reachable_grows [OF assms(1) steps] r(1) unfolding grows_def by blast
  have "outbox_ok r'" using reachable_sound [OF reach] r'(1) by (simp add: Inv_def tables_ok_def list_all_iff)
  then consider "oe_status r' = SCHEDULED" | "oe_status r' = DISPATCHED" | "oe_status r' = FAILED"
    by (cases "oe_status r'") (auto simp: outbox_ok_def)
  then show ?thesis
  proof cases
    case 1
    then have "r' \<in> set (waiting w')" using r' free by (simp add: waiting_def progress_def)
    from waiting_row_delivered [OF reach this n] obtain ps'' w'' r'' where later:
      "(service_step pf st rq)\<^sup>*\<^sup>* (ps', w') (ps'', w'')" "r'' \<in> set (w_outbox w'')" "progress r' r''"
      "oe_status r'' = DISPATCHED" "on_broker (w_published w'') r''"
      by blast
    then show ?thesis using rtranclp_trans [OF steps] progress_trans [OF r'(2)] by blast
  next
    case 2
    then show ?thesis using steps r' dispatched_sent [OF reach] by blast
  next
    case 3
    then show ?thesis using steps r' True by blast
  qed
qed

text \<open>C11: Delivery stays possible. From every state that the service can reach, whatever has failed
  before, every scheduled outbox event can still be dispatched, with its message on the broker.
  The only other outcome is that the publisher that holds the row at the moment spends its last
  attempt on it: then the row is marked as failed, and it was locked.\<close>

theorem delivery_stays_possible:
  assumes "reachable pf st rq ps w" and r: "r \<in> set (w_outbox w)" "oe_status r = SCHEDULED"
    and n: "0 < outbox_batch_size st"
  shows "\<exists>ps' w' r'. (service_step pf st rq)\<^sup>*\<^sup>* (ps, w) (ps', w') \<and> r' \<in> set (w_outbox w') \<and> progress r r' \<and>
    (oe_status r' = DISPATCHED \<and> on_broker (w_published w') r' \<or>
     oe_status r' = FAILED \<and> oe_outbox_id r \<in> set (locked_ids w))"
  by (rule scheduled_row_settles [OF assms])

theorem delivery_stays_possible_witness:
  "\<exists>r ps' w' r'. w_outbox sample_later = [r] \<and>
    (service_step sample_platform sample_settings sample_requests)\<^sup>*\<^sup>* (sample_pool, sample_later) (ps', w') \<and>
    r' \<in> set (w_outbox w') \<and> progress r r' \<and> oe_status r' = DISPATCHED \<and> on_broker (w_published w') r'"
proof -
  obtain r where r: "w_outbox sample_later = [r]" "oe_status r = SCHEDULED" by (rule later_due)
  have "locked_ids sample_later = []" by (simp add: locked_ids_def later_publishers)
  moreover have "0 < outbox_batch_size sample_settings" by (simp add: sample_settings_def default_settings_def)
  ultimately show ?thesis using delivery_stays_possible [OF later_reachable, of r] r by auto
qed

end
