(* ===== verification/Consumer.thy ===== *)
theory Consumer
  imports Preservation "HOL-Library.Multiset"
begin

text \<open>
  \<open>src/vcs_gateway/queue/consumer.py\<close>: the base class of queue consumers. The abstract method
  \<open>process_message\<close> is an argument of the definitions. The broker's side of the contract is
  AMQP 0-9-1 with RabbitMQ's dead-lettering: a delivered message is unacknowledged until it is
  acked (done), nacked with \<open>requeue\<close> (back at the head of the queue) or nacked without it
  (moved to the queue that the dead-letter arguments name, dropped when there is none); a
  closed channel puts its unacknowledged messages back. Every call to the broker may fail.
\<close>

section \<open>State\<close>

record delivery =
  dl_id :: nat
  dl_body :: bytes
  dl_headers :: "pydict option"

record base_consumer =
  cn_queue_name :: string
  cn_dlq_name :: string
  cn_prefetch_count :: int

text \<open>
  The constructor's default prefetch count is 10. The state of the channel (\<open>self._channel\<close>)
  and the logging context are fields of the shared state; \<open>cq_arrived\<close> records every message
  that ever entered the queue.
\<close>

definition base_consumer :: "string \<Rightarrow> string \<Rightarrow> int option \<Rightarrow> base_consumer" where
  "base_consumer queue_name dlq_name prefetch_count =
     \<lparr>cn_queue_name = queue_name, cn_dlq_name = dlq_name,
      cn_prefetch_count = (case prefetch_count of None \<Rightarrow> 10 | Some n \<Rightarrow> n)\<rparr>"

record consumer_world =
  cq_arrived :: "delivery list"
  cq_ready :: "delivery list"
  cq_unacked :: "delivery list"
  cq_dead :: "delivery list"
  cq_acked :: "delivery list"
  cq_declared :: "(string \<times> (string \<times> string) list) list"
  cq_prefetch :: int
  cq_consuming :: "string option"
  cq_channel :: "nat option"
  cq_open :: "nat list"
  cq_next_channel :: nat
  cq_context :: "(string \<times> string) list"
  cq_faults :: "nat \<Rightarrow> fault"
  cq_calls :: nat

section \<open>Broker operations\<close>

definition queue_call ::
    "('x consumer_world_scheme \<Rightarrow> (exn + 'a) \<times> 'x consumer_world_scheme) \<Rightarrow>
     (exn, 'x consumer_world_scheme, 'a) prog" where
  "queue_call f = atomic (\<lambda>w.
     let w' = w\<lparr>cq_calls := Suc (cq_calls w)\<rparr>
     in case cq_faults w (cq_calls w) of
          NoFault \<Rightarrow> f w'
        | Fault ap ca \<Rightarrow> (Inl (if ca then Cancelled else AmqpError), if ap then snd (f w') else w'))"

text \<open>The queue that receives the rejected messages of queue \<open>q\<close>.\<close>

definition dead_letter_queue :: "string \<Rightarrow> 'x consumer_world_scheme \<Rightarrow> string option" where
  "dead_letter_queue q w =
     (case map_of (cq_declared w) q of
        None \<Rightarrow> None
      | Some args \<Rightarrow>
          if map_of args ''x-dead-letter-exchange'' = Some ''''
          then (case map_of args ''x-dead-letter-routing-key'' of
                  None \<Rightarrow> None
                | Some k \<Rightarrow> if k \<in> fst ` set (cq_declared w) then Some k else None)
          else None)"

definition ack :: "delivery \<Rightarrow> (exn, 'x consumer_world_scheme, unit) prog" where
  "ack d = queue_call (\<lambda>w.
     if d \<in> set (cq_unacked w)
     then (Inr (), w\<lparr>cq_unacked := remove1 d (cq_unacked w), cq_acked := cq_acked w @ [d]\<rparr>)
     else (Inl AmqpError, w))"

definition nack :: "string \<Rightarrow> delivery \<Rightarrow> bool \<Rightarrow> (exn, 'x consumer_world_scheme, unit) prog" where
  "nack q d requeue = queue_call (\<lambda>w.
     if d \<in> set (cq_unacked w)
     then let w' = w\<lparr>cq_unacked := remove1 d (cq_unacked w)\<rparr>
          in (Inr (), if requeue then w'\<lparr>cq_ready := d # cq_ready w\<rparr>
                      else if dead_letter_queue q w = None then w'
                      else w'\<lparr>cq_dead := cq_dead w @ [d]\<rparr>)
     else (Inl AmqpError, w))"

definition consumer_channel :: "(exn, 'x consumer_world_scheme, nat) prog" where
  "consumer_channel = queue_call (\<lambda>w.
     (Inr (cq_next_channel w), w\<lparr>cq_open := cq_next_channel w # cq_open w,
        cq_next_channel := Suc (cq_next_channel w)\<rparr>))"

definition set_qos :: "int \<Rightarrow> (exn, 'x consumer_world_scheme, unit) prog" where
  "set_qos n = queue_call (\<lambda>w. (Inr (), w\<lparr>cq_prefetch := n\<rparr>))"

text \<open>Declaring an existing queue with other arguments is an error.\<close>

definition declare_queue ::
    "string \<Rightarrow> (string \<times> string) list \<Rightarrow> (exn, 'x consumer_world_scheme, unit) prog" where
  "declare_queue q args = queue_call (\<lambda>w. case map_of (cq_declared w) q of
       None \<Rightarrow> (Inr (), w\<lparr>cq_declared := (q, args) # cq_declared w\<rparr>)
     | Some args' \<Rightarrow> (if args' = args then Inr () else Inl AmqpError, w))"

definition consume :: "string \<Rightarrow> (exn, 'x consumer_world_scheme, unit) prog" where
  "consume q = queue_call (\<lambda>w. (Inr (), w\<lparr>cq_consuming := Some q\<rparr>))"

text \<open>What the server does when a channel with consumers goes away.\<close>

definition requeue_unacked :: "'x consumer_world_scheme \<Rightarrow> 'x consumer_world_scheme" where
  "requeue_unacked w =
     w\<lparr>cq_ready := cq_unacked w @ cq_ready w, cq_unacked := [], cq_consuming := None\<rparr>"

definition close_consumer_channel :: "nat \<Rightarrow> (exn, 'x consumer_world_scheme, unit) prog" where
  "close_consumer_channel ch = queue_call (\<lambda>w.
     (Inr (), (requeue_unacked w)\<lparr>cq_open := removeAll ch (cq_open w)\<rparr>))"

text \<open>The server hands the next message over while the prefetch limit (0: none) allows it.\<close>

definition can_deliver :: "'x consumer_world_scheme \<Rightarrow> bool" where
  "can_deliver w \<longleftrightarrow> cq_consuming w \<noteq> None \<and> cq_ready w \<noteq> [] \<and>
     (cq_prefetch w = 0 \<or> int (length (cq_unacked w)) < cq_prefetch w)"

definition deliver :: "'x consumer_world_scheme \<Rightarrow> 'x consumer_world_scheme" where
  "deliver w = w\<lparr>cq_ready := tl (cq_ready w), cq_unacked := cq_unacked w @ [hd (cq_ready w)]\<rparr>"

definition arrive :: "delivery \<Rightarrow> 'x consumer_world_scheme \<Rightarrow> 'x consumer_world_scheme" where
  "arrive d w = w\<lparr>cq_arrived := cq_arrived w @ [d], cq_ready := cq_ready w @ [d]\<rparr>"

section \<open>BaseConsumer\<close>

definition dead_letter_arguments :: "string \<Rightarrow> (string \<times> string) list" where
  "dead_letter_arguments dlq =
     [(''x-dead-letter-exchange'', ''''), (''x-dead-letter-routing-key'', dlq)]"

definition set_channel :: "nat \<Rightarrow> (exn, 'x consumer_world_scheme, unit) prog" where
  "set_channel ch = atomic (\<lambda>w. (Inr (), w\<lparr>cq_channel := Some ch\<rparr>))"

definition start :: "base_consumer \<Rightarrow> (exn, 'x consumer_world_scheme, unit) prog" where
  "start c =
     and_then consumer_channel (\<lambda>ch.
     and_then (set_channel ch) (\<lambda>_.
     and_then (set_qos (cn_prefetch_count c)) (\<lambda>_.
     and_then (declare_queue (cn_queue_name c) (dead_letter_arguments (cn_dlq_name c))) (\<lambda>_.
     and_then (declare_queue (cn_dlq_name c) []) (\<lambda>_.
       consume (cn_queue_name c))))))"

definition stop :: "(exn, 'x consumer_world_scheme, unit) prog" where
  "stop = and_then (atomic (\<lambda>w. (Inr (cq_channel w), w))) (\<lambda>channel. case channel of
       None \<Rightarrow> ret ()
     | Some ch \<Rightarrow> close_consumer_channel ch)"

definition bind_context :: "string \<Rightarrow> string \<Rightarrow> (exn, 'x consumer_world_scheme, unit) prog" where
  "bind_context correlation_id queue = atomic (\<lambda>w.
     (Inr (), w\<lparr>cq_context := dict_set (dict_set (cq_context w) ''correlation_id'' correlation_id) ''queue'' queue\<rparr>))"

definition unbind_context :: "(exn, 'x consumer_world_scheme, unit) prog" where
  "unbind_context = atomic (\<lambda>w.
     (Inr (), w\<lparr>cq_context := filter (\<lambda>(k, v). k \<noteq> ''correlation_id'' \<and> k \<noteq> ''queue'') (cq_context w)\<rparr>))"

text \<open>\<open>str(headers.get("correlation_id", "unknown"))\<close> with \<open>headers = message.headers or {}\<close>.\<close>

definition message_correlation_id :: "platform \<Rightarrow> delivery \<Rightarrow> string" where
  "message_correlation_id pf d =
     py_str (py_repr pf)
       (dict_get_or (case dl_headers d of None \<Rightarrow> [] | Some h \<Rightarrow> h) ''correlation_id'' (JStr ''unknown''))"

definition on_message ::
    "platform \<Rightarrow> base_consumer \<Rightarrow> (json \<Rightarrow> string \<Rightarrow> (exn, 'x consumer_world_scheme, unit) prog) \<Rightarrow>
     delivery \<Rightarrow> (exn, 'x consumer_world_scheme, unit) prog" where
  "on_message pf c process_message d =
     (let correlation_id = message_correlation_id pf d in
      and_then (bind_context correlation_id (cn_queue_name c)) (\<lambda>_.
        finally_do
          (on_error
            (case json_loads pf (dl_body d) of
               None \<Rightarrow> throw JSONDecodeError
             | Some payload \<Rightarrow> and_then (process_message payload correlation_id) (\<lambda>_. ack d))
            (\<lambda>e. if is_service_error e then nack (cn_queue_name c) d False
                 else if is_exception e then nack (cn_queue_name c) d True
                 else throw e))
          unbind_context))"

section \<open>What happens to one message\<close>

text \<open>The outcome of the work on a message, and where the message goes.\<close>

definition work_outcome ::
    "platform \<Rightarrow> base_consumer \<Rightarrow> (json \<Rightarrow> string \<Rightarrow> (exn, 'x consumer_world_scheme, unit) prog) \<Rightarrow>
     delivery \<Rightarrow> 'x consumer_world_scheme \<Rightarrow> exn + unit" where
  "work_outcome pf c pm d w =
     (case json_loads pf (dl_body d) of
        None \<Rightarrow> Inl JSONDecodeError
      | Some j \<Rightarrow> fst (run (pm j (message_correlation_id pf d))
          (snd (run (bind_context (message_correlation_id pf d) (cn_queue_name c)) w))))"

text \<open>The handler works on its own part of the state only.\<close>

definition leaves_queue_alone :: "(json \<Rightarrow> string \<Rightarrow> (exn, 'x consumer_world_scheme, unit) prog) \<Rightarrow> bool" where
  "leaves_queue_alone pm \<longleftrightarrow>
     (\<forall>j cid w. consumer_world.truncate (snd (run (pm j cid) w)) = consumer_world.truncate w)"

definition no_faults :: "'x consumer_world_scheme \<Rightarrow> bool" where
  "no_faults w \<longleftrightarrow> (\<forall>n. cq_faults w n = NoFault)"

lemma run_queue_call [run_simps]:
  "no_faults w \<Longrightarrow> run (queue_call f) w = f (w\<lparr>cq_calls := Suc (cq_calls w)\<rparr>)"
  by (simp add: queue_call_def no_faults_def Let_def)

lemma truncate_fields:
  "consumer_world.truncate v = consumer_world.truncate w \<longleftrightarrow>
     cq_arrived v = cq_arrived w \<and> cq_ready v = cq_ready w \<and> cq_unacked v = cq_unacked w \<and>
     cq_dead v = cq_dead w \<and> cq_acked v = cq_acked w \<and> cq_declared v = cq_declared w \<and>
     cq_prefetch v = cq_prefetch w \<and> cq_consuming v = cq_consuming w \<and> cq_channel v = cq_channel w \<and>
     cq_open v = cq_open w \<and> cq_next_channel v = cq_next_channel w \<and> cq_context v = cq_context w \<and>
     cq_faults v = cq_faults w \<and> cq_calls v = cq_calls w"
  by (auto simp: consumer_world.truncate_def)

text \<open>Where a message goes, given the outcome of the work on it.\<close>

datatype verdict = Acked | DeadLettered | Requeued | Unsettled

definition verdict_of :: "exn + unit \<Rightarrow> verdict" where
  "verdict_of r = (case r of
       Inr _ \<Rightarrow> Acked
     | Inl e \<Rightarrow> if is_service_error e then DeadLettered else if is_exception e then Requeued else Unsettled)"

definition settled :: "verdict \<Rightarrow> delivery \<Rightarrow> 'x consumer_world_scheme \<Rightarrow> 'y consumer_world_scheme \<Rightarrow> bool" where
  "settled x d w v \<longleftrightarrow>
     cq_unacked v = (if x = Unsettled then cq_unacked w else remove1 d (cq_unacked w)) \<and>
     cq_acked v = cq_acked w @ (if x = Acked then [d] else []) \<and>
     cq_dead v = cq_dead w @ (if x = DeadLettered then [d] else []) \<and>
     cq_ready v = (if x = Requeued then [d] else []) @ cq_ready w"

lemma unbound_context [simp]:
  "map_of (filter (\<lambda>(k, v). k \<noteq> a \<and> k \<noteq> b) xs) a = None"
  "map_of (filter (\<lambda>(k, v). k \<noteq> a \<and> k \<noteq> b) xs) b = None"
  by (auto simp: map_of_eq_None_iff)

lemma run_bind_context:
  "run (bind_context cid q) w =
     (Inr (), w\<lparr>cq_context := dict_set (dict_set (cq_context w) ''correlation_id'' cid) ''queue'' q\<rparr>)"
  by (simp add: bind_context_def)

lemma run_ack: "no_faults w \<Longrightarrow> d \<in> set (cq_unacked w) \<Longrightarrow> run (ack d) w =
    (Inr (), w\<lparr>cq_calls := Suc (cq_calls w), cq_unacked := remove1 d (cq_unacked w), cq_acked := cq_acked w @ [d]\<rparr>)"
  by (simp add: ack_def run_queue_call)

lemma dead_letter_queue_cong: "cq_declared v = cq_declared w \<Longrightarrow> dead_letter_queue q v = dead_letter_queue q w"
  unfolding dead_letter_queue_def by (erule ssubst) (rule refl)

lemma run_nack: "no_faults w \<Longrightarrow> d \<in> set (cq_unacked w) \<Longrightarrow> dead_letter_queue q w \<noteq> None \<Longrightarrow> run (nack q d requeue) w =
    (Inr (), if requeue
       then w\<lparr>cq_calls := Suc (cq_calls w), cq_unacked := remove1 d (cq_unacked w), cq_ready := d # cq_ready w\<rparr>
       else w\<lparr>cq_calls := Suc (cq_calls w), cq_unacked := remove1 d (cq_unacked w), cq_dead := cq_dead w @ [d]\<rparr>)"
  using dead_letter_queue_cong [of "w\<lparr>cq_calls := Suc (cq_calls w)\<rparr>" w q]
  by (simp add: nack_def run_queue_call Let_def)

lemma on_message_settles:
  assumes "no_faults w" and "leaves_queue_alone pm" and "d \<in> set (cq_unacked w)"
    and "dead_letter_queue (cn_queue_name c) w \<noteq> None"
  obtains v where "run (on_message pf c pm d) w = (if work_outcome pf c pm d w = Inl Cancelled then Inl Cancelled else Inr (), v)"
    "settled (verdict_of (work_outcome pf c pm d w)) d w v"
    "map_of (cq_context v) ''correlation_id'' = None" "map_of (cq_context v) ''queue'' = None"
    "no_faults v" "cq_declared v = cq_declared w" "cq_prefetch v = cq_prefetch w"
    "cq_consuming v = cq_consuming w" "cq_arrived v = cq_arrived w"
proof -
  let ?cid = "message_correlation_id pf d"
  define u where "u = snd (run (bind_context ?cid (cn_queue_name c)) w)"
  have u: "run (bind_context ?cid (cn_queue_name c)) w = (Inr (), u)" by (simp add: u_def run_bind_context)
  have uw: "no_faults u" "cq_unacked u = cq_unacked w" "cq_acked u = cq_acked w" "cq_dead u = cq_dead w"
    "cq_ready u = cq_ready w" "cq_declared u = cq_declared w" "cq_prefetch u = cq_prefetch w"
    "cq_consuming u = cq_consuming w" "cq_arrived u = cq_arrived w"
    using assms(1) by (simp_all add: u_def run_bind_context no_faults_def)
  obtain r u' where r: "run (case json_loads pf (dl_body d) of None \<Rightarrow> throw JSONDecodeError | Some j \<Rightarrow> pm j ?cid) u = (r, u')"
    by (cases "run (case json_loads pf (dl_body d) of None \<Rightarrow> throw JSONDecodeError | Some j \<Rightarrow> pm j ?cid) u")
  have "consumer_world.truncate u' = consumer_world.truncate u"
    using r assms(2) unfolding leaves_queue_alone_def
    by (cases "json_loads pf (dl_body d)") (auto dest: sym [of _ u'] simp del: truncate_fields, metis snd_conv)
  then have u'u: "no_faults u'" "cq_unacked u' = cq_unacked u" "cq_acked u' = cq_acked u" "cq_dead u' = cq_dead u"
    "cq_ready u' = cq_ready u" "cq_declared u' = cq_declared u" "cq_prefetch u' = cq_prefetch u"
    "cq_consuming u' = cq_consuming u" "cq_arrived u' = cq_arrived u"
    using uw(1) unfolding truncate_fields no_faults_def by simp_all
  have work: "work_outcome pf c pm d w = r"
    using r by (cases "json_loads pf (dl_body d)") (simp_all add: work_outcome_def u)
  define p where "p = (case json_loads pf (dl_body d) of None \<Rightarrow> throw JSONDecodeError | Some j \<Rightarrow> pm j ?cid)"
  have body: "(case json_loads pf (dl_body d) of None \<Rightarrow> throw JSONDecodeError
      | Some payload \<Rightarrow> and_then (pm payload ?cid) (\<lambda>_. ack d)) = and_then p (\<lambda>_. ack d)"
    by (simp add: p_def and_then_def split: option.split)
  have d: "d \<in> set (cq_unacked u')" and dlq: "dead_letter_queue (cn_queue_name c) u' \<noteq> None"
    using assms(3,4) uw u'u dead_letter_queue_cong [of u' w] by simp_all
  let ?v = "snd (run (on_message pf c pm d) w)"
  note runs = on_message_def Let_def run_and_then run_finally_do run_on_error body u
    r [folded p_def] run_ack [OF u'u(1) d] run_nack [OF u'u(1) d dlq]
  have "run (on_message pf c pm d) w = (if r = Inl Cancelled then Inl Cancelled else Inr (), ?v) \<and>
    settled (verdict_of r) d w ?v \<and>
    map_of (cq_context ?v) ''correlation_id'' = None \<and> map_of (cq_context ?v) ''queue'' = None \<and>
    no_faults ?v \<and> cq_declared ?v = cq_declared w \<and> cq_prefetch ?v = cq_prefetch w \<and>
    cq_consuming ?v = cq_consuming w \<and> cq_arrived ?v = cq_arrived w"
  proof (cases r)
    case (Inl e)
    have "is_service_error e \<Longrightarrow> e \<noteq> Cancelled" by auto
    with Inl show ?thesis
      using uw u'u
      by (cases "is_service_error e"; cases "e = Cancelled")
        (simp_all add: runs settled_def verdict_of_def is_exception_def unbind_context_def no_faults_def)
  next
    case (Inr x)
    then show ?thesis
      using uw u'u by (simp add: runs settled_def verdict_of_def unbind_context_def no_faults_def)
  qed
  then show thesis using that [of ?v] unfolding work by blast
qed

section \<open>No message is lost\<close>

text \<open>
  Every message that arrived is in exactly one place, and messages are handed out only when
  rejected ones have somewhere to go.
\<close>

definition consumer_ok :: "base_consumer \<Rightarrow> 'x consumer_world_scheme \<Rightarrow> bool" where
  "consumer_ok c w \<longleftrightarrow>
     mset (cq_arrived w) = mset (cq_ready w) + mset (cq_unacked w) + mset (cq_dead w) + mset (cq_acked w) \<and>
     (cq_consuming w \<noteq> None \<or> cq_unacked w \<noteq> [] \<longrightarrow>
        dead_letter_queue (cn_queue_name c) w = Some (cn_dlq_name c))"

definition evolves :: "base_consumer \<Rightarrow> 'x consumer_world_scheme \<Rightarrow> 'x consumer_world_scheme \<Rightarrow> bool" where
  "evolves c w w' \<longleftrightarrow> map_of (cq_declared w) \<subseteq>\<^sub>m map_of (cq_declared w') \<and>
     (consumer_ok c w \<longrightarrow> consumer_ok c w')"

interpretation consumers: interference "\<lambda>_ :: nat. evolves c" "\<lambda>_. evolves c" for c :: base_consumer
  by unfold_locales (auto simp: evolves_def intro: map_le_trans)

lemma dead_letter_queue_mono:
  assumes "dead_letter_queue q w = Some k" and "map_of (cq_declared w) \<subseteq>\<^sub>m map_of (cq_declared w')"
  shows "dead_letter_queue q w' = Some k"
proof -
  obtain args where args: "map_of (cq_declared w) q = Some args"
    "map_of args ''x-dead-letter-exchange'' = Some ''''" "map_of args ''x-dead-letter-routing-key'' = Some k"
    "k \<in> fst ` set (cq_declared w)"
    using assms(1) unfolding dead_letter_queue_def by (auto split: option.splits if_splits)
  have "dom (map_of (cq_declared w)) \<subseteq> dom (map_of (cq_declared w'))"
    using assms(2) by (rule map_le_implies_dom_le)
  then have "k \<in> fst ` set (cq_declared w')" using args(4) unfolding dom_map_of_conv_image_fst by blast
  moreover have "map_of (cq_declared w') q = Some args"
    using assms(2) args(1) by (metis domI map_le_def)
  ultimately show ?thesis using args(2,3) by (simp add: dead_letter_queue_def)
qed

text \<open>A change that only moves messages between places.\<close>

lemma evolves_moves:
  assumes "cq_declared w' = cq_declared w" and "cq_arrived w' = cq_arrived w"
    and "mset (cq_ready w') + mset (cq_unacked w') + mset (cq_dead w') + mset (cq_acked w') =
      mset (cq_ready w) + mset (cq_unacked w) + mset (cq_dead w) + mset (cq_acked w)"
    and "cq_consuming w' \<noteq> None \<or> cq_unacked w' \<noteq> [] \<Longrightarrow> cq_consuming w \<noteq> None \<or> cq_unacked w \<noteq> []"
  shows "evolves c w w'"
  using assms dead_letter_queue_cong [OF assms(1)] by (auto simp: evolves_def consumer_ok_def)

lemma wp_queue_call:
  assumes "\<And>u. evolves c w u \<Longrightarrow> evolves c u (snd (f u))"
    and "\<And>u a v. evolves c w u \<Longrightarrow> fst (f u) = Inr a \<Longrightarrow> evolves c (snd (f u)) v \<Longrightarrow> Q (Inr a) v"
    and "\<And>e v. Q (Inl e) v"
  shows "wp (evolves c) (evolves c) (queue_call f) Q w"
  unfolding queue_call_def
proof (rule consumers.wp_atomic)
  fix w' assume w': "evolves c w w'"
  let ?u = "w'\<lparr>cq_calls := Suc (cq_calls w')\<rparr>"
  have u: "evolves c w' ?u" by (rule evolves_moves) simp_all
  with w' have wu: "evolves c w ?u" by (rule consumers.R_trans)
  then have fu: "evolves c ?u (snd (f ?u))" by (rule assms(1))
  then have "evolves c w' (snd (f ?u))" by (rule consumers.R_trans [OF u])
  with u show "evolves c w' (snd (let w'' = ?u in case cq_faults w' (cq_calls w') of NoFault \<Rightarrow> f w''
      | Fault ap ca \<Rightarrow> (Inl (if ca then Cancelled else AmqpError), if ap then snd (f w'') else w'')))"
    by (simp add: Let_def split: fault.split)
  show "Q (fst (let w'' = ?u in case cq_faults w' (cq_calls w') of NoFault \<Rightarrow> f w''
      | Fault ap ca \<Rightarrow> (Inl (if ca then Cancelled else AmqpError), if ap then snd (f w'') else w''))) v"
    if "evolves c (snd (let w'' = ?u in case cq_faults w' (cq_calls w') of NoFault \<Rightarrow> f w''
      | Fault ap ca \<Rightarrow> (Inl (if ca then Cancelled else AmqpError), if ap then snd (f w'') else w''))) v" for v
    using that assms(2) [OF wu] assms(3)
    by (cases "fst (f ?u)") (auto simp: Let_def split: fault.splits)
qed

text \<open>A program whose every action evolves the broker.\<close>

definition careful :: "base_consumer \<Rightarrow> (exn, 'x consumer_world_scheme, 'a) prog \<Rightarrow> bool" where
  "careful c p \<longleftrightarrow> (\<forall>w. wp (evolves c) (evolves c) p (\<lambda>_ _. True) w)"

lemma careful_Done: "careful c (Done r)"
  by (simp add: careful_def wp_Done)

lemma careful_atomic: "(\<And>w. evolves c w (snd (f w))) \<Longrightarrow> careful c (atomic f)"
  by (auto simp: careful_def intro: consumers.wp_atomic)

lemma careful_queue_call: "(\<And>w. evolves c w (snd (f w))) \<Longrightarrow> careful c (queue_call f)"
  by (auto simp: careful_def intro: wp_queue_call)

lemma careful_attempt: "careful c p \<Longrightarrow> (\<And>r. careful c (h r)) \<Longrightarrow> careful c (attempt p h)"
  unfolding careful_def
proof
  fix w
  assume p: "\<forall>w. wp (evolves c) (evolves c) p (\<lambda>_ _. True) w"
    and h: "\<And>r. \<forall>w. wp (evolves c) (evolves c) (h r) (\<lambda>_ _. True) w"
  have "wp (evolves c) (evolves c) p (\<lambda>r. wp (evolves c) (evolves c) (h r) (\<lambda>_ _. True)) w"
    by (rule consumers.wp_consequence [OF p [rule_format]]) (simp add: h)
  then show "wp (evolves c) (evolves c) (attempt p h) (\<lambda>_ _. True) w" by (rule consumers.wp_attempt)
qed

lemma careful_and_then: "careful c p \<Longrightarrow> (\<And>x. careful c (k x)) \<Longrightarrow> careful c (and_then p k)"
  unfolding and_then_def by (rule careful_attempt) (simp_all add: careful_Done split: sum.split)

lemma careful_on_error: "careful c p \<Longrightarrow> (\<And>e. careful c (h e)) \<Longrightarrow> careful c (on_error p h)"
  unfolding on_error_def by (rule careful_attempt) (simp_all add: careful_Done split: sum.split)

lemma careful_finally_do: "careful c p \<Longrightarrow> careful c q \<Longrightarrow> careful c (finally_do p q)"
  unfolding finally_do_def by (intro careful_attempt careful_and_then careful_Done)

lemma careful_ack: "careful c (ack d)"
  unfolding ack_def
  by (rule careful_queue_call) (auto intro!: evolves_moves simp: in_set_conv_decomp)

lemma careful_nack: "careful c (nack (cn_queue_name c) d requeue)"
  unfolding nack_def
proof (rule careful_queue_call)
  fix w :: "'x consumer_world_scheme"
  show "evolves c w (snd (if d \<in> set (cq_unacked w)
     then let w' = w\<lparr>cq_unacked := remove1 d (cq_unacked w)\<rparr>
          in (Inr (), if requeue then w'\<lparr>cq_ready := d # cq_ready w\<rparr>
                      else if dead_letter_queue (cn_queue_name c) w = None then w'
                      else w'\<lparr>cq_dead := cq_dead w @ [d]\<rparr>)
     else (Inl AmqpError, w)))"
  proof (cases "d \<in> set (cq_unacked w) \<and> \<not> requeue \<and> dead_letter_queue (cn_queue_name c) w = None")
    case True
    then have "\<not> consumer_ok c w" by (auto simp: consumer_ok_def)
    then show ?thesis using True by (simp add: evolves_def Let_def)
  next
    case False
    then show ?thesis by (auto intro!: evolves_moves simp: in_set_conv_decomp Let_def)
  qed
qed

lemma careful_context: "careful c (bind_context cid q)" "careful c unbind_context"
  unfolding bind_context_def unbind_context_def
  by (rule careful_atomic, simp, rule evolves_moves, simp_all)+

lemma careful_on_message:
  assumes "\<And>j cid. careful c (pm j cid)"
  shows "careful c (on_message pf c pm d)"
  unfolding on_message_def Let_def
proof (intro careful_and_then careful_finally_do careful_on_error careful_context)
  show "careful c (case json_loads pf (dl_body d) of None \<Rightarrow> throw JSONDecodeError
      | Some payload \<Rightarrow> and_then (pm payload (message_correlation_id pf d)) (\<lambda>_. ack d))"
    by (auto simp: careful_Done assms careful_ack intro!: careful_and_then split: option.split)
  show "careful c (if is_service_error e then nack (cn_queue_name c) d False
      else if is_exception e then nack (cn_queue_name c) d True else throw e)" for e
    by (simp add: careful_nack careful_Done)
qed

text \<open>\<open>start\<close> consumes only when both queues are declared.\<close>

lemma evolves_declare:
  assumes "map_of (cq_declared w) q = None"
  shows "evolves c w (w\<lparr>cq_declared := (q, args) # cq_declared w\<rparr>)"
proof -
  have le: "map_of (cq_declared w) \<subseteq>\<^sub>m map_of (cq_declared (w\<lparr>cq_declared := (q, args) # cq_declared w\<rparr>))"
    using assms by (auto simp: map_le_def)
  then show ?thesis using dead_letter_queue_mono [OF _ le]
    unfolding evolves_def consumer_ok_def by simp
qed

definition declared_as :: "string \<Rightarrow> (string \<times> string) list \<Rightarrow> 'x consumer_world_scheme \<Rightarrow> bool" where
  "declared_as q args w \<longleftrightarrow> map_of (cq_declared w) q = Some args"

lemma declared_as_stable: "declared_as q args w \<Longrightarrow> evolves c w w' \<Longrightarrow> declared_as q args w'"
  unfolding declared_as_def evolves_def map_le_def by (metis domI)

lemma wp_declare_queue:
  assumes "\<And>u. evolves c w u \<Longrightarrow> declared_as q args u \<Longrightarrow> Q (Inr ()) u" and "\<And>e u. Q (Inl e) u"
  shows "wp (evolves c) (evolves c) (declare_queue q args) Q w"
  unfolding declare_queue_def
proof (rule wp_queue_call)
  fix u assume u: "evolves c w u"
  show step: "evolves c u (snd (case map_of (cq_declared u) q of
       None \<Rightarrow> (Inr (), u\<lparr>cq_declared := (q, args) # cq_declared u\<rparr>)
     | Some args' \<Rightarrow> (if args' = args then Inr () else Inl AmqpError, u)))"
    by (auto simp: evolves_declare consumers.R_refl split: option.split)
  fix a v
  assume Inr: "fst (case map_of (cq_declared u) q of
       None \<Rightarrow> (Inr (), u\<lparr>cq_declared := (q, args) # cq_declared u\<rparr>)
     | Some args' \<Rightarrow> (if args' = args then Inr () else Inl AmqpError, u)) = Inr a"
    and v: "evolves c (snd (case map_of (cq_declared u) q of
       None \<Rightarrow> (Inr (), u\<lparr>cq_declared := (q, args) # cq_declared u\<rparr>)
     | Some args' \<Rightarrow> (if args' = args then Inr () else Inl AmqpError, u))) v"
  then have "declared_as q args v"
    by (intro declared_as_stable [OF _ v]) (auto simp: declared_as_def split: option.splits if_splits)
  moreover have "evolves c w v" using u step v by (blast intro: consumers.R_trans)
  ultimately show "Q (Inr a) v" using assms(1) by simp
qed (rule assms(2))

lemma careful_declarations: "careful c (and_then (declare_queue (cn_queue_name c) (dead_letter_arguments (cn_dlq_name c)))
    (\<lambda>_. and_then (declare_queue (cn_dlq_name c) []) (\<lambda>_. consume (cn_queue_name c))))"
  unfolding careful_def
proof
  fix w :: "'x consumer_world_scheme"
  let ?q = "cn_queue_name c" and ?k = "cn_dlq_name c"
  have last: "wp (evolves c) (evolves c) (consume ?q) (\<lambda>_ _. True) v"
    if "declared_as ?q (dead_letter_arguments ?k) v" "declared_as ?k [] v" for v :: "'x consumer_world_scheme"
    unfolding consume_def
  proof (rule wp_queue_call)
    fix u assume "evolves c v u"
    then have "declared_as ?q (dead_letter_arguments ?k) u" "declared_as ?k [] u"
      using that declared_as_stable by blast+
    then have "dead_letter_queue ?q u = Some ?k"
      by (force simp: declared_as_def dead_letter_queue_def dead_letter_arguments_def dest: map_of_SomeD)
    moreover have "dead_letter_queue ?q (u\<lparr>cq_consuming := Some ?q\<rparr>) = dead_letter_queue ?q u"
      by (rule dead_letter_queue_cong) simp
    ultimately show "evolves c u (snd (Inr (), u\<lparr>cq_consuming := Some ?q\<rparr>))"
      by (simp add: evolves_def consumer_ok_def)
  qed simp_all
  show "wp (evolves c) (evolves c) (and_then (declare_queue ?q (dead_letter_arguments ?k)) (\<lambda>_.
      and_then (declare_queue ?k []) (\<lambda>_. consume ?q))) (\<lambda>_ _. True) w"
  proof (rule consumers.wp_and_then, rule wp_declare_queue, simp_all, rule consumers.wp_and_then,
      rule wp_declare_queue, simp_all)
    fix u u' :: "'x consumer_world_scheme"
    assume "declared_as ?q (dead_letter_arguments ?k) u" "evolves c u u'" "declared_as ?k [] u'"
    then show "wp (evolves c) (evolves c) (consume ?q) (\<lambda>_ _. True) u'"
      by (intro last) (rule declared_as_stable)
  qed
qed

lemma careful_start: "careful c (start c)"
  unfolding start_def
proof (rule careful_and_then [OF _ careful_and_then [OF _ careful_and_then [OF _ careful_declarations]]])
  show "careful c (set_channel ch)" for ch
    unfolding set_channel_def by (rule careful_atomic, rule evolves_moves) simp_all
  show "careful c consumer_channel" "careful c (set_qos n)" for n
    unfolding consumer_channel_def set_qos_def by (rule careful_queue_call, rule evolves_moves, simp_all)+
qed


lemma evolves_requeue: "evolves c w (requeue_unacked w)"
  by (rule evolves_moves) (simp_all add: requeue_unacked_def)

lemma careful_close: "careful c (close_consumer_channel ch)"
  unfolding close_consumer_channel_def
  by (rule careful_queue_call, simp, rule evolves_moves) (simp_all add: requeue_unacked_def)

lemma careful_stop: "careful c stop"
  unfolding stop_def
proof (rule careful_and_then)
  show "careful c (atomic (\<lambda>w. (Inr (cq_channel w), w)))"
    by (rule careful_atomic) (simp add: consumers.R_refl)
  show "careful c (case x of None \<Rightarrow> ret () | Some ch \<Rightarrow> close_consumer_channel ch)" for x
    by (simp add: careful_Done careful_close split: option.split)
qed

section \<open>The running consumer\<close>

text \<open>
  Any number of handlers run concurrently, next to starts and stops of the consumer, while
  messages arrive, are handed out, and the connection breaks.
\<close>

definition consumer_task ::
    "platform \<Rightarrow> base_consumer \<Rightarrow> (json \<Rightarrow> string \<Rightarrow> (exn, 'x consumer_world_scheme, unit) prog) \<Rightarrow>
     (exn, 'x consumer_world_scheme, unit) prog \<Rightarrow> bool" where
  "consumer_task pf c pm p \<longleftrightarrow> p = start c \<or> p = stop \<or> (\<exists>d. p = on_message pf c pm d)"

definition broker_event :: "'x consumer_world_scheme \<Rightarrow> 'x consumer_world_scheme \<Rightarrow> bool" where
  "broker_event w w' \<longleftrightarrow> (\<exists>d. w' = arrive d w) \<or> (can_deliver w \<and> w' = deliver w) \<or> w' = requeue_unacked w"

definition empty_broker :: "'x consumer_world_scheme \<Rightarrow> bool" where
  "empty_broker w \<longleftrightarrow> cq_arrived w = [] \<and> cq_ready w = [] \<and> cq_unacked w = [] \<and> cq_dead w = [] \<and>
     cq_acked w = [] \<and> cq_consuming w = None"

definition consumer_reachable ::
    "platform \<Rightarrow> base_consumer \<Rightarrow> (json \<Rightarrow> string \<Rightarrow> (exn, 'x consumer_world_scheme, unit) prog) \<Rightarrow>
     (nat \<rightharpoonup> (exn, 'x consumer_world_scheme, unit) prog) \<Rightarrow> 'x consumer_world_scheme \<Rightarrow> bool" where
  "consumer_reachable pf c pm ps w \<longleftrightarrow>
     (\<exists>w0. empty_broker w0 \<and> (pool_step broker_event (\<lambda>_. consumer_task pf c pm))\<^sup>*\<^sup>* (Map.empty, w0) (ps, w))"

lemma broker_event_evolves: "broker_event w w' \<Longrightarrow> evolves c w w'"
  unfolding broker_event_def
proof (elim disjE exE conjE)
  fix d assume w': "w' = arrive d w"
  have "dead_letter_queue q w' = dead_letter_queue q w" for q
    by (rule dead_letter_queue_cong) (simp add: w' arrive_def)
  then show ?thesis by (simp add: evolves_def consumer_ok_def) (simp add: w' arrive_def)
next
  assume "can_deliver w" "w' = deliver w"
  then show ?thesis by (cases "cq_ready w") (auto simp: can_deliver_def deliver_def intro!: evolves_moves)
next
  assume "w' = requeue_unacked w"
  then show ?thesis by (simp add: evolves_requeue)
qed

lemma consumer_reachable_ok:
  assumes "consumer_reachable pf c pm ps w" and pm: "\<And>j cid. careful c (pm j cid)"
  shows "consumer_ok c w"
proof -
  obtain w0 where w0: "empty_broker w0"
    and steps: "(pool_step broker_event (\<lambda>_. consumer_task pf c pm))\<^sup>*\<^sup>* (Map.empty, w0) (ps, w)"
    using assms(1) unfolding consumer_reachable_def by blast
  have tasks: "careful c p" if "consumer_task pf c pm p" for p
    using that careful_start careful_stop careful_on_message [where pm = pm, OF pm] unfolding consumer_task_def by blast
  have "consumer_ok c (snd (ps, w)) \<and>
      consumers.pool_ok c (\<lambda>_. consumer_task pf c pm) (\<lambda>_ _. True) (\<lambda>_ _ _ _. True) (fst (ps, w)) (snd (ps, w))"
  proof (rule consumers.pool_execution_sound [OF steps])
    show "consumer_ok c (snd (Map.empty, w0))" using w0 by (simp add: empty_broker_def consumer_ok_def)
    show "consumers.pool_ok c (\<lambda>_. consumer_task pf c pm) (\<lambda>_ _. True) (\<lambda>_ _ _ _. True) (fst (Map.empty, w0)) (snd (Map.empty, w0))"
      by (simp add: consumers.pool_ok_def)
  qed (use broker_event_evolves tasks in \<open>auto simp: evolves_def careful_def\<close>)
  then show ?thesis by simp
qed

lemma consumer_reachable_event:
  "consumer_reachable pf c pm ps w \<Longrightarrow> broker_event w w' \<Longrightarrow> consumer_reachable pf c pm ps w'"
  unfolding consumer_reachable_def
  using pool_step.environment [of broker_event] by (blast intro: rtranclp.rtrancl_into_rtrancl)

lemma consumer_reachable_task:
  assumes "consumer_reachable pf c pm ps w" and "consumer_task pf c pm p" and "ps i = None"
  shows "consumer_reachable pf c pm (ps(i \<mapsto> Done (fst (run p w)))) (snd (run p w))"
proof -
  let ?step = "pool_step broker_event (\<lambda>_. consumer_task pf c pm)"
  have "?step (ps, w) (ps(i \<mapsto> p), w)" using assms(2,3) by (auto intro: pool_step.spawn)
  moreover have "?step\<^sup>*\<^sup>* (ps(i \<mapsto> p), w) ((ps(i \<mapsto> p))(i \<mapsto> Done (fst (run p w))), snd (run p w))"
    by (rule run_is_pool_execution) simp
  ultimately have "?step\<^sup>*\<^sup>* (ps, w) (ps(i \<mapsto> Done (fst (run p w))), snd (run p w))"
    by (simp add: converse_rtranclp_into_rtranclp)
  then show ?thesis using assms(1) unfolding consumer_reachable_def by (blast intro: rtranclp_trans)
qed

section \<open>An example\<close>

definition demo_consumer :: base_consumer where
  "demo_consumer = base_consumer ''vcs.queue'' ''vcs.queue.dlq'' None"

definition idle_broker :: consumer_world where
  "idle_broker = \<lparr>cq_arrived = [], cq_ready = [], cq_unacked = [], cq_dead = [], cq_acked = [], cq_declared = [],
     cq_prefetch = 0, cq_consuming = None, cq_channel = None, cq_open = [], cq_next_channel = 1, cq_context = [],
     cq_faults = (\<lambda>_. NoFault), cq_calls = 0\<rparr>"

definition demo_message :: delivery where
  "demo_message = \<lparr>dl_id = 7, dl_body = [1], dl_headers = None\<rparr>"

definition started_broker :: consumer_world where
  "started_broker = snd (run (start demo_consumer) idle_broker)"

definition handing_over :: consumer_world where
  "handing_over = deliver (arrive demo_message started_broker)"

lemma started_broker:
  "cq_ready started_broker = []" "cq_unacked started_broker = []" "cq_dead started_broker = []"
  "cq_acked started_broker = []" "cq_prefetch started_broker = 10"
  "cq_consuming started_broker = Some ''vcs.queue''" "no_faults started_broker"
  "cq_declared started_broker = [(''vcs.queue.dlq'', []), (''vcs.queue'', dead_letter_arguments ''vcs.queue.dlq'')]"
  by (simp_all add: started_broker_def start_def run_and_then consumer_channel_def set_channel_def set_qos_def
      declare_queue_def consume_def queue_call_def idle_broker_def demo_consumer_def base_consumer_def no_faults_def)

lemma demo_routed: "cq_declared w = cq_declared started_broker \<Longrightarrow>
    dead_letter_queue ''vcs.queue'' w = Some ''vcs.queue.dlq''"
  by (simp add: dead_letter_queue_def started_broker dead_letter_arguments_def)

lemma handing_over:
  "cq_ready handing_over = []" "cq_unacked handing_over = [demo_message]" "cq_dead handing_over = []"
  "cq_acked handing_over = []" "no_faults handing_over" "cq_declared handing_over = cq_declared started_broker"
  "dead_letter_queue (cn_queue_name demo_consumer) handing_over \<noteq> None"
  using started_broker demo_routed [of handing_over]
  by (simp_all add: handing_over_def deliver_def arrive_def no_faults_def demo_consumer_def base_consumer_def)

lemma handing_over_reachable: "\<exists>ps. consumer_reachable pf demo_consumer pm ps handing_over \<and> (\<forall>i > 0. ps i = None)"
proof -
  have "consumer_reachable pf demo_consumer pm Map.empty idle_broker"
    unfolding consumer_reachable_def by (intro exI [of _ idle_broker]) (simp add: empty_broker_def idle_broker_def)
  then have "consumer_reachable pf demo_consumer pm (Map.empty(0 \<mapsto> Done (fst (run (start demo_consumer) idle_broker)))) started_broker"
    unfolding started_broker_def by (rule consumer_reachable_task) (simp_all add: consumer_task_def)
  moreover have "broker_event started_broker (arrive demo_message started_broker)"
    by (auto simp: broker_event_def)
  moreover have "can_deliver (arrive demo_message started_broker)"
    by (simp add: can_deliver_def arrive_def started_broker)
  then have "broker_event (arrive demo_message started_broker) handing_over"
    by (simp add: broker_event_def handing_over_def)
  ultimately have "consumer_reachable pf demo_consumer pm
      (Map.empty(0 \<mapsto> Done (fst (run (start demo_consumer) idle_broker)))) handing_over"
    by (blast intro: consumer_reachable_event)
  then show ?thesis by (intro exI conjI, assumption) simp
qed

section \<open>Properties\<close>

text \<open>C24: A message whose processing returns is acknowledged, one whose processing raises a
  service error goes to the dead-letter queue, one whose processing (or decoding) raises any
  other exception goes back to the queue, and a cancelled one stays unacknowledged; the logging
  context is cleared in every case.\<close>

theorem message_verdict:
  assumes "no_faults w" and "leaves_queue_alone pm" and "d \<in> set (cq_unacked w)"
    and "dead_letter_queue (cn_queue_name c) w \<noteq> None"
  shows "\<exists>v. run (on_message pf c pm d) w =
      (if work_outcome pf c pm d w = Inl Cancelled then Inl Cancelled else Inr (), v) \<and>
    settled (verdict_of (work_outcome pf c pm d w)) d w v \<and>
    map_of (cq_context v) ''correlation_id'' = None \<and> map_of (cq_context v) ''queue'' = None"
  by (rule on_message_settles [OF assms, where pf = pf]) blast

definition rejecting :: "json \<Rightarrow> string \<Rightarrow> (exn, consumer_world, unit) prog" where
  "rejecting j cid = raise_service BusinessRuleError ''rejected'' []"

definition demo_platform :: platform where
  "demo_platform = \<lparr>json_loads = (\<lambda>bs. if bs = [1] then Some (JObj []) else None), json_dumps = (\<lambda>_. ''''),
     pyd_parse = (\<lambda>_. None), pyd_int = (\<lambda>_. None), pyd_str = (\<lambda>_. None), pyd_dict = (\<lambda>_. None),
     py_repr = (\<lambda>_. ''''), iso_utc = (\<lambda>_. ''''), exc_text = (\<lambda>_. ''''), jsonb_codec = False\<rparr>"

lemma rejecting:
  "leaves_queue_alone rejecting" "careful c (rejecting j cid)"
  "work_outcome demo_platform demo_consumer rejecting demo_message handing_over =
     Inl (Service (service_error BusinessRuleError ''rejected'' (Some [])))"
  by (simp_all add: leaves_queue_alone_def rejecting_def careful_Done work_outcome_def demo_platform_def demo_message_def)

lemma handing_over_member: "demo_message \<in> set (cq_unacked handing_over)"
  by (simp add: handing_over)

theorem message_verdict_witness:
  "\<exists>v. run (on_message demo_platform demo_consumer rejecting demo_message) handing_over = (Inr (), v) \<and>
    cq_dead v = [demo_message] \<and> cq_unacked v = []"
proof -
  obtain v where v: "run (on_message demo_platform demo_consumer rejecting demo_message) handing_over = (Inr (), v)"
    "settled DeadLettered demo_message handing_over v"
    using message_verdict [OF handing_over(5) rejecting(1) handing_over_member handing_over(7), where pf = demo_platform]
    unfolding rejecting(3) by (auto simp: verdict_of_def)
  then show ?thesis by (intro exI [of _ v]) (simp add: settled_def handing_over)
qed

text \<open>C23: Whatever handlers run concurrently and whichever broker calls fail, no message is lost:
  each message that arrived is ready, unacknowledged, dead-lettered or acknowledged, exactly as
  often as it arrived; and the consumer is handed messages only when the dead-letter queue is in
  place.\<close>

theorem no_message_lost:
  assumes "consumer_reachable pf c pm ps w" and "\<And>j cid. careful c (pm j cid)"
  shows "mset (cq_arrived w) = mset (cq_ready w) + mset (cq_unacked w) + mset (cq_dead w) + mset (cq_acked w) \<and>
    (cq_consuming w \<noteq> None \<longrightarrow> dead_letter_queue (cn_queue_name c) w = Some (cn_dlq_name c))"
  using consumer_reachable_ok [where pm = pm, OF assms] unfolding consumer_ok_def by blast

theorem no_message_lost_witness:
  "\<exists>w :: consumer_world. cq_dead w = [demo_message] \<and>
    mset (cq_arrived w) = mset (cq_ready w) + mset (cq_unacked w) + mset (cq_dead w) + mset (cq_acked w)"
proof -
  let ?p = "on_message demo_platform demo_consumer rejecting demo_message"
  let ?w = "snd (run ?p handing_over)"
  obtain ps where ps: "consumer_reachable demo_platform demo_consumer rejecting ps handing_over" "ps 1 = None"
    using handing_over_reachable by (metis zero_less_one)
  have "consumer_reachable demo_platform demo_consumer rejecting (ps(1 \<mapsto> Done (fst (run ?p handing_over)))) ?w"
    by (rule consumer_reachable_task [OF ps(1) _ ps(2)]) (auto simp: consumer_task_def)
  moreover have "cq_dead ?w = [demo_message]"
  proof (rule on_message_settles [OF handing_over(5) rejecting(1) handing_over_member handing_over(7), where pf = demo_platform])
    fix v assume "run ?p handing_over = (if work_outcome demo_platform demo_consumer rejecting demo_message handing_over =
        Inl Cancelled then Inl Cancelled else Inr (), v)"
      "settled (verdict_of (work_outcome demo_platform demo_consumer rejecting demo_message handing_over)) demo_message handing_over v"
    then show "cq_dead ?w = [demo_message]"
      unfolding rejecting(3) by (simp add: verdict_of_def settled_def handing_over)
  qed
  ultimately show ?thesis using no_message_lost [where pm = rejecting, OF _ rejecting(2)] by blast
qed

text \<open>Handing out the first message and handling it.\<close>

definition round_trip ::
    "platform \<Rightarrow> base_consumer \<Rightarrow> (json \<Rightarrow> string \<Rightarrow> (exn, 'x consumer_world_scheme, unit) prog) \<Rightarrow>
     'x consumer_world_scheme \<Rightarrow> 'x consumer_world_scheme" where
  "round_trip pf c pm w = snd (run (on_message pf c pm (hd (cq_ready w))) (deliver w))"

text \<open>C25: A message that cannot be decoded is never given up: however often it is handed out, it
  is back at the head of the queue, and neither acknowledged nor dead-lettered.\<close>

theorem undecodable_message_returns:
  fixes w :: "'x consumer_world_scheme"
  assumes "no_faults w" and pm: "leaves_queue_alone pm" and "json_loads pf (dl_body d) = None"
    and "cq_ready w = d # ds" and "cq_unacked w = []"
    and "dead_letter_queue (cn_queue_name c) w \<noteq> None"
  shows "cq_ready ((round_trip pf c pm ^^ n) w) = d # ds \<and>
    cq_dead ((round_trip pf c pm ^^ n) w) = cq_dead w \<and> cq_acked ((round_trip pf c pm ^^ n) w) = cq_acked w"
proof -
  define same where "same v \<longleftrightarrow> no_faults v \<and> cq_ready v = d # ds \<and> cq_unacked v = [] \<and>
    dead_letter_queue (cn_queue_name c) v \<noteq> None \<and> cq_dead v = cq_dead w \<and> cq_acked v = cq_acked w" for v :: "'x consumer_world_scheme"
  have "same (round_trip pf c pm v)" if "same v" for v
  proof -
    let ?v = "deliver v"
    have v: "no_faults ?v" "d \<in> set (cq_unacked ?v)" "dead_letter_queue (cn_queue_name c) ?v \<noteq> None"
      "hd (cq_ready v) = d" "cq_ready ?v = ds" "cq_unacked ?v = [d]" "cq_dead ?v = cq_dead w" "cq_acked ?v = cq_acked w"
      using that dead_letter_queue_cong [of ?v v "cn_queue_name c"] by (simp_all add: same_def deliver_def no_faults_def)
    obtain u where u: "run (on_message pf c pm d) ?v =
        (if work_outcome pf c pm d ?v = Inl Cancelled then Inl Cancelled else Inr (), u)"
      "settled (verdict_of (work_outcome pf c pm d ?v)) d ?v u" "no_faults u" "cq_declared u = cq_declared ?v"
      by (rule on_message_settles [OF v(1) pm v(2,3), where pf = pf])
    have "verdict_of (work_outcome pf c pm d ?v) = Requeued"
      using assms(3) by (simp add: work_outcome_def verdict_of_def is_exception_def)
    then show ?thesis
      using u v dead_letter_queue_cong [OF u(4), of "cn_queue_name c"]
      by (simp add: round_trip_def same_def settled_def)
  qed
  moreover have "same w" using assms by (simp add: same_def)
  ultimately have "same ((round_trip pf c pm ^^ n) w)" by (induction n) simp_all
  then show ?thesis by (simp add: same_def)
qed

theorem undecodable_message_returns_witness:
  "let d = \<lparr>dl_id = 8, dl_body = [0], dl_headers = None\<rparr>
   in cq_ready ((round_trip demo_platform demo_consumer rejecting ^^ 1000) (arrive d started_broker)) = [d]"
proof -
  let ?d = "\<lparr>dl_id = 8, dl_body = [0], dl_headers = None\<rparr>"
  have "dead_letter_queue (cn_queue_name demo_consumer) (arrive ?d started_broker) \<noteq> None"
    using demo_routed [of "arrive ?d started_broker"] by (simp add: arrive_def demo_consumer_def base_consumer_def)
  then show ?thesis
    using undecodable_message_returns [OF _ rejecting(1), of "arrive ?d started_broker" demo_platform ?d "[]" demo_consumer 1000]
      started_broker(7) by (simp add: arrive_def started_broker no_faults_def demo_platform_def)
qed

end
