(* ===== verification/End_To_End.thy ===== *)
theory End_To_End
  imports Recovery Consumer
begin

text \<open>
  The components together: from the answer of \<open>api/v1/webhooks.py\<close> through the tables, the
  publisher of \<open>db/outbox.py\<close> and the broker to a consumer built on \<open>queue/consumer.py\<close>. The
  broker routes the message to the consumer's queue and hands it over as it was published
  (\<open>carries\<close>); how it does so is configuration outside the repository.
\<close>

section \<open>What a message says and how it is handed over\<close>

text \<open>The message of a stored webhook: routing key, body and correlation header.\<close>

definition announces :: "broker_message \<Rightarrow> inbound_event \<Rightarrow> bool" where
  "announces m i \<longleftrightarrow> bm_routing_key m = ''vcs.webhook.received'' \<and> describes (bm_body m) i \<and>
     bm_headers m = [(''correlation_id'', JStr (uuid_str (ie_correlation_id i)))]"

text \<open>The delivery has the message's headers, and its bytes decode to the message's document.\<close>

definition carries :: "platform \<Rightarrow> delivery \<Rightarrow> broker_message \<Rightarrow> bool" where
  "carries pf d m \<longleftrightarrow> json_loads pf (dl_body d) = Some (bm_body m) \<and> dl_headers d = Some (bm_headers m)"

text \<open>The delivery waits for the consumer's answer, and no broker call fails meanwhile.\<close>

definition awaited :: "base_consumer \<Rightarrow> delivery \<Rightarrow> 'x consumer_world_scheme \<Rightarrow> bool" where
  "awaited c d w \<longleftrightarrow> no_faults w \<and> d \<in> set (cq_unacked w) \<and> dead_letter_queue (cn_queue_name c) w \<noteq> None"

text \<open>
  Handling the delivery calls \<open>process_message\<close> with payload \<open>j\<close> and correlation id \<open>cid\<close>,
  logging under that id, and settles the delivery by what the call returns or raises.
\<close>

definition handled_as ::
    "platform \<Rightarrow> base_consumer \<Rightarrow> (json \<Rightarrow> string \<Rightarrow> (exn, 'x consumer_world_scheme, unit) prog) \<Rightarrow>
     delivery \<Rightarrow> json \<Rightarrow> string \<Rightarrow> 'x consumer_world_scheme \<Rightarrow> bool" where
  "handled_as pf c pm d j cid w \<longleftrightarrow>
     (let outcome = fst (run (pm j cid) (snd (run (bind_context cid (cn_queue_name c)) w)))
      in fst (run (on_message pf c pm d) w) = (if outcome = Inl Cancelled then Inl Cancelled else Inr ()) \<and>
         settled (verdict_of outcome) d w (snd (run (on_message pf c pm d) w)))"

lemma carried_correlation_id:
  "carries pf d m \<Longrightarrow> announces m i \<Longrightarrow> message_correlation_id pf d = uuid_str (ie_correlation_id i)"
  by (simp add: carries_def announces_def message_correlation_id_def dict_get_or_def)

lemma carried_message_handled:
  assumes "announces m i" and "carries pf d m" and "awaited c d w" and "leaves_queue_alone pm"
  shows "handled_as pf c pm d (bm_body m) (uuid_str (ie_correlation_id i)) w"
proof -
  have outcome: "work_outcome pf c pm d w = fst (run (pm (bm_body m) (uuid_str (ie_correlation_id i)))
      (snd (run (bind_context (uuid_str (ie_correlation_id i)) (cn_queue_name c)) w)))"
    using assms(2) carried_correlation_id [OF assms(2,1)] by (simp add: work_outcome_def carries_def)
  have w: "no_faults w" "d \<in> set (cq_unacked w)" "dead_letter_queue (cn_queue_name c) w \<noteq> None"
    using assms(3) by (simp_all add: awaited_def)
  show ?thesis
    by (rule on_message_settles [OF w(1) assms(4) w(2,3), where pf = pf])
      (simp add: handled_as_def Let_def outcome [symmetric])
qed

section \<open>From the answer to the broker\<close>

text \<open>Every stored row can still come to its end, and a waiting one ends on the broker.\<close>

lemma stored_row_settles:
  assumes "reachable pf st rq ps w" and r: "r \<in> set (w_outbox w)" and n: "0 < outbox_batch_size st"
  shows "\<exists>ps' w' r'. (service_step pf st rq)\<^sup>*\<^sup>* (ps, w) (ps', w') \<and> r' \<in> set (w_outbox w') \<and> progress r r' \<and>
    (oe_status r' = DISPATCHED \<and> on_broker (w_published w') r' \<or> oe_status r' = FAILED \<and> r \<notin> set (waiting w))"
proof -
  have "outbox_ok r" using reachable_sound [OF assms(1)] r by (simp add: Inv_def tables_ok_def list_all_iff)
  then consider "oe_status r = SCHEDULED" | "oe_status r = DISPATCHED" | "oe_status r = FAILED"
    by (cases "oe_status r") (auto simp: outbox_ok_def)
  then show ?thesis
  proof cases
    case 1
    from scheduled_row_settles [OF assms(1) r this n] show ?thesis by (fastforce simp: waiting_def)
  next
    case 2
    then show ?thesis using dispatched_sent [OF assms(1) r] r progress_refl [of r] by blast
  next
    case 3
    then show ?thesis using r progress_refl [of r] by (fastforce simp: waiting_def)
  qed
qed

lemma settled_row_announced:
  assumes "reachable pf st rq ps w" and "r \<in> set (w_outbox w)" and "on_broker (w_published w) r" and "paired i r"
  shows "\<exists>m \<in> set (w_published w). bm_body m = oe_payload r \<and> announces m i"
proof -
  have "outbox_ok r" using reachable_sound [OF assms(1)] assms(2) by (simp add: Inv_def tables_ok_def list_all_iff)
  then show ?thesis using assms(3,4) by (auto simp: on_broker_def outbox_ok_def announces_def paired_def)
qed

section \<open>The journey of an accepted webhook\<close>

text \<open>C3: The journey of an accepted webhook. After a 202 response, whatever has failed before, the
  execution can go on so that the event named in the response is announced on the broker with
  the request's own document, unless its row is held by a publisher at the moment or has failed
  already and ends as failed; and any consumer that is handed the announcement processes that
  document under the correlation id of the response, and settles the delivery by the outcome.\<close>

theorem accepted_webhook_reaches_consumer:
  fixes pm :: "json \<Rightarrow> string \<Rightarrow> (exn, 'x consumer_world_scheme, unit) prog"
  assumes "reachable pf st rq ps w"
    and "ps (Web n) = Some (Done (Inr (Responded resp)))" and "hr_status resp = 202"
    and "webhook_of (snd (rq n)) = Some (p, tid, raw)"
    and "0 < outbox_batch_size st" and pm: "leaves_queue_alone pm"
  shows "\<exists>cid eid oid i r ps' w' r'. hr_content resp = response_body (WebhookAccepted cid eid oid) \<and>
    i \<in> set (w_inbound w) \<and> r \<in> set (w_outbox w) \<and> paired i r \<and> oe_outbox_id r = oid \<and>
    ie_event_id i = eid \<and> ie_correlation_id i = cid \<and> ie_tenant_id i = tid \<and>
    json_loads pf raw = Some (ie_raw_payload i) \<and>
    (service_step pf st rq)\<^sup>*\<^sup>* (ps, w) (ps', w') \<and> r' \<in> set (w_outbox w') \<and> progress r r' \<and>
    (oe_status r' = FAILED \<and> r \<notin> set (waiting w) \<or>
     oe_status r' = DISPATCHED \<and> (\<exists>m \<in> set (w_published w'). announces m i \<and>
       (\<forall>pf' d cw. carries pf' d m \<and> awaited c d cw \<longrightarrow> handled_as pf' c pm d (bm_body m) (uuid_str cid) cw)))"
proof -
  obtain cid eid oid h where resp: "hr_content resp = response_body (WebhookAccepted cid eid oid)"
    and "stored eid cid tid h (json_loads pf raw) oid w"
    using reachable_webhook [OF assms(1,2,4)] assms(3) unfolding webhook_promise_def by blast
  then obtain i r where i: "i \<in> set (w_inbound w)" "ie_event_id i = eid" "ie_correlation_id i = cid"
      "ie_tenant_id i = tid" "json_loads pf raw = Some (ie_raw_payload i)"
    and r: "r \<in> set (w_outbox w)" "paired i r" "oe_outbox_id r = oid"
    unfolding stored_def by metis
  obtain ps' w' r' where steps: "(service_step pf st rq)\<^sup>*\<^sup>* (ps, w) (ps', w')"
    and r': "r' \<in> set (w_outbox w')" "progress r r'"
    and ends: "oe_status r' = DISPATCHED \<and> on_broker (w_published w') r' \<or> oe_status r' = FAILED \<and> r \<notin> set (waiting w)"
    using stored_row_settles [OF assms(1) r(1) assms(5)] by blast
  have reach: "reachable pf st rq ps' w'" by (rule reachable_steps [OF assms(1) steps])
  have "paired i r'" using r(2) r'(2) by (simp add: progress_def paired_def)
  then have "\<exists>m \<in> set (w_published w'). announces m i \<and>
      (\<forall>pf' d cw. carries pf' d m \<and> awaited c d cw \<longrightarrow> handled_as pf' c pm d (bm_body m) (uuid_str cid) cw)"
    if "on_broker (w_published w') r'"
    using settled_row_announced [OF reach r'(1) that] carried_message_handled [OF _ _ _ pm] i(3) by blast
  then have "oe_status r' = FAILED \<and> r \<notin> set (waiting w) \<or>
     oe_status r' = DISPATCHED \<and> (\<exists>m \<in> set (w_published w'). announces m i \<and>
       (\<forall>pf' d cw. carries pf' d m \<and> awaited c d cw \<longrightarrow> handled_as pf' c pm d (bm_body m) (uuid_str cid) cw))"
    using ends by blast
  then show ?thesis using resp i r steps r' by blast
qed

text \<open>The accepted webhook of the samples, handed to a consumer that accepts everything.\<close>

definition accepting :: "json \<Rightarrow> string \<Rightarrow> (exn, consumer_world, unit) prog" where
  "accepting j cid = ret ()"

definition handed_over :: "broker_message \<Rightarrow> delivery" where
  "handed_over m = \<lparr>dl_id = 9, dl_body = [1], dl_headers = Some (bm_headers m)\<rparr>"

definition decoding :: "broker_message \<Rightarrow> platform" where
  "decoding m = demo_platform\<lparr>json_loads := (\<lambda>bs. Some (bm_body m))\<rparr>"

lemma handed_over:
  "carries (decoding m) (handed_over m) m"
  "awaited demo_consumer (handed_over m) (deliver (arrive (handed_over m) started_broker))"
  "cq_acked (deliver (arrive d started_broker)) = []" "leaves_queue_alone accepting"
  using started_broker demo_routed [of "deliver (arrive (handed_over m) started_broker)"]
  by (simp_all add: carries_def decoding_def handed_over_def awaited_def deliver_def arrive_def no_faults_def
      demo_consumer_def base_consumer_def leaves_queue_alone_def accepting_def)

lemma later_waits: "r \<in> set (w_outbox sample_later) \<Longrightarrow> r \<in> set (waiting sample_later)"
  by (rule later_due) (simp add: waiting_def locked_ids_def later_publishers)

theorem accepted_webhook_reaches_consumer_witness:
  "\<exists>ps' w' m. (service_step sample_platform sample_settings sample_requests)\<^sup>*\<^sup>* (sample_pool, sample_later) (ps', w') \<and>
    m \<in> set (w_published w') \<and> bm_routing_key m = ''vcs.webhook.received'' \<and>
    cq_acked (snd (run (on_message (decoding m) demo_consumer accepting (handed_over m))
      (deliver (arrive (handed_over m) started_broker)))) = [handed_over m]"
proof -
  have here: "sample_pool (Web 0) = Some (Done (Inr (Responded sample_response)))" "hr_status sample_response = 202"
    by (simp_all add: sample_pool_def sample_response_def)
  have req: "webhook_of (snd (sample_requests 0)) = Some (''gitlab'', 11, sample_raw)"
    "0 < outbox_batch_size sample_settings"
    by (simp_all add: sample_requests_def sample_request_def sample_settings_def default_settings_def)
  obtain cid ps' w' m i where steps: "(service_step sample_platform sample_settings sample_requests)\<^sup>*\<^sup>* (sample_pool, sample_later) (ps', w')"
    and m: "m \<in> set (w_published w')" "announces m i"
    and "\<forall>pf' d cw. carries pf' d m \<and> awaited demo_consumer d cw \<longrightarrow>
        handled_as pf' demo_consumer accepting d (bm_body m) (uuid_str cid) cw"
    using accepted_webhook_reaches_consumer [OF later_reachable here req handed_over(4), where c = demo_consumer] later_waits
    by blast
  then have handled: "handled_as (decoding m) demo_consumer accepting (handed_over m) (bm_body m) (uuid_str cid)
      (deliver (arrive (handed_over m) started_broker))"
    using handed_over(1,2) by blast
  have "cq_acked (snd (run (on_message (decoding m) demo_consumer accepting (handed_over m))
      (deliver (arrive (handed_over m) started_broker)))) = [handed_over m]"
    using handled by (simp add: handled_as_def accepting_def settled_def verdict_of_def handed_over(3))
  then show ?thesis using steps m by (auto simp: announces_def)
qed

end
