(* ===== verification/Process.thy ===== *)
theory Process
  imports Preservation
begin

text \<open>
  The state of one operating-system process of the service (web service or worker), and the
  set-up that both run first: \<open>configure_logging\<close> of \<open>src/vcs_gateway/core/logging.py\<close> and
  \<open>configure_telemetry\<close>, \<open>instrument_fastapi\<close> of \<open>core/telemetry.py\<close>. The state is what is open,
  how logging and tracing are configured, which signals are handled, and a trace of what
  happened. Of a log line the trace keeps the event name. The factories of structlog and
  OpenTelemetry that may reject their argument are the fields of \<open>toolkit\<close>.
\<close>

section \<open>Settings\<close>

text \<open>
  \<open>get_settings\<close> of \<open>config.py\<close>, under \<open>lru_cache\<close>: \<open>load\<close> is what constructing \<open>Settings\<close> from the
  environment gives at the moment of the call, \<open>cached\<close> what an earlier call left. An error is
  not cached.
\<close>

definition get_settings :: "exn + settings \<Rightarrow> settings option \<Rightarrow> (exn + settings) \<times> settings option" where
  "get_settings load cached =
     (case cached of
        Some st \<Rightarrow> (Inr st, cached)
      | None \<Rightarrow> (case load of Inl e \<Rightarrow> (Inl e, None) | Inr st \<Rightarrow> (Inr st, Some st)))"

text \<open>
  Whatever the environment does between two calls, the second gives the settings of the first:
  \<open>create_app\<close>, \<open>lifespan\<close> and the worker run with one value, which is their argument here.
\<close>

lemma settings_read_once:
  assumes "get_settings load cached = (Inr st, cached')"
  shows "get_settings load' cached' = (Inr st, cached')"
  using assms by (auto simp: get_settings_def split: option.splits sum.splits)

section \<open>State\<close>

record pool_config =
  pc_dsn :: string
  pc_min_size :: int
  pc_max_size :: int
  pc_command_timeout :: int

text \<open>
  What the process holds open. A publisher task carries the arguments of \<open>OutboxPublisher\<close>: pool,
  connection, exchange name, poll interval and batch size.
\<close>

datatype resource =
    DbPool pool_config
  | AmqpConnection string
  | RedisClient string int
  | OutboxTask resource resource string rat int

datatype processor =
    MergeContextvars
  | AddLogLevel
  | AddLoggerName
  | TimeStamperIsoUtc
  | StackInfoRenderer
  | FormatExcInfo
  | ConsoleRenderer
  | JSONRenderer

record log_config =
  lc_processors :: "processor list"
  lc_level :: "int + string"
  lc_cache_on_first_use :: bool

record tracer_provider =
  tp_resource :: "(string \<times> string) list"
  tp_root_ratio :: rat
  tp_exporter_endpoint :: string
  tp_insecure :: bool

datatype instrumentor = AsyncPG | AioPika | Redis | HTTPX | FastAPIApp

datatype signal = SIGTERM | SIGINT

datatype process_event =
    LoggingConfigured
  | Logged string
  | TracerProviderSet
  | Instrumented instrumentor
  | Opened resource
  | Closed resource

text \<open>
  The objects that \<open>app.state\<close> shares between requests. A repository holds a pool; the components
  of the service hold repositories, connections and settings, as their constructors store them.
\<close>

record base_repository =
  br_pool :: resource

record base_publisher =
  bp_connection :: resource

record tenant_validator =
  tv_repo :: base_repository
  tv_redis :: resource
  tv_settings :: settings

record idempotency_checker =
  ic_repo :: base_repository
  ic_redis :: resource
  ic_ttl :: int

record webhook_persister =
  wp_pool :: resource
  wp_inbound_repo :: base_repository
  wp_settings :: settings

record vcs_gateway_service =
  vs_inbound_repo :: base_repository
  vs_tenant_validator :: tenant_validator
  vs_idempotency_checker :: idempotency_checker
  vs_webhook_persister :: webhook_persister
  vs_journey :: base_publisher
  vs_settings :: settings

record app_state =
  as_db_pool :: "resource option"
  as_amqp_connection :: "resource option"
  as_redis :: "resource option"
  as_journey_publisher :: "base_publisher option"
  as_vcs_service :: "vcs_gateway_service option"

definition init_idempotency_checker :: "base_repository \<Rightarrow> resource \<Rightarrow> settings \<Rightarrow> idempotency_checker" where
  "init_idempotency_checker inbound_repo redis_client st =
     \<lparr>ic_repo = inbound_repo, ic_redis = redis_client, ic_ttl = redis_idempotency_ttl_seconds st\<rparr>"

definition init_vcs_gateway_service ::
    "resource \<Rightarrow> resource \<Rightarrow> base_publisher \<Rightarrow> settings \<Rightarrow> vcs_gateway_service" where
  "init_vcs_gateway_service db_pool redis_client journey_publisher st =
     (let tenant_repo = \<lparr>br_pool = db_pool\<rparr>; inbound_repo = \<lparr>br_pool = db_pool\<rparr>
      in \<lparr>vs_inbound_repo = inbound_repo,
          vs_tenant_validator = \<lparr>tv_repo = tenant_repo, tv_redis = redis_client, tv_settings = st\<rparr>,
          vs_idempotency_checker = init_idempotency_checker inbound_repo redis_client st,
          vs_webhook_persister = \<lparr>wp_pool = db_pool, wp_inbound_repo = inbound_repo, wp_settings = st\<rparr>,
          vs_journey = journey_publisher, vs_settings = st\<rparr>)"

record process =
  pr_open :: "resource list"
  pr_log :: "process_event list"
  pr_logging :: "log_config option"
  pr_context :: "(string \<times> string) list"
  pr_tracer :: "tracer_provider option"
  pr_handlers :: "signal list"
  pr_shutdown :: bool
  pr_state :: app_state
  pr_pool_created :: bool
  pr_faults :: "nat \<Rightarrow> fault"
  pr_calls :: nat

type_synonym 'a proc_io = "(exn, process, 'a) prog"

definition note_event :: "process_event \<Rightarrow> process \<Rightarrow> process" where
  "note_event e w = w\<lparr>pr_log := pr_log w @ [e]\<rparr>"

definition log_event :: "string \<Rightarrow> unit proc_io" where
  "log_event name = atomic (\<lambda>w. (Inr (), note_event (Logged name) w))"

record toolkit =
  tk_bound_logger :: "int + string \<Rightarrow> exn + unit"
    \<comment> \<open>\<open>structlog.make_filtering_bound_logger\<close>\<close>
  tk_ratio_sampler :: "rat \<Rightarrow> exn + unit"
    \<comment> \<open>\<open>TraceIdRatioBased\<close>\<close>

section \<open>Logging\<close>

text \<open>\<open>str.upper\<close> of ASCII text, and \<open>logging.getLevelName\<close> of a text.\<close>

definition upper_char :: "char \<Rightarrow> char" where
  "upper_char c = (let n = of_char c :: nat in if 97 \<le> n \<and> n \<le> 122 then char_of (n - 32) else c)"

definition get_level_name :: "string \<Rightarrow> int + string" where
  "get_level_name name =
     (case map_of [(''CRITICAL'', 50), (''FATAL'', 50), (''ERROR'', 40), (''WARN'', 30), (''WARNING'', 30),
                   (''INFO'', 20), (''DEBUG'', 10), (''NOTSET'', 0)] name of
        Some level \<Rightarrow> Inl level
      | None \<Rightarrow> Inr (''Level '' @ name))"

fun environment_value :: "environment \<Rightarrow> string" where
  "environment_value Local = ''local''"
| "environment_value Staging = ''staging''"
| "environment_value Production = ''production''"

definition shared_processors :: "processor list" where
  "shared_processors =
     [MergeContextvars, AddLogLevel, AddLoggerName, TimeStamperIsoUtc, StackInfoRenderer, FormatExcInfo]"

definition log_config_of :: "settings \<Rightarrow> log_config" where
  "log_config_of st =
     \<lparr>lc_processors = shared_processors @ [if environment st = Local then ConsoleRenderer else JSONRenderer],
      lc_level = get_level_name (map upper_char (log_level st)), lc_cache_on_first_use = True\<rparr>"

definition configure_logging :: "toolkit \<Rightarrow> settings \<Rightarrow> unit proc_io" where
  "configure_logging tk st =
     and_then (Done (tk_bound_logger tk (lc_level (log_config_of st)))) (\<lambda>_.
       atomic (\<lambda>w. (Inr (), note_event LoggingConfigured (w\<lparr>pr_logging := Some (log_config_of st),
         pr_context := dict_set (dict_set (pr_context w) ''service'' (service_name st))
                         ''env'' (environment_value (environment st))\<rparr>))))"

section \<open>Telemetry\<close>

definition instrument :: "instrumentor \<Rightarrow> unit proc_io" where
  "instrument i = atomic (\<lambda>w. (Inr (), note_event (Instrumented i) w))"

definition disabled_message :: string where
  "disabled_message =
     ''OpenTelemetry disabled '' @ [CHR 0xE2, CHR 0x80, CHR 0x94] @ '' skipping setup''"

definition configure_telemetry ::
    "toolkit \<Rightarrow> string \<Rightarrow> string \<Rightarrow> string \<Rightarrow> string \<Rightarrow> rat \<Rightarrow> bool \<Rightarrow> unit proc_io" where
  "configure_telemetry tk service version env otlp_endpoint sample_rate enabled =
     (if \<not> enabled then log_event disabled_message
      else
        and_then (Done (tk_ratio_sampler tk sample_rate)) (\<lambda>_.
        and_then (atomic (\<lambda>w. (Inr (), note_event TracerProviderSet (w\<lparr>pr_tracer := Some
            \<lparr>tp_resource = [(''service.name'', service), (''service.version'', version),
                            (''deployment.environment'', env)],
             tp_root_ratio = sample_rate, tp_exporter_endpoint = otlp_endpoint, tp_insecure = True\<rparr>\<rparr>)))) (\<lambda>_.
        and_then (instrument AsyncPG) (\<lambda>_.
        and_then (instrument AioPika) (\<lambda>_.
        and_then (instrument Redis) (\<lambda>_.
        and_then (instrument HTTPX) (\<lambda>_.
          log_event ''OpenTelemetry configured'')))))))"

definition instrument_fastapi :: "unit proc_io" where
  "instrument_fastapi = instrument FastAPIApp"

section \<open>Lemmas\<close>

lemma run_log_event [run_simps, simp]: "run (log_event name) w = (Inr (), note_event (Logged name) w)"
  by (simp add: log_event_def)

lemma run_instrument [run_simps, simp]: "run (instrument i) w = (Inr (), note_event (Instrumented i) w)"
  by (simp add: instrument_def)

lemma note_event_simps [simp]:
  "pr_log (note_event e w) = pr_log w @ [e]" "pr_open (note_event e w) = pr_open w"
  "pr_calls (note_event e w) = pr_calls w" "pr_faults (note_event e w) = pr_faults w"
  "pr_pool_created (note_event e w) = pr_pool_created w" "pr_context (note_event e w) = pr_context w"
  "pr_logging (note_event e w) = pr_logging w" "pr_tracer (note_event e w) = pr_tracer w"
  "pr_handlers (note_event e w) = pr_handlers w" "pr_shutdown (note_event e w) = pr_shutdown w"
  "pr_state (note_event e w) = pr_state w"
  by (simp_all add: note_event_def)

text \<open>The names that \<open>logging\<close> knows become numbers, every other name a text.\<close>

lemma get_level_name_cases:
  "get_level_name (map upper_char ''info'') = Inl 20" "get_level_name (map upper_char ''Verbose'') = Inr ''Level VERBOSE''"
  by code_simp+

end
