(* ===== verification/Lifecycle.thy ===== *)
theory Lifecycle
  imports Process
begin

text \<open>
  Start-up and shutdown: \<open>lifespan\<close> of \<open>src/vcs_gateway/main.py\<close>, \<open>main\<close> of
  \<open>src/vcs_gateway/worker.py\<close>, and the factories \<open>create_pool\<close> (\<open>db/connection.py\<close>),
  \<open>create_amqp_connection\<close> (\<open>queue/connection.py\<close>) and \<open>create_redis_client\<close>
  (\<open>redis/client.py\<close>), on the state of theory \<open>Process\<close>. Opening and closing over the network may
  fail; the Redis client connects lazily, so creating it does not. How the server resumes
  \<open>lifespan\<close> after its \<open>yield\<close>, which signal arrives while the worker waits, and how the
  cancelled publisher task ends are inputs.
\<close>

section \<open>Calls\<close>

definition opened :: "resource \<Rightarrow> process \<Rightarrow> process" where
  "opened r w = w\<lparr>pr_open := r # pr_open w, pr_log := pr_log w @ [Opened r]\<rparr>"

definition released :: "resource \<Rightarrow> process \<Rightarrow> process" where
  "released r w = w\<lparr>pr_open := remove1 r (pr_open w), pr_log := pr_log w @ [Closed r]\<rparr>"

definition net_call :: "exn \<Rightarrow> (process \<Rightarrow> 'a \<times> process) \<Rightarrow> 'a proc_io" where
  "net_call e f = atomic (\<lambda>w.
     let w' = w\<lparr>pr_calls := Suc (pr_calls w)\<rparr>
     in case pr_faults w (pr_calls w) of
          NoFault \<Rightarrow> map_prod Inr id (f w')
        | Fault ap ca \<Rightarrow> (Inl (if ca then Cancelled else e), if ap then snd (f w') else w'))"

definition close_resource :: "exn \<Rightarrow> resource \<Rightarrow> unit proc_io" where
  "close_resource e r = net_call e (\<lambda>w. ((), released r w))"

section \<open>Factories\<close>

text \<open>\<open>asyncpg.create_pool\<close> may also return \<open>None\<close>.\<close>

definition create_pool :: "settings \<Rightarrow> resource proc_io" where
  "create_pool st =
     (let r = DbPool \<lparr>pc_dsn = database_url st, pc_min_size = db_pool_min st, pc_max_size = db_pool_max st,
                pc_command_timeout = db_command_timeout st\<rparr> in
      and_then (net_call (PostgresError ''connection'') (\<lambda>w.
          if pr_pool_created w then (Some r, opened r w) else (None, w)))
        (\<lambda>pool. case pool of
           None \<Rightarrow> throw (RuntimeError ''Failed to create asyncpg pool'')
         | Some p \<Rightarrow> ret p))"

definition create_amqp_connection :: "settings \<Rightarrow> resource proc_io" where
  "create_amqp_connection st =
     (let r = AmqpConnection (rabbitmq_url st) in net_call AmqpError (\<lambda>w. (r, opened r w)))"

definition create_redis_client :: "settings \<Rightarrow> resource proc_io" where
  "create_redis_client st =
     (let r = RedisClient (redis_url st) (redis_pool_max st) in atomic (\<lambda>w. (Inr r, opened r w)))"

section \<open>The web service\<close>

text \<open>\<open>asyncio.create_task(OutboxPublisher(...).run())\<close>.\<close>

definition start_publisher :: "settings \<Rightarrow> resource \<Rightarrow> resource \<Rightarrow> resource proc_io" where
  "start_publisher st pool amqp_connection =
     (let r = OutboxTask pool amqp_connection (rabbitmq_exchange_webhook st)
                (outbox_poll_interval_seconds st) (outbox_batch_size st)
      in atomic (\<lambda>w. (Inr r, opened r w)))"

text \<open>An assignment to an attribute of \<open>app.state\<close>.\<close>

definition set_state :: "(app_state \<Rightarrow> app_state) \<Rightarrow> unit proc_io" where
  "set_state f = atomic (\<lambda>w. (Inr (), w\<lparr>pr_state := f (pr_state w)\<rparr>))"

text \<open>
  \<open>outbox_task.cancel()\<close>, and \<open>await\<close> it under \<open>suppress(CancelledError)\<close>: any other error
  of the task is raised here.
\<close>

definition await_cancelled :: "resource \<Rightarrow> exn + unit \<Rightarrow> unit proc_io" where
  "await_cancelled task task_end =
     and_then (atomic (\<lambda>w. (Inr (), released task w))) (\<lambda>_.
       on_error (Done task_end) (\<lambda>e. if e = Cancelled then ret () else throw e))"

text \<open>The first two steps, and the rest of start-up with the shutdown.\<close>

definition observe :: "toolkit \<Rightarrow> settings \<Rightarrow> unit proc_io" where
  "observe tk st =
     and_then (configure_logging tk st) (\<lambda>_.
     and_then (log_event ''starting_up'') (\<lambda>_.
       configure_telemetry tk (service_name st) (otel_service_version st) (environment_value (environment st))
         (otel_exporter_otlp_endpoint st) (otel_sample_rate st) (otel_enabled st)))"

definition shut_down :: "resource \<Rightarrow> resource \<Rightarrow> resource \<Rightarrow> resource \<Rightarrow> exn + unit \<Rightarrow> unit proc_io" where
  "shut_down db_pool amqp_connection redis outbox_task task_end =
     and_then (log_event ''shutting_down'') (\<lambda>_.
     and_then (await_cancelled outbox_task task_end) (\<lambda>_.
     and_then (close_resource RedisFailure redis) (\<lambda>_.
     and_then (close_resource AmqpError amqp_connection) (\<lambda>_.
     and_then (close_resource (PostgresError ''connection'') db_pool) (\<lambda>_.
       log_event ''shutdown_complete'')))))"

definition serve :: "settings \<Rightarrow> exn + unit \<Rightarrow> exn + unit \<Rightarrow> unit proc_io" where
  "serve st resumed task_end =
     and_then (create_pool st) (\<lambda>db_pool.
     and_then (set_state (\<lambda>s. s\<lparr>as_db_pool := Some db_pool\<rparr>)) (\<lambda>_.
     and_then (log_event ''db_pool_created'') (\<lambda>_.
     and_then (create_amqp_connection st) (\<lambda>amqp_connection.
     and_then (set_state (\<lambda>s. s\<lparr>as_amqp_connection := Some amqp_connection\<rparr>)) (\<lambda>_.
     and_then (log_event ''amqp_connection_created'') (\<lambda>_.
     and_then (create_redis_client st) (\<lambda>redis.
     and_then (set_state (\<lambda>s. s\<lparr>as_redis := Some redis\<rparr>)) (\<lambda>_.
     and_then (log_event ''redis_client_created'') (\<lambda>_.
     let journey_publisher = \<lparr>bp_connection = amqp_connection\<rparr> in
     and_then (set_state (\<lambda>s. s\<lparr>as_journey_publisher := Some journey_publisher,
         as_vcs_service := Some (init_vcs_gateway_service db_pool redis journey_publisher st)\<rparr>)) (\<lambda>_.
     and_then (start_publisher st db_pool amqp_connection) (\<lambda>outbox_task.
     and_then (log_event ''startup_complete'') (\<lambda>_.
     and_then (Done resumed) (\<lambda>_.
       shut_down db_pool amqp_connection redis outbox_task task_end)))))))))))))"

definition lifespan :: "toolkit \<Rightarrow> settings \<Rightarrow> exn + unit \<Rightarrow> exn + unit \<Rightarrow> unit proc_io" where
  "lifespan tk st resumed task_end = and_then (observe tk st) (\<lambda>_. serve st resumed task_end)"

section \<open>The worker\<close>

definition handle_signal :: "signal \<Rightarrow> process \<Rightarrow> process" where
  "handle_signal sig w = (note_event (Logged ''shutdown_signal_received'') w)\<lparr>pr_shutdown := True\<rparr>"

definition add_signal_handler :: "signal \<Rightarrow> unit proc_io" where
  "add_signal_handler sig = atomic (\<lambda>w. (Inr (), w\<lparr>pr_handlers := pr_handlers w @ [sig]\<rparr>))"

text \<open>
  \<open>_shutdown_event.wait()\<close> while \<open>arrived\<close> is the signal that arrives: its handler runs if it
  is registered. Unless the event is set, only a cancellation ends the wait.
\<close>

definition await_shutdown :: "signal option \<Rightarrow> unit proc_io" where
  "await_shutdown arrived =
     and_then (atomic (\<lambda>w. (Inr (), case arrived of None \<Rightarrow> w
        | Some sig \<Rightarrow> if sig \<in> set (pr_handlers w) then handle_signal sig w else w))) (\<lambda>_.
       atomic (\<lambda>w. (if pr_shutdown w then Inr () else Inl Cancelled, w)))"

definition stop_worker :: "resource \<Rightarrow> resource \<Rightarrow> resource \<Rightarrow> unit proc_io" where
  "stop_worker redis_client amqp_connection db_pool =
     and_then (log_event ''worker_stopping'') (\<lambda>_.
     and_then (close_resource RedisFailure redis_client) (\<lambda>_.
     and_then (close_resource AmqpError amqp_connection) (\<lambda>_.
     and_then (close_resource (PostgresError ''connection'') db_pool) (\<lambda>_.
       log_event ''worker_stopped''))))"

definition worker_main :: "toolkit \<Rightarrow> settings \<Rightarrow> signal option \<Rightarrow> unit proc_io" where
  "worker_main tk st arrived =
     and_then (configure_logging tk st) (\<lambda>_. and_then (log_event ''worker_starting'') (\<lambda>_.
     and_then (for_each [SIGTERM, SIGINT] add_signal_handler) (\<lambda>_.
     and_then (create_pool st) (\<lambda>db_pool.
     and_then (create_amqp_connection st) (\<lambda>amqp_connection.
     and_then (create_redis_client st) (\<lambda>redis_client. and_then (log_event ''worker_ready'') (\<lambda>_.
       finally_do (await_shutdown arrived) (stop_worker redis_client amqp_connection db_pool))))))))"

section \<open>Resources\<close>

abbreviation pool_resource :: "settings \<Rightarrow> resource" where
  "pool_resource st \<equiv> DbPool \<lparr>pc_dsn = database_url st, pc_min_size = db_pool_min st, pc_max_size = db_pool_max st,
     pc_command_timeout = db_command_timeout st\<rparr>"

abbreviation amqp_resource :: "settings \<Rightarrow> resource" where
  "amqp_resource st \<equiv> AmqpConnection (rabbitmq_url st)"

abbreviation redis_resource :: "settings \<Rightarrow> resource" where
  "redis_resource st \<equiv> RedisClient (redis_url st) (redis_pool_max st)"

abbreviation task_resource :: "settings \<Rightarrow> resource" where
  "task_resource st \<equiv> OutboxTask (pool_resource st) (amqp_resource st) (rabbitmq_exchange_webhook st)
     (outbox_poll_interval_seconds st) (outbox_batch_size st)"

text \<open>A run of a call that returns.\<close>

lemma run_net_call_Inr:
  "run (net_call e f) w = (Inr a, w') \<Longrightarrow> f (w\<lparr>pr_calls := Suc (pr_calls w)\<rparr>) = (a, w')"
  by (cases "f (w\<lparr>pr_calls := Suc (pr_calls w)\<rparr>)") (simp add: net_call_def Let_def split: fault.splits)

lemma returning_parts:
  assumes "run (and_then p k) w = (Inr b, v)"
  obtains a u where "run p w = (Inr a, u)" "run (k a) u = (Inr b, v)"
  using assms by (auto simp: run_and_then split: prod.splits sum.splits)

lemma create_pool_Inr: "run (create_pool st) w = (Inr r, v) \<Longrightarrow>
    r = pool_resource st \<and> pr_open v = r # pr_open w \<and> pr_log v = pr_log w @ [Opened r] \<and> pr_state v = pr_state w"
  unfolding create_pool_def Let_def
  by (erule returning_parts, drule run_net_call_Inr) (auto simp: opened_def split: if_splits option.splits)

lemma create_amqp_Inr: "run (create_amqp_connection st) w = (Inr r, v) \<Longrightarrow>
    r = amqp_resource st \<and> pr_open v = r # pr_open w \<and> pr_log v = pr_log w @ [Opened r] \<and> pr_state v = pr_state w"
  unfolding create_amqp_connection_def Let_def by (drule run_net_call_Inr) (auto simp: opened_def)

lemma close_Inr: "run (close_resource e r) w = (Inr x, v) \<Longrightarrow>
    pr_open v = remove1 r (pr_open w) \<and> pr_log v = pr_log w @ [Closed r] \<and> pr_state v = pr_state w"
  unfolding close_resource_def by (drule run_net_call_Inr) (auto simp: released_def)

text \<open>The calls that are served, and those that fail.\<close>

lemma opened_simps [simp]:
  "pr_open (opened r w) = r # pr_open w" "pr_log (opened r w) = pr_log w @ [Opened r]"
  "pr_calls (opened r w) = pr_calls w" "pr_faults (opened r w) = pr_faults w"
  "pr_pool_created (opened r w) = pr_pool_created w" "pr_handlers (opened r w) = pr_handlers w"
  "pr_shutdown (opened r w) = pr_shutdown w" "pr_state (opened r w) = pr_state w"
  by (simp_all add: opened_def)

lemma released_simps [simp]:
  "pr_open (released r w) = remove1 r (pr_open w)" "pr_log (released r w) = pr_log w @ [Closed r]"
  "pr_calls (released r w) = pr_calls w" "pr_faults (released r w) = pr_faults w" "pr_state (released r w) = pr_state w"
  by (simp_all add: released_def)

lemma create_pool_served:
  "pr_faults w (pr_calls w) = NoFault \<Longrightarrow> pr_pool_created w \<Longrightarrow>
     run (create_pool st) w = (Inr (pool_resource st), opened (pool_resource st) (w\<lparr>pr_calls := Suc (pr_calls w)\<rparr>))"
  by (simp add: create_pool_def net_call_def run_and_then Let_def)

lemma create_amqp_served:
  "pr_faults w (pr_calls w) = NoFault \<Longrightarrow>
     run (create_amqp_connection st) w = (Inr (amqp_resource st), opened (amqp_resource st) (w\<lparr>pr_calls := Suc (pr_calls w)\<rparr>))"
  by (simp add: create_amqp_connection_def net_call_def Let_def)


lemma close_served:
  "pr_faults w (pr_calls w) = NoFault \<Longrightarrow>
     run (close_resource e r) w = (Inr (), released r (w\<lparr>pr_calls := Suc (pr_calls w)\<rparr>))"
  by (simp add: close_resource_def net_call_def Let_def)

lemma close_failed:
  "pr_faults w (pr_calls w) = Fault ap ca \<Longrightarrow>
     \<exists>x v. run (close_resource e r) w = (Inl x, v) \<and> set (pr_open w) - {r} \<subseteq> set (pr_open v)"
  by (cases ap) (auto simp: close_resource_def net_call_def Let_def, metis in_set_remove1)

lemmas served_calls = create_pool_served create_amqp_served close_served

lemma run_create_redis: "run (create_redis_client st) w = (Inr (redis_resource st), opened (redis_resource st) w)"
  by (simp add: create_redis_client_def Let_def)

lemma run_set_state [simp]: "run (set_state f) w = (Inr (), w\<lparr>pr_state := f (pr_state w)\<rparr>)"
  by (simp add: set_state_def)

text \<open>Every attribute of \<open>app.state\<close> is assigned.\<close>

lemma all_assigned:
  "s\<lparr>as_db_pool := a, as_amqp_connection := b, as_redis := c, as_journey_publisher := d, as_vcs_service := e\<rparr> =
     \<lparr>as_db_pool = a, as_amqp_connection = b, as_redis = c, as_journey_publisher = d, as_vcs_service = e\<rparr>"
  by (cases s) simp

lemma run_start_publisher:
  "run (start_publisher st (pool_resource st) (amqp_resource st)) w = (Inr (task_resource st), opened (task_resource st) w)"
  by (simp add: start_publisher_def Let_def)

lemma await_Inr: "run (await_cancelled t task_end) w = (Inr x, v) \<Longrightarrow> v = released t w \<and> task_end \<in> {Inr (), Inl Cancelled}"
  by (cases task_end) (auto simp: await_cancelled_def run_and_then run_on_error split: if_splits)



section \<open>Traces\<close>

text \<open>When logging and tracing accept their settings, and what the set-up then leaves in the trace.\<close>

definition setup_ok :: "toolkit \<Rightarrow> settings \<Rightarrow> bool" where
  "setup_ok tk st \<longleftrightarrow> tk_bound_logger tk (lc_level (log_config_of st)) = Inr () \<and>
     (otel_enabled st \<longrightarrow> tk_ratio_sampler tk (otel_sample_rate st) = Inr ())"

definition observe_events :: "settings \<Rightarrow> process_event list" where
  "observe_events st = [LoggingConfigured, Logged ''starting_up''] @
     (if otel_enabled st
      then [TracerProviderSet, Instrumented AsyncPG, Instrumented AioPika, Instrumented Redis, Instrumented HTTPX,
            Logged ''OpenTelemetry configured'']
      else [Logged disabled_message])"

lemma run_observe:
  assumes "run (observe tk st) w = (r, v)"
  shows "pr_open v = pr_open w" "pr_calls v = pr_calls w" "pr_faults v = pr_faults w"
    "pr_pool_created v = pr_pool_created w"
    "setup_ok tk st \<Longrightarrow> r = Inr () \<and> pr_log v = pr_log w @ observe_events st"
    "\<not> setup_ok tk st \<Longrightarrow> (\<exists>e. r = Inl e) \<and>
      pr_log v \<in> {pr_log w, pr_log w @ [LoggingConfigured, Logged ''starting_up'']}"
  using assms
  by (auto simp: observe_def configure_logging_def configure_telemetry_def run_and_then setup_ok_def observe_events_def
      split: sum.splits if_splits dest!: sym [of "Inl _"])

lemma observe_Inr:
  "run (observe tk st) w = (Inr x, v) \<Longrightarrow> setup_ok tk st \<and> pr_open v = pr_open w \<and> pr_log v = pr_log w @ observe_events st"
  using run_observe by fastforce

text \<open>Nothing removes events from the trace.\<close>

interpretation trace: preserved "\<lambda>w v. \<exists>es. pr_log v = pr_log w @ es"
  by unfold_locales (auto intro: exI [of _ "[]"])

lemma trace_net_call:
  assumes "\<And>w. \<exists>es. pr_log (snd (f w)) = pr_log w @ es"
  shows "trace.keeps (net_call e f)"
  unfolding net_call_def
proof (rule trace.keeps_atomic)
  fix w :: process
  let ?w = "w\<lparr>pr_calls := Suc (pr_calls w)\<rparr>"
  have "\<exists>es. pr_log (snd (f ?w)) = pr_log w @ es" using assms [of ?w] by simp
  then show "\<exists>es. pr_log (snd (let w' = ?w in case pr_faults w (pr_calls w) of NoFault \<Rightarrow> map_prod Inr id (f w')
      | Fault ap ca \<Rightarrow> (Inl (if ca then Cancelled else e), if ap then snd (f w') else w'))) = pr_log w @ es"
    by (auto simp: Let_def split: fault.split)
qed

lemma trace_serve: "trace.keeps (serve st resumed task_end)"
  unfolding serve_def shut_down_def create_pool_def create_amqp_connection_def create_redis_client_def
    start_publisher_def close_resource_def await_cancelled_def log_event_def set_state_def Let_def
  by (intro trace.keeps_control trace_net_call trace.keeps_atomic)
     (auto simp: opened_def released_def intro!: trace.keeps_control split: option.split if_splits)

section \<open>Properties\<close>

text \<open>C39: When the service's lifespan returns, whichever calls failed on the way, it has released
  every resource it opened, in the reverse order, and the publisher task has ended before the
  connections that it uses were closed; the trace is exactly the one listed, and the service object that requests use was built
  on these connections and settings.\<close>

theorem lifespan_releases_in_reverse:
  assumes "run (lifespan tk st resumed task_end) w = (Inr (), v)"
  shows "pr_open v = pr_open w \<and>
    pr_log v = pr_log w @ observe_events st @
      [Opened (pool_resource st), Logged ''db_pool_created'',
       Opened (amqp_resource st), Logged ''amqp_connection_created'',
       Opened (redis_resource st), Logged ''redis_client_created'',
       Opened (task_resource st), Logged ''startup_complete'', Logged ''shutting_down'',
       Closed (task_resource st), Closed (redis_resource st), Closed (amqp_resource st), Closed (pool_resource st),
       Logged ''shutdown_complete''] \<and>
    pr_state v =
      \<lparr>as_db_pool = Some (pool_resource st), as_amqp_connection = Some (amqp_resource st),
       as_redis = Some (redis_resource st), as_journey_publisher = Some \<lparr>bp_connection = amqp_resource st\<rparr>,
       as_vcs_service = Some (init_vcs_gateway_service (pool_resource st) (redis_resource st)
         \<lparr>bp_connection = amqp_resource st\<rparr> st)\<rparr>"
  using assms unfolding lifespan_def serve_def shut_down_def Let_def
  by (elim returning_parts)
    (auto dest!: observe_Inr create_pool_Inr create_amqp_Inr await_Inr close_Inr
      simp: run_create_redis run_start_publisher all_assigned)

definition demo_settings :: settings where
  "demo_settings = default_settings ''postgres://db'' ''amqp://mq'' ''redis://cache''"

definition new_process :: process where
  "new_process = \<lparr>pr_open = [], pr_log = [], pr_logging = None, pr_context = [], pr_tracer = None, pr_handlers = [],
     pr_shutdown = False,
     pr_state = \<lparr>as_db_pool = None, as_amqp_connection = None, as_redis = None, as_journey_publisher = None,
       as_vcs_service = None\<rparr>, pr_pool_created = True, pr_faults = (\<lambda>_. NoFault), pr_calls = 0\<rparr>"

text \<open>A toolkit that accepts the levels of \<open>logging\<close> and rates between 0 and 1.\<close>

definition demo_toolkit :: toolkit where
  "demo_toolkit =
     \<lparr>tk_bound_logger = (\<lambda>level. case level of Inl _ \<Rightarrow> Inr () | Inr name \<Rightarrow> Inl (KeyError name)),
      tk_ratio_sampler = (\<lambda>rate. if 0 \<le> rate \<and> rate \<le> 1 then Inr () else Inl (ValueError ''ratio''))\<rparr>"

lemma demo_level: "lc_level (log_config_of demo_settings) = Inl 20"
  by (simp add: log_config_of_def demo_settings_def default_settings_def) code_simp

lemma demo_setup: "setup_ok demo_toolkit demo_settings"
  by (simp add: setup_ok_def demo_level) (simp add: demo_toolkit_def demo_settings_def default_settings_def)

lemma demo_observe:
  obtains v where "run (observe demo_toolkit demo_settings) new_process = (Inr (), v)" "pr_open v = []"
    "pr_calls v = 0" "pr_faults v = (\<lambda>_. NoFault)" "pr_pool_created v"
proof -
  obtain r v where rv: "run (observe demo_toolkit demo_settings) new_process = (r, v)"
    by (cases "run (observe demo_toolkit demo_settings) new_process")
  then show thesis using that [of v] run_observe [OF rv] demo_setup by (simp add: new_process_def)
qed

theorem lifespan_releases_in_reverse_witness:
  "\<exists>v. run (lifespan demo_toolkit demo_settings (Inr ()) (Inl Cancelled)) new_process = (Inr (), v) \<and> pr_open v = [] \<and>
    set (map Closed [task_resource demo_settings, pool_resource demo_settings]) \<subseteq> set (pr_log v)"
proof -
  obtain u where u: "run (observe demo_toolkit demo_settings) new_process = (Inr (), u)" "pr_open u = []"
    "pr_calls u = 0" "pr_faults u = (\<lambda>_. NoFault)" "pr_pool_created u"
    by (rule demo_observe)
  let ?v = "snd (run (serve demo_settings (Inr ()) (Inl Cancelled)) u)"
  have "run (serve demo_settings (Inr ()) (Inl Cancelled)) u = (Inr (), ?v)"
    using u by (simp add: serve_def shut_down_def run_and_then served_calls run_create_redis run_start_publisher
        await_cancelled_def run_on_error Let_def)
  then have v: "run (lifespan demo_toolkit demo_settings (Inr ()) (Inl Cancelled)) new_process = (Inr (), ?v)"
    by (simp add: lifespan_def run_and_then u(1))
  show ?thesis
    using v lifespan_releases_in_reverse [OF v] by (intro exI [of _ ?v]) (simp add: new_process_def)
qed

text \<open>Whatever fails during start-up, no connection is opened before logging is configured and,
  if telemetry is enabled, before the four client libraries are instrumented; and a log level or a
  sample rate that the libraries reject ends the start-up with nothing opened.\<close>

theorem telemetry_before_connections:
  assumes "run (lifespan tk st resumed task_end) w = (r, v)"
  shows "\<exists>es. pr_log v = pr_log w @ es \<and>
    (\<forall>before c after. es = before @ Opened c # after \<longrightarrow> LoggingConfigured \<in> set before \<and>
      (otel_enabled st \<longrightarrow> Instrumented ` {AsyncPG, AioPika, Redis, HTTPX} \<subseteq> set before)) \<and>
    (\<not> setup_ok tk st \<longrightarrow> isl r \<and> pr_open v = pr_open w)"
proof -
  obtain x u where u: "run (observe tk st) w = (x, u)" by (cases "run (observe tk st) w")
  note obs = run_observe [OF u]
  show ?thesis
  proof (cases "setup_ok tk st")
    case False
    then have "r = x" "v = u" using assms u obs(6) by (auto simp: lifespan_def run_and_then)
    with obs(1,6) False show ?thesis by (auto simp: Cons_eq_append_conv append_eq_Cons_conv)
  next
    case True
    then have x: "x = Inr ()" "pr_log u = pr_log w @ observe_events st" using obs(5) by auto
    have "run (serve st resumed task_end) u = (r, v)"
      using assms u x(1) by (simp add: lifespan_def run_and_then)
    then obtain es where es: "pr_log v = pr_log u @ es" using trace.keeps_run [OF trace_serve] by blast
    have none: "Opened c \<notin> set (observe_events st)" for c by (simp add: observe_events_def)
    have "set (observe_events st) \<subseteq> set before"
      if "observe_events st @ es = before @ Opened c # after" for before c after
      using that none [of c] by (auto simp: append_eq_append_conv2 append_eq_Cons_conv)
    moreover have "LoggingConfigured \<in> set (observe_events st)"
      "otel_enabled st \<Longrightarrow> Instrumented ` {AsyncPG, AioPika, Redis, HTTPX} \<subseteq> set (observe_events st)"
      by (simp_all add: observe_events_def)
    ultimately show ?thesis using True x(2) es by (intro exI [of _ "observe_events st @ es"]) auto
  qed
qed



lemma run_add_handlers:
  "run (for_each [SIGTERM, SIGINT] add_signal_handler) w = (Inr (), w\<lparr>pr_handlers := pr_handlers w @ [SIGTERM, SIGINT]\<rparr>)"
  by (simp add: add_signal_handler_def run_and_then)

lemma run_await_shutdown:
  assumes "set (pr_handlers w) \<supseteq> {SIGTERM, SIGINT}" and "\<not> pr_shutdown w"
  shows "run (await_shutdown arrived) w =
    (case arrived of None \<Rightarrow> (Inl Cancelled, w) | Some sig \<Rightarrow> (Inr (), handle_signal sig w))"
proof -
  have "sig \<in> set (pr_handlers w)" for sig using assms(1) by (cases sig) auto
  then show ?thesis
    using assms(2) by (simp add: await_shutdown_def run_and_then handle_signal_def split: option.split)
qed

text \<open>However the worker's wait ends, by SIGTERM, by SIGINT or by a cancellation, it closes Redis,
  the broker connection and the pool in this order before it ends, provided the closing calls
  succeed; a failed close keeps the connections behind it open.\<close>

theorem worker_closes_connections:
  assumes "tk_bound_logger tk (lc_level (log_config_of st)) = Inr ()" and "\<not> pr_shutdown w"
    and "pr_open w = []" and "pr_pool_created w" and "pr_calls w = 0"
    and "pr_faults w 0 = NoFault" and "pr_faults w 1 = NoFault"
  shows "case pr_faults w 2 of
      Fault ap ca \<Rightarrow> \<exists>e v. run (worker_main tk st arrived) w = (Inl e, v) \<and>
        {amqp_resource st, pool_resource st} \<subseteq> set (pr_open v)
    | NoFault \<Rightarrow> pr_faults w 3 = NoFault \<and> pr_faults w 4 = NoFault \<longrightarrow>
        (\<exists>v. run (worker_main tk st arrived) w = (if arrived = None then Inl Cancelled else Inr (), v) \<and> pr_open v = [] \<and>
          pr_log v = pr_log w @ [LoggingConfigured, Logged ''worker_starting''] @
            map Opened [pool_resource st, amqp_resource st, redis_resource st] @ [Logged ''worker_ready''] @
            (if arrived = None then [] else [Logged ''shutdown_signal_received'']) @ [Logged ''worker_stopping''] @
            map Closed [redis_resource st, amqp_resource st, pool_resource st] @ [Logged ''worker_stopped''])"
proof -
  obtain s where s: "run (worker_main tk st arrived) w =
      run (finally_do (await_shutdown arrived) (stop_worker (redis_resource st) (amqp_resource st) (pool_resource st))) s"
    "pr_open s = [redis_resource st, amqp_resource st, pool_resource st]"
    "pr_log s = pr_log w @ [LoggingConfigured, Logged ''worker_starting''] @
       map Opened [pool_resource st, amqp_resource st, redis_resource st] @ [Logged ''worker_ready'']"
    "pr_calls s = 2" "pr_faults s = pr_faults w" "{SIGTERM, SIGINT} \<subseteq> set (pr_handlers s)" "\<not> pr_shutdown s"
    using assms by (auto simp: worker_main_def configure_logging_def run_and_then run_add_handlers served_calls run_create_redis
      simp del: for_each.simps)
  let ?t = "case arrived of None \<Rightarrow> s | Some sig \<Rightarrow> handle_signal sig s"
  have wait: "run (await_shutdown arrived) s = (if arrived = None then Inl Cancelled else Inr (), ?t)"
    using run_await_shutdown [OF s(6,7)] by (simp split: option.split)
  have t: "pr_open ?t = pr_open s" "pr_calls ?t = 2" "pr_faults ?t = pr_faults w"
    "pr_log ?t = pr_log s @ (if arrived = None then [] else [Logged ''shutdown_signal_received''])"
    using s(4,5) by (auto simp: handle_signal_def split: option.split)
  show ?thesis
  proof (cases "pr_faults w 2")
    case (Fault ap ca)
    let ?u = "note_event (Logged ''worker_stopping'') ?t"
    obtain e v where "run (close_resource RedisFailure (redis_resource st)) ?u = (Inl e, v)"
      "set (pr_open ?u) - {redis_resource st} \<subseteq> set (pr_open v)"
      using close_failed [of ?u ap ca RedisFailure "redis_resource st"] t(1-3) Fault by auto
    then show ?thesis
      using t(1) s(2) by (simp add: Fault s(1) run_finally_do wait stop_worker_def run_and_then)
  next
    case NoFault
    then show ?thesis
      by (auto simp: s(1-3) t run_finally_do wait stop_worker_def run_and_then served_calls eval_nat_numeral)
  qed
qed

end
