(* ===== verification/Bounded_Work.thy ===== *)
theory Bounded_Work
  imports Samples
begin

text \<open>
  Termination with bounds. \<open>ends_in n Q p\<close>: whatever the shared state is before each of its
  actions, the program \<open>p\<close> performs at most \<open>n\<close> of them and ends with an outcome in \<open>Q\<close>. As
  the state is arbitrary at every action, the bound holds under every interleaving and for every
  schedule of failing calls. \<open>own_actions\<close> counts what a task does in an execution of the service.
\<close>

section \<open>Counting actions\<close>

named_theorems bounds
  \<open>how many actions the operations perform\<close>

inductive ends_in :: "nat \<Rightarrow> ('e + 'a \<Rightarrow> bool) \<Rightarrow> ('e, 'w, 'a) prog \<Rightarrow> bool" where
  ended: "Q r \<Longrightarrow> ends_in n Q (Done r)"
| action: "(\<And>w. ends_in n Q (fst (f w))) \<Longrightarrow> ends_in (Suc n) Q (Act f)"

inductive_simps ends_in_Done [simp]: "ends_in n Q (Done r)"
inductive_cases ends_in_ActE: "ends_in n Q (Act f)"

abbreviation any :: "'r \<Rightarrow> bool" where
  "any \<equiv> (\<lambda>_. True)"

lemma ends_in_step: "ends_in n Q (Act f) \<Longrightarrow> 0 < n \<and> ends_in (n - 1) Q (fst (f w))"
  by (erule ends_in_ActE) simp

lemma ends_in_mono: "ends_in m Q p \<Longrightarrow> m \<le> n \<Longrightarrow> ends_in n Q p"
proof (induction arbitrary: n rule: ends_in.induct)
  case (ended Q r m)
  then show ?case by simp
next
  case (action m Q f)
  then obtain k where "n = Suc k" "m \<le> k" by (cases n) auto
  with action.IH show ?case by (auto intro: ends_in.action)
qed

lemma ends_in_attempt:
  "ends_in m P p \<Longrightarrow> (\<And>r. P r \<Longrightarrow> ends_in n Q (h r)) \<Longrightarrow> ends_in (m + n) Q (attempt p h)"
proof (induction rule: ends_in.induct)
  case (ended P r m)
  then have "ends_in n Q (h r)" by blast
  then show ?case by (auto elim: ends_in_mono)
next
  case (action m P f)
  then show ?case by (auto intro!: ends_in.action)
qed

lemma ends_in_within:
  assumes "ends_in m P p" and "m \<le> n" and "\<And>r. P r \<Longrightarrow> ends_in (n - m) Q (h r)"
  shows "ends_in n Q (attempt p h)"
  using ends_in_attempt [OF assms(1,3)] assms(2) by simp

text \<open>Backward rules: the first part is paid from the bound, the rest goes to what follows.\<close>

lemma ends_in_atomic: "0 < n \<Longrightarrow> (\<And>w. Q (fst (f w))) \<Longrightarrow> ends_in n Q (atomic f)"
  by (cases n) (auto simp: atomic_def intro!: ends_in.action)

lemma ends_in_and_then:
  assumes "ends_in m P p" and "m \<le> n" and "\<And>e. P (Inl e) \<Longrightarrow> Q (Inl e)"
    and "\<And>a. P (Inr a) \<Longrightarrow> ends_in (n - m) Q (k a)"
  shows "ends_in n Q (and_then p k)"
  unfolding and_then_def using assms
  by (intro ends_in_within [OF assms(1,2)]) (auto split: sum.split)

lemma ends_in_on_error:
  assumes "ends_in m P p" and "m \<le> n" and "\<And>a. P (Inr a) \<Longrightarrow> Q (Inr a)"
    and "\<And>e. P (Inl e) \<Longrightarrow> ends_in (n - m) Q (h e)"
  shows "ends_in n Q (on_error p h)"
  unfolding on_error_def using assms
  by (intro ends_in_within [OF assms(1,2)]) (auto split: sum.split)

lemma ends_in_finally_do:
  assumes "ends_in m any p" and "m \<le> n" and "ends_in (n - m) any q"
  shows "ends_in n any (finally_do p q)"
  unfolding finally_do_def
  by (intro ends_in_within [OF assms(1,2)] ends_in_and_then [OF assms(3)]) simp_all

lemma ends_in_except:
  assumes "ends_in m P p" and "m \<le> n" and "\<And>a. P (Inr a) \<Longrightarrow> Q (Inr a)" and "\<And>e. P (Inl e) \<Longrightarrow> \<not> is_exception e \<Longrightarrow> Q (Inl e)"
    and "\<And>e. P (Inl e) \<Longrightarrow> ends_in (n - m) Q (h e)"
  shows "ends_in n Q (except_exception p h)"
  unfolding except_exception_def by (intro ends_in_on_error [OF assms(1,2)]) (use assms(3-) in auto)

lemma ends_in_for_each:
  "(\<And>x. ends_in k any (body x)) \<Longrightarrow> length xs * k \<le> n \<Longrightarrow> ends_in n any (for_each xs body)"
proof (induction xs arbitrary: n)
  case Nil
  then show ?case by simp
next
  case (Cons x xs)
  then show ?case
    unfolding for_each.simps by (intro ends_in_and_then [OF Cons.prems(1)]) auto
qed

lemma ends_in_weaken: "ends_in m P p \<Longrightarrow> m \<le> n \<Longrightarrow> ends_in n any p"
proof (induction arbitrary: n rule: ends_in.induct)
  case (ended Q r m)
  then show ?case by simp
next
  case (action m Q f)
  then obtain k where "n = Suc k" "m \<le> k" by (cases n) auto
  with action.IH show ?case by (auto intro: ends_in.action)
qed

text \<open>
  When only the number matters it can be computed: the numbers of consecutive parts add up,
  and a choice counts for its longest branch.
\<close>

lemma at_most_Done [bounds]: "ends_in 0 any (Done r)"
  by simp

lemma at_most_atomic [bounds]: "ends_in 1 any (atomic f)"
  by (rule ends_in_atomic) simp_all

lemma at_most_attempt [bounds]:
  "ends_in m any p \<Longrightarrow> (\<And>r. ends_in n any (h r)) \<Longrightarrow> ends_in (m + n) any (attempt p h)"
  by (rule ends_in_attempt)

lemma at_most_then [bounds]:
  "ends_in m any p \<Longrightarrow> (\<And>a. ends_in n any (k a)) \<Longrightarrow> ends_in (m + n) any (and_then p k)"
  by (rule ends_in_and_then [of m any]) simp_all

lemma at_most_on_error [bounds]:
  "ends_in m any p \<Longrightarrow> (\<And>e. ends_in n any (h e)) \<Longrightarrow> ends_in (m + n) any (on_error p h)"
  by (rule ends_in_on_error [of m any]) simp_all

lemma at_most_except [bounds]:
  "ends_in m any p \<Longrightarrow> (\<And>e. ends_in n any (h e)) \<Longrightarrow> ends_in (m + n) any (except_exception p h)"
  by (rule ends_in_except [of m any]) simp_all

lemma at_most_finally [bounds]:
  "ends_in m any p \<Longrightarrow> ends_in n any q \<Longrightarrow> ends_in (m + n) any (finally_do p q)"
  by (rule ends_in_finally_do [of m]) simp_all

lemma at_most_if [bounds]:
  "ends_in m any p \<Longrightarrow> ends_in n any q \<Longrightarrow> ends_in (max m n) any (if b then p else q)"
  by (auto elim: ends_in_mono)

lemma at_most_option [bounds]:
  "ends_in m any p \<Longrightarrow> (\<And>a. ends_in n any (f a)) \<Longrightarrow>
     ends_in (max m n) any (case x of None \<Rightarrow> p | Some a \<Rightarrow> f a)"
  by (cases x) (auto intro: ends_in_mono [OF _ max.cobounded1] ends_in_mono [OF _ max.cobounded2])

lemma at_most_sum [bounds]:
  "(\<And>e. ends_in m any (g e)) \<Longrightarrow> (\<And>a. ends_in n any (f a)) \<Longrightarrow>
     ends_in (max m n) any (case x of Inl e \<Rightarrow> g e | Inr a \<Rightarrow> f a)"
  by (cases x) (auto intro: ends_in_mono [OF _ max.cobounded1] ends_in_mono [OF _ max.cobounded2])

lemma at_most_prod [bounds]: "(\<And>a b. ends_in n any (f a b)) \<Longrightarrow> ends_in n any (case x of (a, b) \<Rightarrow> f a b)"
  by (simp split: prod.split)

lemma at_most_Let [bounds]: "(\<And>a. ends_in n any (f a)) \<Longrightarrow> ends_in n any (let a = x in f a)"
  by (simp add: Let_def)

lemma at_most: "ends_in m any p \<Longrightarrow> m \<le> n \<Longrightarrow> ends_in n any p"
  by (rule ends_in_mono)

section \<open>Calls\<close>

lemmas call_defs = query_def uuid4_def utc_now_def redis_get_def redis_setex_def redis_ping_def open_channel_def
  get_exchange_def exchange_publish_def close_channel_def execute_def transaction_def set_publisher_def get_publisher_def
  begin_tx_def commit_tx_def rollback_tx_def savepoint_def release_savepoint_def rollback_to_def mark_def sleep_def

lemma bound_check_redis_health [bounds]: "ends_in 1 any check_redis_health"
  unfolding check_redis_health_def call_defs by (rule at_most, (rule bounds)+, simp)

lemma bound_get_idempotency_cache [bounds]: "ends_in 1 any (get_idempotency_cache h)"
  unfolding get_idempotency_cache_def call_defs by (rule at_most, (rule bounds)+, simp)

lemma bound_get_tenant_cache [bounds]: "ends_in 1 any (get_tenant_cache pf t)"
  unfolding get_tenant_cache_def call_defs by (rule at_most, (rule bounds)+, simp)

lemma bound_set_tenant_cache [bounds]: "ends_in 1 any (set_tenant_cache pf t j ttl)"
  unfolding set_tenant_cache_def suppress_def call_defs by (rule at_most, (rule bounds)+, simp)

lemma bound_set_idempotency_cache [bounds]: "ends_in 1 any (set_idempotency_cache h ttl)"
  unfolding set_idempotency_cache_def suppress_def call_defs by (rule at_most, (rule bounds)+, simp)

lemma bound_get_by_id [bounds]: "ends_in 1 any (get_by_id t)"
  unfolding get_by_id_query call_defs by (rule bounds)

lemma bound_get_event_whitelist [bounds]: "ends_in 1 any (get_event_whitelist p)"
  unfolding get_event_whitelist_def fetch_def call_defs by (rule bounds)

lemma bound_get_by_pr_hash_key [bounds]: "ends_in 1 any (get_by_pr_hash_key pf h)"
  unfolding get_by_pr_hash_key_def fetchrow_def call_defs by (rule at_most, (rule bounds)+, simp)

lemma bound_publish [bounds]: "ends_in 4 any (publish x k p c)"
  unfolding publish_def call_defs by (rule at_most, (rule bounds)+, simp)

lemma bound_emit [bounds]: "ends_in 6 any (emit pf st ty s c t md)"
  unfolding emit_def uuid4_def utc_now_def by (rule at_most, (rule bounds)+, simp)

section \<open>Requests\<close>

lemma bound_get_webhook_secret [bounds]: "ends_in 3 any (get_webhook_secret pf t)"
  unfolding get_webhook_secret_def by (rule at_most, (rule bounds)+, simp)

lemma bound_check [bounds]: "ends_in 3 any (check pf ttl h)"
  unfolding check_def by (rule at_most, (rule bounds)+, simp)

lemma bound_persist [bounds]: "ends_in 3 any (persist pf st t p c pr h raw hs)"
  unfolding persist_def uuid4_def utc_now_def transaction_def by (rule at_most, (rule bounds)+, simp)

lemma bound_service_error [bounds]:
  "(\<And>se. ends_in n any (f se)) \<Longrightarrow>
     ends_in n any (case e of Service se \<Rightarrow> f se | _ \<Rightarrow> throw e)"
  by (cases e) simp_all

lemma bound_persist_and_report [bounds]: "ends_in 10 any (persist_and_report pf st t p c pr h raw hs)"
  unfolding persist_and_report_def mark_processed_def
  by (rule at_most, (rule bounds)+, simp)

lemma bound_process_verified [bounds]: "ends_in 19 any (process_verified pf st t p c et wl raw hs)"
  unfolding process_verified_def by (rule at_most, (rule bounds)+, simp)

lemma bound_validate_signature [bounds]: "ends_in 6 any (validate_signature pf st p raw hs s c t)"
  unfolding validate_signature_def by (rule at_most, (rule bounds)+, simp)

lemma bound_process_webhook [bounds]: "ends_in 36 any (process_webhook pf st t p raw hs)"
  unfolding process_webhook_def uuid4_def by (rule at_most, (rule bounds)+, simp)

lemma bound_receive_webhook [bounds]: "ends_in 36 any (receive_webhook pf st t p raw hs)"
  unfolding receive_webhook_def by (rule at_most, (rule bounds)+, simp)

lemma bound_readiness [bounds]: "ends_in 2 any (readiness c)"
  unfolding readiness_def query_def by (rule at_most, (rule bounds)+, simp)

lemma bound_check_duplicate [bounds]: "ends_in 4 any (check_duplicate_endpoint pf st h)"
  unfolding check_duplicate_endpoint_def check_duplicate_def by (rule at_most, (rule bounds)+, simp)

lemma bound_check_stale [bounds]: "ends_in 1 any (check_stale_endpoint pf h v)"
  unfolding check_stale_endpoint_def check_stale_def by (rule at_most, (rule bounds)+, simp)

fun request_bound :: "request \<Rightarrow> nat" where
  "request_bound (GithubWebhook tid raw sig event) = 36"
| "request_bound (GitlabWebhook tid raw token event) = 36"
| "request_bound (CheckDuplicate h) = 4"
| "request_bound (CheckStale h v) = 1"
| "request_bound (Readiness c) = 2"

lemma bound_endpoint [bounds]: "ends_in (request_bound rq) any (endpoint pf st rq)"
  by (cases rq) (auto simp: receive_github_webhook_def receive_gitlab_webhook_def intro: bounds simp flip: One_nat_def)



section \<open>Publishers\<close>

text \<open>A batch selects at most as many rows as its rows_max, which bounds its loop.\<close>

lemma due_rows_length: "length (due_rows limit now w) \<le> limit"
  by (simp add: due_rows_def)

definition at_most_rows :: "int \<Rightarrow> exn + outbox_event list \<Rightarrow> bool" where
  "at_most_rows limit r \<longleftrightarrow> (\<forall>rows. r = Inr rows \<longrightarrow> length rows \<le> nat limit)"

lemma bound_select_due: "ends_in 1 (at_most_rows limit) (select_due p limit)"
  unfolding select_due_def
  by (rule ends_in_atomic)
    (auto simp: at_most_rows_def tx_stmt_def Let_def due_rows_length split: option.split fault.split sum.split prod.split)

lemma bound_cached_exchange [bounds]: "ends_in 5 any (cached_exchange p x)"
  unfolding cached_exchange_def call_defs by (rule at_most, (rule bounds)+, simp)

lemma bound_publish_row [bounds]: "ends_in 2 any (publish_row p x row)"
proof -
  have "ends_in (1 + 1) any (and_then (exchange_publish x k b h) (\<lambda>_. mark_dispatched p i))" for k b h i
    unfolding exchange_publish_def mark_dispatched_def mark_def by (rule bounds)+
  then show ?thesis by (cases "oe_headers row") (simp_all add: publish_row_def numeral_2_eq_2)
qed

lemma bound_dispatch_failed [bounds]: "ends_in 3 any (dispatch_failed pf p row e)"
  unfolding dispatch_failed_def mark_failed_def mark_retry_def reset_channel_def call_defs
  by (rule at_most, (rule bounds)+, simp)

lemma bound_process_row: "ends_in 7 any (process_row pf p x row)"
  unfolding process_row_def in_savepoint_def savepoint_def release_savepoint_def rollback_to_def
  by (rule at_most, (rule bounds)+, simp)

definition batch_bound :: "int \<Rightarrow> nat" where
  "batch_bound rows_max = 8 + 7 * nat rows_max"

lemma bound_batch_body:
  "ends_in (6 + 7 * nat rows_max) any (and_then (select_due p rows_max) (\<lambda>rows.
     if rows = [] then ret ()
     else and_then (cached_exchange p x) (\<lambda>exchange. for_each rows (process_row pf p exchange))))"
proof (rule ends_in_and_then [OF bound_select_due], goal_cases)
  case (3 rows)
  then have "ends_in (7 * nat rows_max) any (for_each rows (process_row pf p exchange))" for exchange
    by (intro ends_in_for_each [OF bound_process_row]) (simp add: at_most_rows_def)
  then have "ends_in (max 0 (5 + 7 * nat rows_max)) any (if rows = [] then ret ()
      else and_then (cached_exchange p x) (\<lambda>exchange. for_each rows (process_row pf p exchange)))"
    by (intro bounds)
  then show ?case by simp
qed simp_all

lemma bound_process_batch [bounds]: "ends_in (batch_bound rows_max) any (process_batch pf p x rows_max)"
  unfolding process_batch_def in_transaction_def begin_tx_def commit_tx_def rollback_tx_def batch_bound_def
  by (rule at_most, (rule bounds bound_batch_body)+, simp)

lemma bound_run_turn [bounds]: "ends_in (batch_bound rows_max + 2) any (run_turn pf p x rows_max)"
  unfolding run_turn_def call_defs reset_channel_def by (rule at_most, (rule bounds)+, simp)

lemma bound_run_turns: "ends_in (turns * (batch_bound rows_max + 2)) any (run_turns pf p x rows_max turns)"
proof (induction turns)
  case 0
  show ?case by simp
next
  case (Suc turns)
  have "ends_in (turns * (batch_bound rows_max + 2)) any (case c of Stop \<Rightarrow> ret () | Continue \<Rightarrow> run_turns pf p x rows_max turns)" for c
    using Suc.IH by (cases c) simp_all
  then show ?case
    unfolding run_turns.simps mult_Suc by (intro bounds)
qed

lemma bound_publisher_task:
  "ends_in (turns * (batch_bound (outbox_batch_size st) + 2)) any (publisher_task pf st p turns)"
proof -
  have "ends_in (turns * (batch_bound (outbox_batch_size st) + 2) + 0) any (publisher_task pf st p turns)"
    unfolding publisher_task_def by (intro bounds bound_run_turns)
  then show ?thesis by simp
qed

section \<open>Tasks of the running service\<close>

text \<open>
  \<open>own_actions Env New i k c c'\<close>: the execution from \<open>c\<close> to \<open>c'\<close>, in which task \<open>i\<close> is not
  started again, contains \<open>k\<close> actions of task \<open>i\<close> and any steps of the others.
\<close>

inductive own_actions ::
    "('w \<Rightarrow> 'w \<Rightarrow> bool) \<Rightarrow> ('i \<Rightarrow> ('e, 'w, 'a) prog \<Rightarrow> bool) \<Rightarrow> 'i \<Rightarrow> nat \<Rightarrow>
     ('i \<rightharpoonup> ('e, 'w, 'a) prog) \<times> 'w \<Rightarrow> ('i \<rightharpoonup> ('e, 'w, 'a) prog) \<times> 'w \<Rightarrow> bool"
  for Env New i where
  start: "own_actions Env New i 0 c c"
| own: "own_actions Env New i k c (ps, w) \<Longrightarrow> ps i = Some (Act f) \<Longrightarrow>
     own_actions Env New i (Suc k) c (ps(i \<mapsto> fst (f w)), snd (f w))"
| other: "own_actions Env New i k c (ps, w) \<Longrightarrow> pool_step Env New (ps, w) (ps', w') \<Longrightarrow> ps' i = ps i \<Longrightarrow>
     own_actions Env New i k c (ps', w')"

lemma own_actions_execution:
  "own_actions Env New i k c c' \<Longrightarrow> (pool_step Env New)\<^sup>*\<^sup>* c c'"
  by (induction rule: own_actions.induct)
    (auto intro: rtranclp.rtrancl_into_rtrancl pool_step.task)

text \<open>Every action uses up one unit of the bound, so the bound is never exceeded.\<close>

lemma own_actions_bounded:
  assumes "own_actions Env New i k c c'" and "fst c i = Some p" and "ends_in n any p"
  shows "k \<le> n \<and> (\<exists>p'. fst c' i = Some p' \<and> ends_in (n - k) any p')"
  using assms
proof (induction rule: own_actions.induct)
  case (start c)
  then show ?case by simp
next
  case (own k c ps w f)
  then obtain p' where "ps i = Some p'" "ends_in (n - k) any p'" "k \<le> n" by auto
  then show ?case using own.hyps(2) ends_in_step [of "n - k" any f w] by auto
next
  case (other k c ps w ps' w')
  then show ?case by simp
qed

text \<open>An unfinished task can always act: nothing in the program waits for another task.\<close>

lemma own_actions_continue:
  assumes "own_actions Env New i k c (ps, w)" and "ps i = Some p"
  shows "(\<exists>r. p = Done r) \<or> (\<exists>c'. own_actions Env New i (Suc k) c c')"
  using assms own_actions.own [OF assms(1)] by (cases p) auto

text \<open>Running a task alone to its end is such an execution.\<close>

lemma own_actions_trans:
  assumes "own_actions Env New i k c (ps, w)" and "own_actions Env New i l (ps, w) c'"
  shows "own_actions Env New i (k + l) c c'"
  using assms(2,1)
proof (induction rule: own_actions.induct)
  case start
  then show ?case by simp
next
  case own
  then show ?case by (auto intro: own_actions.own)
next
  case other
  then show ?case by (blast intro: own_actions.other)
qed

lemma own_actions_run:
  "ps i = Some p \<Longrightarrow> \<exists>k. own_actions Env New i k (ps, w) (ps(i \<mapsto> Done (fst (run p w))), snd (run p w))"
proof (induction p arbitrary: ps w)
  case (Done r)
  then have "ps(i \<mapsto> Done r) = ps" by (simp add: fun_upd_idem)
  then show ?case by (auto intro: own_actions.start)
next
  case (Act f)
  let ?p = "fst (f w)" and ?w = "snd (f w)"
  have one: "own_actions Env New i (Suc 0) (ps, w) (ps(i \<mapsto> ?p), ?w)"
  proof -
    have "own_actions Env New i 0 (ps, w) (ps, w)" by (rule own_actions.start)
    then show ?thesis using Act.prems by (rule own_actions.own)
  qed
  obtain k where "own_actions Env New i k (ps(i \<mapsto> ?p), ?w)
      (ps(i \<mapsto> ?p, i \<mapsto> Done (fst (run ?p ?w))), snd (run ?p ?w))"
    using Act.IH [where ps = "ps(i \<mapsto> ?p)"] by (meson fun_upd_same)
  then show ?case using own_actions_trans [OF one] unfolding run_Act fun_upd_upd by blast
qed

section \<open>Properties\<close>



text \<open>C15: Every batch of a publisher ends: a turn of the polling loop performs at most ten actions and
  seven more for each row of the batch size, because the query returns no more rows than that; so
  does every publisher task, and it never blocks.\<close>

theorem publisher_turns_end:
  assumes "own_actions quiet (task_of pf st rq) (Pub q) k (ps, w) (ps', w')"
    and "ps (Pub q) = Some (publisher_task pf st q turns)"
  shows "k \<le> turns * (10 + 7 * nat (outbox_batch_size st)) \<and>
    ((\<exists>r. ps' (Pub q) = Some (Done r)) \<or> (\<exists>c. own_actions quiet (task_of pf st rq) (Pub q) (Suc k) (ps, w) c))"
proof -
  obtain p where p: "k \<le> turns * (batch_bound (outbox_batch_size st) + 2)" "ps' (Pub q) = Some p"
    using own_actions_bounded [OF assms(1) _ bound_publisher_task [of turns st pf q]] assms(2) by (auto simp del: mult_Suc_right)
  show ?thesis
    using own_actions_continue [OF assms(1) p(2)] p by (auto simp: batch_bound_def)
qed

theorem publisher_turns_end_witness:
  "\<exists>k ps w. own_actions quiet (task_of sample_platform sample_settings sample_requests) (Pub 0) k
      (Map.empty(Pub 0 \<mapsto> publisher_task sample_platform sample_settings 0 2), sample_world) (ps, w) \<and>
    (\<exists>r. ps (Pub 0) = Some (Done r)) \<and> k \<le> 720"
proof -
  let ?p = "publisher_task sample_platform sample_settings 0 2"
  let ?ps = "Map.empty(Pub 0 \<mapsto> ?p)"
  obtain k where k: "own_actions quiet (task_of sample_platform sample_settings sample_requests) (Pub 0) k
      (?ps, sample_world) (?ps(Pub 0 \<mapsto> Done (fst (run ?p sample_world))), snd (run ?p sample_world))"
    using own_actions_run [of ?ps "Pub 0" ?p quiet "task_of sample_platform sample_settings sample_requests" sample_world] by auto
  then have "k \<le> 720"
    using publisher_turns_end [OF k, of 2] by (simp add: sample_settings_def default_settings_def)
  with k show ?thesis by fastforce
qed

end
