(* ===== verification/Http_Stack.thy ===== *)
theory Http_Stack
  imports Api Process
begin

text \<open>
  The application that \<open>create_app\<close> of \<open>src/vcs_gateway/main.py\<close> assembles, and the requests
  that it serves with the middleware of \<open>core/middleware.py\<close>, logging included. Of Starlette
  the model uses its documented behaviour: \<open>add_middleware\<close> puts the new middleware outside the
  earlier ones, \<open>include_router\<close> prefixes the paths, an exception handler is looked up along the
  class hierarchy inside all of them, and an exception without one becomes a plain 500 outside.
  The access log of a request and the logging context of its task are part of the result. The
  theory shows that this stack is the \<open>application\<close> of theory \<open>Api\<close> plus the access log.
\<close>

section \<open>Requests, log entries, context\<close>

record http_request =
  rq_method :: string
  rq_path :: string
  rq_correlation :: "string option"

type_synonym log_context = "(string \<times> string) list"

record access_entry =
  ae_method :: string
  ae_path :: string
  ae_status :: int
  ae_duration_ms :: rat
  ae_context :: log_context

text \<open>An exchange: the response, what was logged on the way, and the context afterwards.\<close>

type_synonym exchange = "http_response \<times> access_entry list \<times> log_context"

text \<open>\<open>round(x, 2)\<close>: to even; the clock's readings are exact rationals here.\<close>

definition round_half_even :: "rat \<Rightarrow> int" where
  "round_half_even x =
     (let n = floor x; d = x - of_int n
      in if d < 1 / 2 \<or> d = 1 / 2 \<and> even n then n else n + 1)"

definition round_2 :: "rat \<Rightarrow> rat" where
  "round_2 x = of_int (round_half_even (x * 100)) / 100"

section \<open>Middleware\<close>

definition skip_paths :: "string set" where
  "skip_paths = {''/health/live'', ''/health/ready''}"

text \<open>\<open>RequestLoggingMiddleware.dispatch\<close>; \<open>clk\<close> are the two readings of the clock.\<close>

definition request_logging_dispatch ::
    "http_request \<Rightarrow> rat \<times> rat \<Rightarrow> (log_context \<Rightarrow> exchange io) \<Rightarrow> log_context \<Rightarrow> exchange io" where
  "request_logging_dispatch req clk call_next ctx =
     (if rq_path req \<in> skip_paths then call_next ctx
      else and_then (call_next ctx) (\<lambda>(response, entries, _).
        ret (response, entries @
          [\<lparr>ae_method = rq_method req, ae_path = rq_path req, ae_status = hr_status response,
            ae_duration_ms = round_2 ((snd clk - fst clk) * 1000), ae_context = ctx\<rparr>], ctx)))"

text \<open>
  \<open>CorrelationIdMiddleware.dispatch\<close>. The inner application runs in a task of its own with a
  copy of the context. The binding is removed after a response; an exception leaves it.
\<close>

definition correlation_id_dispatch ::
    "string \<Rightarrow> http_request \<Rightarrow> (log_context \<Rightarrow> exchange io) \<Rightarrow> log_context \<Rightarrow> exchange io" where
  "correlation_id_dispatch header_name req call_next ctx =
     and_then (case opt_or (rq_correlation req) None of
         Some s \<Rightarrow> ret s
       | None \<Rightarrow> and_then uuid4 (\<lambda>u. ret (uuid_str u))) (\<lambda>correlation_id.
     let bound = dict_set ctx ''correlation_id'' correlation_id in
     and_then (call_next bound) (\<lambda>(response, entries, _).
       ret (response\<lparr>hr_headers := dict_set (hr_headers response) header_name correlation_id\<rparr>, entries,
            filter (\<lambda>(k, v). k \<noteq> ''correlation_id'') bound)))"

section \<open>The application object\<close>

datatype middleware = RequestLogging | CorrelationId string

datatype route =
    LivenessRoute
  | ReadinessRoute
  | GithubRoute
  | GitlabRoute
  | CheckDuplicateRoute
  | CheckStaleRoute
  | PingRoute

type_synonym router = "(string \<times> string \<times> route) list"

definition health_router :: router where
  "health_router = [(''GET'', ''/health/live'', LivenessRoute), (''GET'', ''/health/ready'', ReadinessRoute)]"

definition webhooks_router :: router where
  "webhooks_router = [(''POST'', ''/webhooks/github/{tenant_id}'', GithubRoute),
     (''POST'', ''/webhooks/gitlab/{tenant_id}'', GitlabRoute)]"

definition internal_router :: router where
  "internal_router = [(''GET'', ''/events/check-duplicate'', CheckDuplicateRoute),
     (''GET'', ''/events/check-stale'', CheckStaleRoute)]"

text \<open>\<open>api/v1/endpoints.py\<close>: declared, and included nowhere.\<close>

definition example_router :: router where
  "example_router = [(''GET'', ''/ping'', PingRoute)]"

definition ping :: http_response where
  "ping = json_response (JObj [(''message'', JStr ''pong'')])"

record app =
  ap_title :: string
  ap_version :: string
  ap_docs_url :: "string option"
  ap_redoc_url :: "string option"
  ap_instrumented :: bool
  ap_middleware :: "middleware list" \<comment> \<open>outermost first\<close>
  ap_handlers :: "(error_kind \<times> (service_error \<Rightarrow> http_response)) list"
  ap_routes :: router

definition add_middleware :: "middleware \<Rightarrow> app \<Rightarrow> app" where
  "add_middleware m a = a\<lparr>ap_middleware := m # ap_middleware a\<rparr>"

definition add_exception_handler :: "error_kind \<Rightarrow> (service_error \<Rightarrow> http_response) \<Rightarrow> app \<Rightarrow> app" where
  "add_exception_handler k h a = a\<lparr>ap_handlers := dict_set (ap_handlers a) k h\<rparr>"

definition include_router :: "router \<Rightarrow> string \<Rightarrow> app \<Rightarrow> app" where
  "include_router r prefix a =
     a\<lparr>ap_routes := ap_routes a @ map (\<lambda>(verb, path, target). (verb, prefix @ path, target)) r\<rparr>"

definition new_app :: "settings \<Rightarrow> app" where
  "new_app st =
     \<lparr>ap_title = service_name st, ap_version = ''0.1.0'',
      ap_docs_url = (if environment st = Local then Some ''/docs'' else None), ap_redoc_url = None,
      ap_instrumented = False, ap_middleware = [], ap_handlers = [], ap_routes = []\<rparr>"

definition assemble :: "app \<Rightarrow> app" where
  "assemble a =
     (let a = add_middleware RequestLogging a;
          a = add_middleware (CorrelationId correlation_header) a;
          a = add_exception_handler NotFoundError not_found_handler a;
          a = add_exception_handler ValidationError validation_handler a;
          a = add_exception_handler BusinessRuleError business_rule_handler a;
          a = add_exception_handler DatabaseError database_handler a;
          a = add_exception_handler QueueError queue_handler a;
          a = include_router health_router '''' a;
          a = include_router webhooks_router ''/api/v1'' a
      in include_router internal_router ''/internal/v1'' a)"

definition create_app :: "settings \<Rightarrow> app proc_io" where
  "create_app st =
     (let a = new_app st in
      and_then instrument_fastapi (\<lambda>_. ret (assemble (a\<lparr>ap_instrumented := True\<rparr>))))"

section \<open>Serving a request\<close>

text \<open>The classes of an exception, most specific first.\<close>

definition mro :: "error_kind \<Rightarrow> error_kind list" where
  "mro k = (if k = ServiceError then [ServiceError] else [k, ServiceError])"

definition lookup_handler ::
    "(error_kind \<times> (service_error \<Rightarrow> http_response)) list \<Rightarrow> error_kind \<Rightarrow> (service_error \<Rightarrow> http_response) option" where
  "lookup_handler handlers k = Option.bind (find (\<lambda>c. map_of handlers c \<noteq> None) (mro k)) (map_of handlers)"

definition handled :: "app \<Rightarrow> http_response io \<Rightarrow> log_context \<Rightarrow> exchange io" where
  "handled a endpoint ctx =
     and_then (on_error endpoint (\<lambda>e. case e of
         Service se \<Rightarrow> (case lookup_handler (ap_handlers a) (se_kind se) of None \<Rightarrow> throw e | Some h \<Rightarrow> ret (h se))
       | _ \<Rightarrow> throw e))
       (\<lambda>response. ret (response, [], ctx))"

fun dispatch ::
    "http_request \<Rightarrow> rat \<times> rat \<Rightarrow> middleware \<Rightarrow> (log_context \<Rightarrow> exchange io) \<Rightarrow> log_context \<Rightarrow> exchange io" where
  "dispatch req clk RequestLogging = request_logging_dispatch req clk"
| "dispatch req clk (CorrelationId header_name) = correlation_id_dispatch header_name req"

definition serve_request ::
    "app \<Rightarrow> http_request \<Rightarrow> rat \<times> rat \<Rightarrow> http_response io \<Rightarrow> log_context \<Rightarrow> exchange io" where
  "serve_request a req clk endpoint ctx =
     except_exception (foldr (dispatch req clk) (ap_middleware a) (handled a endpoint) ctx)
       (\<lambda>_. ret (internal_server_error, [], ctx))"

abbreviation gateway_app :: "settings \<Rightarrow> app" where
  "gateway_app st \<equiv> assemble ((new_app st)\<lparr>ap_instrumented := True\<rparr>)"

section \<open>The assembled application\<close>

lemma run_create_app: "run (create_app st) w = (Inr (gateway_app st), note_event (Instrumented FastAPIApp) w)"
  by (simp add: create_app_def instrument_fastapi_def run_and_then)

lemmas assemble_defs = assemble_def add_middleware_def add_exception_handler_def include_router_def new_app_def Let_def

lemma gateway_middleware: "ap_middleware (gateway_app st) = [CorrelationId correlation_header, RequestLogging]"
  by (simp add: assemble_defs)

lemma gateway_handlers: "map_of (ap_handlers (gateway_app st)) = registered_handler"
  by (simp add: assemble_defs dict_set_def registered_handler_def fun_eq_iff)

lemma gateway_lookup: "lookup_handler (ap_handlers (gateway_app st)) = registered_handler"
  by (rule ext) (simp add: lookup_handler_def gateway_handlers mro_def registered_handler_def split: option.split)

lemma gateway_routes:
  "ap_routes (gateway_app st) =
     [(''GET'', ''/health/live'', LivenessRoute), (''GET'', ''/health/ready'', ReadinessRoute),
      (''POST'', ''/api/v1/webhooks/github/{tenant_id}'', GithubRoute),
      (''POST'', ''/api/v1/webhooks/gitlab/{tenant_id}'', GitlabRoute),
      (''GET'', ''/internal/v1/events/check-duplicate'', CheckDuplicateRoute),
      (''GET'', ''/internal/v1/events/check-stale'', CheckStaleRoute)]"
  by (simp add: assemble_defs health_router_def webhooks_router_def internal_router_def)

section \<open>The stack without its log\<close>

text \<open>\<open>answer\<close> forgets the log and the context of an exchange.\<close>

definition answer :: "exchange io \<Rightarrow> http_response io" where
  "answer p = and_then p (\<lambda>x. ret (fst x))"

lemma sum_case_attempt:
  "attempt (case r of Inl e \<Rightarrow> p e | Inr a \<Rightarrow> q a) k = (case r of Inl e \<Rightarrow> attempt (p e) k | Inr a \<Rightarrow> attempt (q a) k)"
  by (cases r) simp_all

lemmas control_defs = answer_def and_then_def on_error_def except_exception_def

lemma answer_and_then: "answer (and_then p k) = and_then p (\<lambda>a. answer (k a))"
  by (simp add: control_defs attempt_attempt sum_case_attempt cong: sum.case_cong)

lemma and_then_answer: "and_then p (\<lambda>x. ret (f (fst x))) = and_then (answer p) (\<lambda>response. ret (f response))"
  by (simp add: control_defs attempt_attempt sum_case_attempt cong: sum.case_cong)

lemma answer_ret: "answer (ret x) = ret (fst x)"
  by (simp add: control_defs)

lemma answer_logging: "answer (request_logging_dispatch req clk call_next ctx) = answer (call_next ctx)"
proof (cases "rq_path req \<in> skip_paths")
  case False
  then show ?thesis
    by (simp add: request_logging_dispatch_def answer_and_then split_beta answer_ret flip: answer_def)
qed (simp add: request_logging_dispatch_def)

lemma answer_correlation:
  assumes "\<And>ctx. answer (call_next ctx) = p"
  shows "answer (correlation_id_dispatch correlation_header req call_next ctx) = correlation_id_middleware (rq_correlation req) p"
proof -
  have "and_then (call_next bound) (\<lambda>x. ret (fst x\<lparr>hr_headers := dict_set (hr_headers (fst x)) correlation_header cid\<rparr>)) =
     and_then p (\<lambda>response. ret (response\<lparr>hr_headers := dict_set (hr_headers response) correlation_header cid\<rparr>))" for bound cid
    using and_then_answer [of "call_next bound" "\<lambda>response. response\<lparr>hr_headers := dict_set (hr_headers response) correlation_header cid\<rparr>"]
    by (simp add: assms)
  then show ?thesis
    by (simp add: correlation_id_dispatch_def correlation_id_middleware_def answer_and_then answer_ret split_beta Let_def
        cong: option.case_cong)
qed

lemma answer_handled: "answer (handled (gateway_app st) endpoint ctx) = exception_middleware endpoint"
  unfolding handled_def answer_and_then answer_ret fst_conv and_then_ret gateway_lookup exception_middleware_def ..

lemma answer_except: "answer (except_exception p (\<lambda>_. ret x)) = except_exception (answer p) (\<lambda>_. ret (fst x))"
  unfolding control_defs attempt_attempt
proof (rule arg_cong [of _ _ "attempt p"], rule ext)
  fix r :: "exn + exchange"
  show "attempt (case r of Inl e \<Rightarrow> if is_exception e then ret x else throw e | Inr a \<Rightarrow> ret a)
      (\<lambda>r. case r of Inl e \<Rightarrow> throw e | Inr x \<Rightarrow> ret (fst x)) =
    attempt (case r of Inl e \<Rightarrow> throw e | Inr x \<Rightarrow> ret (fst x))
      (\<lambda>r. case r of Inl e \<Rightarrow> if is_exception e then ret (fst x) else throw e | Inr a \<Rightarrow> ret a)"
    by (cases r) simp_all
qed

text \<open>C27: The application that create_app assembles is the application of the other theorems: behind
  its middleware, handlers and access log, every request gets the response, and the shared state
  changes, as if there were no access log, and none of the routes of the example router is mounted.\<close>

theorem assembled_application:
  shows "answer (serve_request (gateway_app st) req clk endpoint ctx) = application (rq_correlation req) endpoint \<and>
    fst (run (create_app st) w) = Inr (gateway_app st) \<and>
    set (map (snd \<circ> snd) (ap_routes (gateway_app st))) = - {PingRoute} \<and>
    (ap_docs_url (gateway_app st) \<noteq> None \<longleftrightarrow> environment st = Local)"
proof -
  have routes: "- {PingRoute} = {LivenessRoute, ReadinessRoute, GithubRoute, GitlabRoute, CheckDuplicateRoute, CheckStaleRoute}"
    using route.exhaust by auto
  have "answer (serve_request (gateway_app st) req clk endpoint ctx) = application (rq_correlation req) endpoint"
    unfolding serve_request_def answer_except gateway_middleware application_def server_error_middleware_def
    by (simp add: answer_correlation answer_logging answer_handled)
  moreover have "ap_docs_url (gateway_app st) \<noteq> None \<longleftrightarrow> environment st = Local"
    by (simp add: assemble_defs)
  ultimately show ?thesis by (simp add: run_create_app gateway_routes routes insert_commute)
qed

section \<open>The access log\<close>




text \<open>The paths that are skipped are the health routes, and the error of a rounded duration is small.\<close>

lemma skip_paths_are_health_routes: "skip_paths = (fst \<circ> snd) ` set health_router"
  by (simp add: skip_paths_def health_router_def)

lemma round_half_even_error: "\<bar>x - of_int (round_half_even x)\<bar> \<le> 1 / 2"
proof -
  have "of_int \<lfloor>x\<rfloor> \<le> x" "x < of_int \<lfloor>x\<rfloor> + 1" by linarith+
  then show ?thesis by (simp add: round_half_even_def Let_def)
qed

lemma round_2_error: "\<bar>x - round_2 x\<bar> \<le> 1 / 200"
  using round_half_even_error [of "x * 100"] by (simp add: round_2_def abs_if field_simps split: if_splits)

end
