(* ===== verification/Migration_Runner.thy ===== *)
theory Migration_Runner
  imports Schema
begin

text \<open>
  \<open>src/migrations/env.py\<close>: how Alembic executes the two migrations. Alembic's part is its
  documented behaviour: \<open>run_migrations\<close> applies the revisions that the version table does not
  list, in the order of their \<open>down_revision\<close> chain; on PostgreSQL \<open>begin_transaction\<close> makes all
  of them one transaction; in offline mode they are written to a script from the first one on. The
  state is the database (catalog and version table), that script, the options of the migration
  context, and what is open.
\<close>

section \<open>State\<close>

record context_options =
  cx_url :: "string option"
  cx_connection :: bool
  cx_literal_binds :: bool
  cx_paramstyle :: "string option"

record runner =
  mr_catalog :: catalog
  mr_applied :: "string list"
  mr_script :: "string list"
  mr_context :: "context_options option"
  mr_engines :: "string list"
  mr_connections :: nat
  mr_faults :: "nat \<Rightarrow> fault"
  mr_calls :: nat


definition revisions :: "(string \<times> ddl) list" where
  "revisions = [(''0001'', upgrade_0001), (''0002'', upgrade_0002)]"

section \<open>The database URL\<close>

text \<open>\<open>str.replace\<close> for a text to replace that is not empty.\<close>

function py_replace :: "string \<Rightarrow> string \<Rightarrow> string \<Rightarrow> string" where
  "py_replace old new [] = []"
| "py_replace old new (c # s) =
     (if take (length old) (c # s) = old
      then new @ py_replace old new (drop (length old - 1) s)
      else c # py_replace old new s)"
  by pat_completeness auto

termination
  by (relation "measure (\<lambda>(_, _, s). length s)") simp_all

definition db_url :: "(string \<times> string) list \<Rightarrow> exn + string" where
  "db_url environ =
     (case map_of environ ''DATABASE_URL'' of
        None \<Rightarrow> Inl (KeyError ''DATABASE_URL'')
      | Some raw_url \<Rightarrow> Inr (py_replace ''postgresql://'' ''postgresql+asyncpg://'' raw_url))"

section \<open>Alembic's context\<close>



definition run_revisions :: "runner \<Rightarrow> (exn + unit) \<times> runner" where
  "run_revisions w =
     (let pending = filter (\<lambda>(i, _). i \<notin> set (mr_applied w)) revisions
      in case migrate (map snd pending) (mr_catalog w) of
           Inl e \<Rightarrow> (Inl (PostgresError e), w)
         | Inr c \<Rightarrow> (Inr (), w\<lparr>mr_catalog := c, mr_applied := mr_applied w @ map fst pending\<rparr>))"


section \<open>The two modes\<close>









section \<open>Lemmas\<close>

lemma py_replace_absent:
  "\<forall>i < length s. take (length old) (drop i s) \<noteq> old \<Longrightarrow> py_replace old new s = s"
proof (induction s)
  case Nil
  then show ?case by simp
next
  case (Cons c s)
  have "take (length old) (c # s) \<noteq> old" using Cons.prems by fastforce
  moreover have "\<forall>i < length s. take (length old) (drop i s) \<noteq> old" using Cons.prems by fastforce
  ultimately show ?case using Cons.IH by simp
qed

lemma py_replace_prefix:
  "old \<noteq> [] \<Longrightarrow> py_replace old new (old @ s) = new @ py_replace old new s"
  by (cases old) simp_all

text \<open>The scheme is rewritten once, and a URL that names the driver already is left alone.\<close>

lemma db_url_scheme:
  assumes "\<forall>i < length s. take 13 (drop i s) \<noteq> ''postgresql://''"
  shows "db_url [(''DATABASE_URL'', ''postgresql://'' @ s)] = Inr (''postgresql+asyncpg://'' @ s)"
proof -
  have "py_replace ''postgresql://'' new s = s" for new
    using assms by (intro py_replace_absent) (simp add: eval_nat_numeral)
  then show ?thesis using py_replace_prefix [of "''postgresql://''"] by (simp add: db_url_def)
qed



lemma run_revisions_cases:
  "run_revisions w = (r, v) \<Longrightarrow> (isl r \<and> v = w) \<or>
     (r = Inr () \<and> {''0001'', ''0002''} \<subseteq> set (mr_applied v) \<and> mr_connections v = mr_connections w \<and> mr_engines v = mr_engines w)"
  by (auto simp: run_revisions_def revisions_def Let_def split: sum.splits if_splits)





end
