(* ===== verification/Spec2Isabelle.thy ===== *)
theory Spec2Isabelle
  imports Edge End_To_End Lifecycle Bounded_Work Http_Stack Migration_Runner
begin

text \<open>
  Verification of the VCS Gateway: the service that receives GitHub and GitLab webhooks,
  authenticates and filters them, stores each event once together with an outbox row, and
  dispatches the outbox to RabbitMQ (paths below are under \<open>src/src/vcs_gateway/\<close>, migrations
  under \<open>src/migrations/versions/\<close>).

  \<^bold>\<open>How the program is modelled.\<close> Every coroutine is a \<open>prog\<close> (theory \<open>Prelude\<close>): a tree of atomic
  actions, one per \<open>await\<close> on PostgreSQL, Redis or RabbitMQ, that ends with an error on the left
  or a value on the right. \<open>attempt\<close> is the one control primitive; sequencing,
  \<open>try/except\<close>, \<open>finally\<close> and \<open>async with\<close> are instances. The shared state is the record
  \<open>world\<close> (theory \<open>World\<close>): committed tables, open transactions, the cache, the broker's log,
  clocks, the UUID source, and for every kind of call an oracle that decides which calls fail,
  whether the server applied a failed call, and whether the failure is a cancellation. A theorem
  about all worlds is a theorem about all fault schedules. Text is UTF-8 (\<open>PyText\<close>), JSON a
  datatype (\<open>Json\<close>), exceptions are the values of \<open>exn\<close> (\<open>Errors\<close>). Third-party operations whose
  code is not here (JSON text, pydantic's scalar validators, \<open>repr\<close>, date formats, whether the
  pool has a JSONB codec) are the fields of the parameter \<open>platform\<close>.

  \<^bold>\<open>Theories and the code they model.\<close>
  \<^item> \<open>Errors\<close>: \<open>core/exceptions.py\<close>, \<open>api/exception_handlers.py\<close> and the registrations of
    \<open>main.py\<close>; \<open>World\<close>: \<open>models/domain.py\<close>, \<open>config.py\<close>.
  \<^item> \<open>Sha256\<close>, \<open>Signature\<close>: \<open>core/signature.py\<close>, with SHA-256 and HMAC as executable functions
    (the block loop terminates by the length of its input).
  \<^item> \<open>Redis_Client\<close>: \<open>redis/client.py\<close>. The locale \<open>expiring_cache\<close> is the contract of a store
    with expiry and is interpreted on the modelled server.
  \<^item> \<open>Requests\<close>: \<open>models/requests.py\<close>, \<open>payload_parser.py\<close>, \<open>event_filter.py\<close>; \<open>Publisher\<close>:
    \<open>models/events.py\<close>, \<open>queue/publisher.py\<close>.
  \<^item> \<open>Repositories\<close>: \<open>db/repository.py\<close> and \<open>db/repositories/\<close>; a statement checks widths, unique
    indexes and constraints as the tables declare them and refuses text with a NUL character and
    documents that JSONB cannot hold; a transaction is atomic and undone on an error.
  \<^item> \<open>Outbox\<close>: \<open>db/outbox.py\<close>. A dispatch batch holds AMQP calls inside its transaction, so it is
    not atomic: locks, uncommitted updates, savepoints and the aborted state are part of the
    state. \<open>Outbox_Proofs\<close>, \<open>Outbox_Batch\<close>, \<open>Outbox_Run\<close> prove that it keeps the invariant under
    interference; \<open>Dispatch\<close> proves what a batch does without faults and when it fails.
  \<^item> \<open>Webhook_Processor\<close>: the validator, the idempotency checker and the persister;
    \<open>Gateway_Service\<close>: \<open>services/vcs_gateway.py\<close>; \<open>Api\<close>: the endpoints, health checks and the
    middleware stack.
  \<^item> \<open>Consumer\<close>: \<open>queue/consumer.py\<close>, with the abstract \<open>process_message\<close> as an argument and the
    acknowledgement protocol of the broker as its own state.
  \<^item> \<open>Schema\<close>: the two migrations, with tables as data; \<open>Migration_Runner\<close>: \<open>migrations/env.py\<close>,
    both modes of running them.
  \<^item> \<open>Process\<close>: \<open>core/logging.py\<close>, \<open>core/telemetry.py\<close>, the objects of \<open>app.state\<close> with the
    constructors of the service's components, and the state of a process; \<open>Lifecycle\<close>: \<open>lifespan\<close>
    of \<open>main.py\<close>, \<open>worker.py\<close> and the connection factories.
  \<^item> \<open>Http_Stack\<close>: \<open>create_app\<close> of \<open>main.py\<close> (middleware, handlers, routers), both classes of
    \<open>core/middleware.py\<close> with the access log and the logging context, and \<open>api/v1/endpoints.py\<close>.

  \<^bold>\<open>Concurrency.\<close> \<open>Interference\<close> gives a weakest precondition under a rely and a guarantee and a
  scheduler (\<open>pool_step\<close>) that interleaves any number of tasks action by action; its locale proves
  the calculus and its soundness once. \<open>Evolution\<close> states the invariant \<open>Inv\<close> of the shared state
  and interprets the locale with the relies and guarantees of requests and publishers; \<open>Consumer\<close>
  interprets it a second time for message handlers. \<open>Persistence\<close>, \<open>Gateway_Proofs\<close> and \<open>System\<close>
  carry it through the pipeline to \<open>reachable\<close>: the states of a service with any number of
  concurrent requests and publishers, while the environment moves clocks, drops cache entries,
  edits tenants, closes channels and decides which calls fail.

  \<^bold>\<open>Sequential behaviour.\<close> \<open>Preservation\<close> is the locale of relations that every action respects,
  interpreted for tables (\<open>Authorisation\<close>), fault schedules and publishers (\<open>Dispatch\<close>).
  \<open>Healthy\<close> computes every branch of the pipeline in a world whose calls are served, and
  \<open>Decision\<close> states the abstract specification \<open>decide\<close>, a function of tables, caches and request
  without I/O, which the pipeline refines in its answer and in what it stores. \<open>Samples\<close> holds the concrete executions of the
  witnesses.

  \<^bold>\<open>What is proved.\<close> This theory: uniqueness and pairing of stored rows, the meaning of every
  answer, the life cycle of outbox rows, the origin of messages, disjoint work of publishers,
  events published before they are marked as dispatched, monotone history, the refinement of
  \<open>decide\<close>, acceptance, redelivery, and that only authorised requests write. \<open>End_To_End\<close>: the
  journey of an accepted webhook from its answer through tables, publisher and broker to a
  consumer, put together from the theorems of the components. \<open>Delivery\<close>: scheduling, retries, batches, failing batches, and the polling loop.
  \<open>Edge\<close>: signatures and keys, the tenant cache, the JSONB columns, error responses, readiness.
  \<open>Consumer\<close>: no message is lost, the verdict on a message, and messages that return forever.
  \<open>Schema\<close>: round trip, idempotence, seeds, and inserts that conform to the declared tables.
  \<open>Recovery\<close>: a scheduled event can be delivered from every reachable state, because a publisher
  that does not run holds no rows (\<open>at_rest\<close>) and a repaired world dispatches what is due.
  \<open>Lifecycle\<close>: release in reverse order, and what a failure leaves open. \<open>Bounded_Work\<close>: requests
  and publisher turns end. \<open>Http_Stack\<close>: the assembled application is the application of the other
  theorems, and what the access log contains. \<open>Migration_Runner\<close>: migrations are all or nothing.

  \<^bold>\<open>Termination and bounds.\<close> Programs are a datatype, so every task terminates when it is scheduled
  often enough; \<open>ends_in\<close> of \<open>Bounded_Work\<close> counts its actions over all interleavings and fault
  schedules, one backward rule per control structure, and \<open>own_actions\<close> carries the count to the
  scheduler: at most 37 actions for a webhook, and ten plus seven per row for a publisher's turn;
  the only endless loop of the code, \<open>OutboxPublisher.run\<close>, is modelled by its first \<open>n\<close> turns for
  an arbitrary \<open>n\<close>, and its theorem shows that without a cancellation all of them are executed.
  Columns of type \<open>INTEGER\<close> and \<open>VARCHAR(n)\<close> are checked at their width; Python integers are
  unbounded.

  \<^bold>\<open>Not modelled.\<close> Log lines other than the access log and those of start-up and shutdown, and
  spans, which change no state of the service; routing, header and query parsing are FastAPI's;
  reading the environment is pydantic's; the tests. The rounding of durations in the access log is
  exact where Python rounds a binary float; a log level is taken to be ASCII. A transaction without
  AMQP calls is one action, which PostgreSQL's unique indexes justify; rows with equal dispatch times
  come in table order; index columns have no sort direction. The settings are read once
  (\<open>get_settings\<close>), so they are arguments. How the broker routes a message to a consumer's queue is
  configuration outside the repository: \<open>End_To_End\<close> says what a delivery carries and proves the
  rest.
\<close>

section \<open>Every reachable state\<close>

text \<open>C1: Whatever requests and publishers run, however their actions interleave and whichever
  calls fail, no two stored webhooks share an idempotency key, an event id or a correlation id,
  and no two outbox rows share an id.\<close>

theorem unique_persistence:
  assumes "reachable pf st rq ps w"
  shows "distinct (map ie_pr_hash_key (w_inbound w)) \<and> distinct (map ie_event_id (w_inbound w)) \<and>
    distinct (map ie_correlation_id (w_inbound w)) \<and> distinct (map oe_outbox_id (w_outbox w))"
  using reachable_sound [OF assms] by (simp add: Inv_def tables_ok_def)

theorem unique_persistence_witness:
  "distinct (map ie_pr_hash_key (w_inbound sample_after)) \<and> w_inbound sample_after \<noteq> []"
  using unique_persistence [OF sample_reachable] sample_tables(1) by simp

text \<open>C2: A 202 response means that the webhook and its outbox event are stored, under the
  idempotency key computed from the request, with the request's own document and with the ids
  that the response shows; the event's message carries the same document and ids.\<close>

theorem accepted_means_stored:
  assumes "reachable pf st rq ps w"
    and "ps (Web n) = Some (Done (Inr (Responded resp)))" and "hr_status resp = 202"
    and "webhook_of (snd (rq n)) = Some (p, tid, raw)"
  shows "\<exists>cid eid oid pr. hr_content resp = response_body (WebhookAccepted cid eid oid) \<and>
    parse_payload pf p raw = Inr pr \<and> stored eid cid tid (hash_key_of p tid pr) (json_loads pf raw) oid w"
  using reachable_webhook [OF assms(1,2,4)] assms(3) unfolding webhook_promise_def by blast

theorem accepted_means_stored_witness:
  "\<exists>cid eid oid pr. parse_payload sample_platform ''gitlab'' sample_raw = Inr pr \<and>
     stored eid cid 11 (hash_key_of ''gitlab'' 11 pr) (Some sample_body) oid sample_after"
proof -
  have "sample_pool (Web 0) = Some (Done (Inr (Responded sample_response)))" by (simp add: sample_pool_def)
  moreover have "json_loads sample_platform sample_raw = Some sample_body" by (simp add: sample_platform_def)
  ultimately show ?thesis
    using accepted_means_stored [OF sample_reachable, of 0 sample_response "''gitlab''" 11 sample_raw]
    by (auto simp: sample_requests_def sample_request_def sample_response_def simp del: response_body.simps)
qed





text \<open>C5: The stored webhooks and the outbox events correspond one to one, in order: the same
  correlation id, key and version, and the event's payload carries the webhook's ids, key and
  document.\<close>

theorem webhooks_and_events_paired:
  assumes "reachable pf st rq ps w"
  shows "list_all2 paired (w_inbound w) (w_outbox w)"
  using reachable_sound [OF assms] by (simp add: Inv_def tables_ok_def)

theorem webhooks_and_events_paired_witness:
  "list_all2 paired (w_inbound sample_after) (w_outbox sample_after) \<and> w_inbound sample_after \<noteq> []"
  using webhooks_and_events_paired [OF sample_reachable] sample_tables(1) by simp

text \<open>C9: The life cycle of an outbox row: at most three attempts, FAILED exactly after the
  third, DISPATCHED exactly when it carries a publication time, and never CANCELLED,
  because every webhook is stored with version 1.\<close>

theorem outbox_life_cycle:
  assumes "reachable pf st rq ps w" and "r \<in> set (w_outbox w)"
  shows "oe_max_retries r = 3 \<and> 0 \<le> oe_retry_count r \<and> oe_retry_count r \<le> 3 \<and>
    oe_status r \<noteq> CANCELLED \<and> (oe_status r = FAILED \<longleftrightarrow> oe_retry_count r = 3) \<and>
    (oe_status r = DISPATCHED \<longleftrightarrow> oe_published_at r \<noteq> None)"
proof -
  have "outbox_ok r"
    using reachable_sound [OF assms(1)] assms(2) by (simp add: Inv_def tables_ok_def list_all_iff)
  then show ?thesis by (cases "oe_status r") (auto simp: outbox_ok_def)
qed

theorem outbox_life_cycle_witness:
  "\<exists>r. w_outbox sample_after = [r] \<and> oe_max_retries r = 3 \<and> 0 \<le> oe_retry_count r \<and> oe_retry_count r \<le> 3 \<and>
    oe_status r \<noteq> CANCELLED \<and> (oe_status r = FAILED \<longleftrightarrow> oe_retry_count r = 3) \<and>
    (oe_status r = DISPATCHED \<longleftrightarrow> oe_published_at r \<noteq> None)"
proof -
  obtain r where r: "w_outbox sample_after = [r]" using sample_tables(2) by blast
  then show ?thesis using outbox_life_cycle [OF sample_reachable, of r] by simp
qed

text \<open>C13: Every message on the broker that is not a journey event is the payload of a stored
  outbox event and carries the ids, the key and the document of a stored webhook.\<close>

theorem messages_come_from_webhooks:
  assumes "reachable pf st rq ps w" and "m \<in> set (w_published w)"
    and "bm_routing_key m \<noteq> ''journey.step.created''"
  shows "\<exists>i \<in> set (w_inbound w). \<exists>r \<in> set (w_outbox w). paired i r \<and>
    bm_routing_key m = ''vcs.webhook.received'' \<and> bm_body m = oe_payload r \<and>
    describes (bm_body m) i"
proof -
  have inv: "Inv w" using reachable_sound [OF assms(1)] by blast
  then obtain r where r: "r \<in> set (w_outbox w)" "bm_routing_key m = oe_event_type r" "bm_body m = oe_payload r"
    using assms(2,3) by (auto simp: Inv_def list_all_iff message_ok_def)
  have pairs: "list_all2 paired (w_inbound w) (w_outbox w)" and ok: "outbox_ok r"
    using inv r(1) by (simp_all add: Inv_def tables_ok_def list_all_iff)
  obtain i where "i \<in> set (w_inbound w)" "paired i r"
    using pairs r(1) by (metis in_set_conv_nth list_all2_conv_all_nth)
  then show ?thesis using r ok by (auto simp: outbox_ok_def paired_def)
qed

theorem messages_come_from_webhooks_witness:
  "\<exists>m \<in> set (w_published delivered_after). \<exists>i \<in> set (w_inbound delivered_after). \<exists>r \<in> set (w_outbox delivered_after).
    paired i r \<and> bm_routing_key m = ''vcs.webhook.received'' \<and> bm_body m = oe_payload r \<and>
    describes (bm_body m) i"
proof -
  obtain ps where ps: "reachable sample_platform sample_settings sample_requests ps delivered_after"
    using delivered_reachable by blast
  obtain r where r: "w_outbox sample_later = [r]"
    "w_published delivered_after = w_published sample_later @ [row_message ''vcs.webhook.received'' r]"
    by (rule delivered)
  have "outbox_ok r" using later_Inv r(1) by (simp add: Inv_def tables_ok_def)
  then have "bm_routing_key (row_message ''vcs.webhook.received'' r) \<noteq> ''journey.step.created''"
    by (simp add: outbox_ok_def row_message_def)
  moreover have "row_message ''vcs.webhook.received'' r \<in> set (w_published delivered_after)" using r(2) by simp
  ultimately show ?thesis using messages_come_from_webhooks [OF ps] by blast
qed

text \<open>C7: At least once: in every reachable state an outbox row that is marked as dispatched has its
  message on the broker, with its payload, its headers and the ids, key and document of its webhook.
  The row is marked after the publication in the same transaction, so no interleaving, failing call, rollback
  or lost answer of a commit leaves a row that is marked and was never sent.\<close>

theorem dispatched_means_published:
  assumes "reachable pf st rq ps w" and r: "r \<in> set (w_outbox w)" "oe_status r = DISPATCHED"
  shows "\<exists>m \<in> set (w_published w). \<exists>i \<in> set (w_inbound w). paired i r \<and>
    bm_routing_key m = ''vcs.webhook.received'' \<and> bm_body m = oe_payload r \<and>
    JObj (bm_headers m) = oe_headers r \<and>
    describes (bm_body m) i"
proof -
  have inv: "Inv w" using reachable_sound [OF assms(1)] by blast
  have pairs: "list_all2 paired (w_inbound w) (w_outbox w)" and ok: "outbox_ok r"
    using inv r(1) by (simp_all add: Inv_def tables_ok_def list_all_iff)
  obtain i where "i \<in> set (w_inbound w)" "paired i r"
    using pairs r(1) by (metis in_set_conv_nth list_all2_conv_all_nth)
  then show ?thesis
    using dispatched_sent [OF assms(1) r] ok by (fastforce simp: on_broker_def outbox_ok_def paired_def)
qed

theorem dispatched_means_published_witness:
  "\<exists>r. w_outbox delivered_after = [r] \<and> oe_status r = DISPATCHED \<and>
    (\<exists>m \<in> set (w_published delivered_after). \<exists>i \<in> set (w_inbound delivered_after). paired i r \<and>
      bm_routing_key m = ''vcs.webhook.received'' \<and> bm_body m = oe_payload r \<and>
      JObj (bm_headers m) = oe_headers r \<and>
      describes (bm_body m) i)"
proof -
  obtain ps where ps: "reachable sample_platform sample_settings sample_requests ps delivered_after"
    using delivered_reachable by blast
  obtain r where r: "w_outbox delivered_after = [r\<lparr>oe_status := DISPATCHED, oe_published_at := Some (seconds 30)\<rparr>]"
    by (rule delivered)
  let ?r = "r\<lparr>oe_status := DISPATCHED, oe_published_at := Some (seconds 30)\<rparr>"
  have "?r \<in> set (w_outbox delivered_after)" "oe_status ?r = DISPATCHED" by (simp_all add: r)
  then show ?thesis using dispatched_means_published [OF ps] r by blast
qed

text \<open>A key in the idempotency cache is persisted: a cache hit never swallows a webhook
  that was not stored.\<close>

theorem cached_keys_persisted:
  assumes "reachable pf st rq ps w" and "redis_lookup w (idempotency_key h) = Some v"
  shows "h \<in> hash_keys w"
proof -
  have "cache_ok w" using reachable_sound [OF assms(1)] by (simp add: Inv_def)
  then show ?thesis using assms(2) by (auto simp: cache_ok_def redis_lookup_def split: option.splits)
qed

text \<open>C12: Two publishers never hold the same outbox row, and the rows they hold are scheduled.\<close>

theorem publishers_hold_disjoint_rows:
  assumes "reachable pf st rq ps w" and p: "tx_of w p = Some x"
  shows "(\<forall>i \<in> set (tx_locks x). \<exists>r \<in> set (w_outbox w). oe_outbox_id r = i \<and> oe_status r = SCHEDULED) \<and>
    (\<forall>q y. q \<noteq> p \<longrightarrow> tx_of w q = Some y \<longrightarrow> set (tx_locks x) \<inter> set (tx_locks y) = {})"
proof -
  have ok: "txs_ok w" using reachable_sound [OF assms(1)] by (simp add: Inv_def)
  then have x: "tx_ok w x" using p by (force simp: txs_ok_def tx_of_def dest: map_of_SomeD)
  have "set (tx_locks x) \<inter> set (tx_locks y) = {}" if "q \<noteq> p" "tx_of w q = Some y" for q y
    using ok own_locks_disjoint [OF _ p] locks_of_others [OF that(2,1)] by (auto simp: txs_ok_def)
  then show ?thesis using x unfolding tx_ok_def by blast
qed

theorem publishers_hold_disjoint_rows_witness:
  "\<exists>w x. tx_of w 0 = Some x \<and> tx_locks x = [105] \<and>
    (\<exists>r \<in> set (w_outbox w). oe_outbox_id r = 105 \<and> oe_status r = SCHEDULED)"
proof -
  obtain ps w x where x: "reachable sample_platform sample_settings sample_requests ps w" "tx_of w 0 = Some x"
    "tx_locks x = [105]"
    using selecting by blast
  then have "\<exists>r \<in> set (w_outbox w). oe_outbox_id r = 105 \<and> oe_status r = SCHEDULED"
    using publishers_hold_disjoint_rows [OF x(1,2)] by simp
  with x show ?thesis by blast
qed

text \<open>C19: History only grows: stored webhooks stay as they are, published messages stay, and an
  outbox row that is dispatched or failed never changes again.\<close>

theorem history_grows:
  assumes "reachable pf st rq ps w" and "(service_step pf st rq)\<^sup>*\<^sup>* (ps, w) (ps', w')"
  shows "set (w_inbound w) \<subseteq> set (w_inbound w') \<and> (\<exists>ms. w_published w' = w_published w @ ms) \<and>
    (\<forall>r \<in> set (w_outbox w). \<exists>r' \<in> set (w_outbox w'). progress r r') \<and>
    (\<forall>r \<in> set (w_outbox w). oe_status r \<noteq> SCHEDULED \<longrightarrow> r \<in> set (w_outbox w'))"
  using reachable_grows [OF assms] unfolding grows_def progress_def by fastforce

theorem history_grows_witness:
  "\<exists>r r'. w_outbox sample_after = [r] \<and> r' \<in> set (w_outbox sample_later) \<and> progress r r' \<and>
    set (w_inbound sample_after) \<subseteq> set (w_inbound sample_later)"
proof -
  have "service_step sample_platform sample_settings sample_requests (sample_pool, sample_after) (sample_pool, sample_later)"
    unfolding service_step_def by (rule pool_step.environment) (simp add: quiet_def sample_later_def)
  then have steps: "(service_step sample_platform sample_settings sample_requests)\<^sup>*\<^sup>* (sample_pool, sample_after) (sample_pool, sample_later)"
    by (rule r_into_rtranclp)
  obtain r where "w_outbox sample_after = [r]" using sample_tables(2) by blast
  then show ?thesis using history_grows [OF sample_reachable steps] by auto
qed

text \<open>The internal staleness check never reports an event as stale, because every stored
  webhook has version 1 and the version asked for is at least 1.\<close>

theorem staleness_never_reported:
  assumes "reachable pf st rq ps w"
    and "ps (Web n) = Some (Done (Inr (Responded resp)))" and "hr_status resp = 200"
    and "snd (rq n) = CheckStale h v" and "version_query v"
  shows "hr_content resp = JObj [(''is_stale'', JBool False), (''pr_hash_key'', JStr h)]"
  using reachable_promise [OF assms(1,2)] assms(3,4,5) by (simp add: stale_promise_def)

theorem staleness_never_reported_witness:
  "hr_status stale_response = 200 \<and>
    hr_content stale_response = JObj [(''is_stale'', JBool False), (''pr_hash_key'', JStr sample_key)]"
  using staleness_never_reported [OF stale_reachable, of 3 stale_response sample_key 1]
  by (simp add: stale_pool_def sample_requests_def stale_response_def version_query_def)

text \<open>When the internal duplicate check says yes, the key is persisted.\<close>

theorem duplicate_check_honest:
  assumes "reachable pf st rq ps w"
    and "ps (Web n) = Some (Done (Inr (Responded resp)))" and "hr_status resp = 200"
    and "snd (rq n) = CheckDuplicate h"
  shows "\<exists>d b. hr_content resp = JObj d \<and> dict_get d ''is_duplicate'' = Some (JBool b) \<and>
    (b \<longrightarrow> h \<in> hash_keys w)"
  using reachable_promise [OF assms(1,2)] assms(3,4) by (simp add: duplicate_promise_def)



section \<open>One request\<close>

text \<open>C8: In a world whose calls are all served, the answer to a webhook, on every branch, is the
  one the specification decide computes from the tables, the caches and the request, and the
  tables change by exactly the rows that this answer stands for: the webhook and its event when
  it is accepted, none otherwise.\<close>

theorem process_webhook_refines_decide:
  assumes "healthy w" and "Inv w" and "plain_dates pf"
  shows "fst (run (process_webhook pf st tid p raw hs) w) = decide pf tid p raw hs w \<and>
    appended w (accepted_rows pf st tid p raw hs w (decide pf tid p raw hs w))
      (snd (run (process_webhook pf st tid p raw hs) w))"
  using run_process_webhook_answer [OF assms] by (simp add: answers_def)

theorem process_webhook_refines_decide_witness:
  "decide sample_platform 11 ''gitlab'' sample_raw sample_headers sample_world = sample_outcome \<and>
   appended sample_world (accepted_rows sample_platform sample_settings 11 ''gitlab'' sample_raw sample_headers
     sample_world sample_outcome) sample_after"
  using process_webhook_refines_decide [OF sample_healthy sample_Inv sample_plain_dates,
      of sample_settings 11 "''gitlab''" sample_raw sample_headers]
  unfolding sample_outcome_def sample_after_def by simp



text \<open>C17: Once a webhook was answered with 202, a signed and allowed delivery of the same body
  for the same tenant is answered as a duplicate, whatever happened to the cache in between, and
  stores nothing.\<close>

theorem redelivery_is_duplicate:
  assumes "reachable pf st rq ps w"
    and "ps (Web n) = Some (Done (Inr (Responded resp)))" and "hr_status resp = 202"
    and "webhook_of (snd (rq n)) = Some (p, tid, raw)"
    and "healthy w" and "p \<in> supported_providers" and "secret_of pf tid w = Inr s"
    and "signature_valid p raw hs s = Inr True" and "parse_payload pf p raw = Inr pr"
    and "is_event_allowed (extract_event_type hs) (pd_action pr) (select_whitelist p w)"
  shows "\<exists>cid m. fst (run (process_webhook pf st tid p raw hs) w) =
      Inr (WebhookDuplicate cid (hash_key_of p tid pr) m) \<and> m \<in> {''redis_cache'', ''db_lookup''} \<and>
    same_tables w (snd (run (process_webhook pf st tid p raw hs) w))"
proof -
  let ?h = "hash_key_of p tid pr"
  have inv: "Inv w" using reachable_sound [OF assms(1)] by blast
  have codec: "jsonb_codec pf" and key: "?h \<in> hash_keys w"
    using reachable_webhook [OF assms(1,2,4)] assms(3,9) stored_key unfolding webhook_promise_def by auto
  obtain m where m: "detection pf ?h w = Inr (Some m)" "m \<in> {''redis_cache'', ''db_lookup''}"
    by (rule detection_of_stored [OF inv codec key])
  let ?cid = "w_uuid_source w (w_uuids_drawn w)"
  have "decide pf tid p raw hs w = Inr (WebhookDuplicate ?cid ?h m)"
    using assms m(1) by (simp add: decide_def Let_def)
  moreover have "answers pf st tid p raw hs w (decide pf tid p raw hs w) (run (process_webhook pf st tid p raw hs) w)"
    by (rule run_process_webhook_answer [OF assms(5) inv]) (use assms(9) m(1) in simp)
  ultimately show ?thesis using m(2) by (simp add: answers_def)
qed

theorem redelivery_is_duplicate_witness:
  "\<exists>cid m. fst (run (process_webhook sample_platform sample_settings 11 ''gitlab'' sample_raw sample_headers) sample_later) =
      Inr (WebhookDuplicate cid sample_key m) \<and> m \<in> {''redis_cache'', ''db_lookup''} \<and>
    same_tables sample_later (snd (run (process_webhook sample_platform sample_settings 11 ''gitlab'' sample_raw
      sample_headers) sample_later))"
  unfolding sample_key_def
  by (rule redelivery_is_duplicate [OF later_reachable, where n = 0 and resp = sample_response and s = "''s3cret''"])
     (simp_all add: sample_pool_def sample_response_def sample_requests_def sample_request_def later_healthy
       supported_providers_def later_secret later_request sample_parse)




end
